(* ===== verification/Prelude.thy ===== *)
theory Prelude
  imports Complex_Main "HOL-Library.Sublist"
begin

section \<open>Prelude: the Python values and string operations the components share\<close>

text \<open>
  What the server's components have in common: results of code that may raise
  (\<open>'e + 'a\<close>, \<open>Inl\<close> the exception), the string methods of Python the source calls
  (\<open>strip\<close>, \<open>lower\<close>, \<open>split\<close>, \<open>partition\<close>, \<open>startswith\<close>, \<open>int(...)\<close>,
  \<open>str(n)\<close>) with their laws, and the collections of facts the component theories
  extend.  A Python \<open>str\<close> is a \<open>string\<close> (a list of characters).  The character
  classes (white space, digits, letters, lower case) are those of ASCII: texts with
  characters above 127 are outside the model.  Python integers are \<open>int\<close>, clocks and
  other floats are exact rationals (\<open>rat\<close>, in the theories that need them).
\<close>

named_theorems py_simps "unfolding rules for the modelled Python operations"

subsection \<open>Results of code that may raise\<close>

type_synonym 'a str_dict = "(string \<times> 'a) list"

definition bind_res :: "'e + 'a \<Rightarrow> ('a \<Rightarrow> 'e + 'b) \<Rightarrow> 'e + 'b" where
  "bind_res m f = (case m of Inl e \<Rightarrow> Inl e | Inr x \<Rightarrow> f x)"

lemma bind_res_Inr_iff:
  "bind_res m f = Inr y \<longleftrightarrow> (\<exists>x. m = Inr x \<and> f x = Inr y)"
  by (auto simp: bind_res_def split: sum.splits)

lemma bind_res_simps [simp]: "bind_res (Inr x) f = f x" "bind_res (Inl e) f = Inl e"
  by (simp_all add: bind_res_def)

definition is_ok :: "'e + 'a \<Rightarrow> bool" where
  "is_ok m = (case m of Inl _ \<Rightarrow> False | Inr _ \<Rightarrow> True)"

lemma is_ok_simps [simp]: "is_ok (Inr x)" "\<not> is_ok (Inl e)"
  by (simp_all add: is_ok_def)

lemma is_ok_iff: "is_ok m \<longleftrightarrow> (\<exists>x. m = Inr x)"
  by (cases m) auto

lemma is_ok_unit [simp]: "is_ok (m :: 'e + unit) \<longleftrightarrow> m = Inr ()"
  by (cases m) auto

subsection \<open>Dictionaries in insertion order\<close>

text \<open>
  A Python \<open>dict\<close> is an association list in insertion order: assignment to a key that
  is present keeps its position, a new key goes to the end.
\<close>

fun dict_set :: "'k \<Rightarrow> 'v \<Rightarrow> ('k \<times> 'v) list \<Rightarrow> ('k \<times> 'v) list" where
  "dict_set k v [] = [(k, v)]"
| "dict_set k v ((k', v') # d) = (if k' = k then (k, v) # d else (k', v') # dict_set k v d)"

definition dict_pop :: "'k \<Rightarrow> ('k \<times> 'v) list \<Rightarrow> ('k \<times> 'v) list" where
  "dict_pop k d = filter (\<lambda>e. fst e \<noteq> k) d"

definition dict_get :: "('k \<times> 'v) list \<Rightarrow> 'k \<Rightarrow> 'v \<Rightarrow> 'v" where
  "dict_get d k v = (case map_of d k of None \<Rightarrow> v | Some w \<Rightarrow> w)"

lemma map_of_dict_set [simp]: "map_of (dict_set k v d) = (map_of d)(k \<mapsto> v)"
  by (induction k v d rule: dict_set.induct) (auto simp: fun_eq_iff)

lemma map_of_dict_pop [simp]: "map_of (dict_pop k d) = (map_of d)(k := None)"
  by (induction d) (auto simp: dict_pop_def fun_eq_iff)

lemma dict_set_nonempty [simp]: "dict_set k v d \<noteq> []"
  by (cases "(k, v, d)" rule: dict_set.cases) auto

lemma keys_dict_set: "fst ` set (dict_set k v d) = insert k (fst ` set d)"
  by (induction k v d rule: dict_set.induct) auto

lemma distinct_dict_set: "distinct (map fst d) \<Longrightarrow> distinct (map fst (dict_set k v d))"
proof (induction k v d rule: dict_set.induct)
  case (2 k v k' v' d)
  then show ?case using keys_dict_set [of k v d] by auto
qed simp

lemma distinct_dict_pop: "distinct (map fst d) \<Longrightarrow> distinct (map fst (dict_pop k d))"
  by (induction d) (auto simp: dict_pop_def)

lemma set_dict_set_subset: "set (dict_set k v d) \<subseteq> insert (k, v) (set d)"
  by (induction k v d rule: dict_set.induct) auto

lemma rev_drop_last: "rev (drop (length xs - n) xs) = take n (rev xs)"
  by (cases "n \<le> length xs") (simp_all add: rev_drop)

subsection \<open>Characters and strings\<close>

definition ord :: "char \<Rightarrow> nat" where
  "ord c = of_char c"

definition py_isspace :: "char \<Rightarrow> bool" where
  "py_isspace c \<longleftrightarrow> (9 \<le> ord c \<and> ord c \<le> 13) \<or> (28 \<le> ord c \<and> ord c \<le> 32)"

definition py_isdigit :: "char \<Rightarrow> bool" where
  "py_isdigit c \<longleftrightarrow> 48 \<le> ord c \<and> ord c \<le> 57"

definition py_isalpha :: "char \<Rightarrow> bool" where
  "py_isalpha c \<longleftrightarrow> (65 \<le> ord c \<and> ord c \<le> 90) \<or> (97 \<le> ord c \<and> ord c \<le> 122)"

definition py_isalnum :: "char \<Rightarrow> bool" where
  "py_isalnum c \<longleftrightarrow> py_isalpha c \<or> py_isdigit c"

definition py_isword :: "char \<Rightarrow> bool" where
  \<comment> \<open>the regular-expression class \<open>\w\<close>\<close>
  "py_isword c \<longleftrightarrow> py_isalnum c \<or> ord c = 95"

definition py_lower_char :: "char \<Rightarrow> char" where
  "py_lower_char c = (if 65 \<le> ord c \<and> ord c \<le> 90 then char_of (ord c + 32) else c)"

definition py_upper_char :: "char \<Rightarrow> char" where
  "py_upper_char c = (if 97 \<le> ord c \<and> ord c \<le> 122 then char_of (ord c - 32) else c)"

definition py_lower :: "string \<Rightarrow> string" where
  "py_lower s = map py_lower_char s"

definition py_upper :: "string \<Rightarrow> string" where
  "py_upper s = map py_upper_char s"

definition py_lstrip :: "(char \<Rightarrow> bool) \<Rightarrow> string \<Rightarrow> string" where
  "py_lstrip p s = dropWhile p s"

definition py_rstrip :: "(char \<Rightarrow> bool) \<Rightarrow> string \<Rightarrow> string" where
  "py_rstrip p s = rev (dropWhile p (rev s))"

definition py_strip :: "string \<Rightarrow> string" where
  "py_strip s = py_rstrip py_isspace (py_lstrip py_isspace s)"

definition py_startswith :: "string \<Rightarrow> string \<Rightarrow> bool" where
  "py_startswith s p = prefix p s"

definition py_endswith :: "string \<Rightarrow> string \<Rightarrow> bool" where
  "py_endswith s p = suffix p s"

fun py_contains :: "string \<Rightarrow> string \<Rightarrow> bool" where
  \<comment> \<open>\<open>needle in s\<close>\<close>
  "py_contains [] needle = (needle = [])"
| "py_contains (c # s) needle = (prefix needle (c # s) \<or> py_contains s needle)"

fun py_split :: "char \<Rightarrow> string \<Rightarrow> string list" where
  \<comment> \<open>\<open>s.split(sep)\<close> for a one-character separator\<close>
  "py_split sep [] = [[]]"
| "py_split sep (c # s) =
     (if c = sep then [] # py_split sep s
      else (case py_split sep s of [] \<Rightarrow> [[c]] | w # ws \<Rightarrow> (c # w) # ws))"

definition py_partition :: "char \<Rightarrow> string \<Rightarrow> string \<times> string \<times> string" where
  "py_partition sep s =
     (let a = takeWhile (\<lambda>c. c \<noteq> sep) s; r = drop (length a) s
      in case r of [] \<Rightarrow> (a, [], []) | c # t \<Rightarrow> (a, [c], t))"

fun py_join :: "string \<Rightarrow> string list \<Rightarrow> string" where
  "py_join sep [] = []"
| "py_join sep [w] = w"
| "py_join sep (w # ws) = w @ sep @ py_join sep ws"

definition py_replace_char :: "char \<Rightarrow> string \<Rightarrow> string \<Rightarrow> string" where
  "py_replace_char c r s = concat (map (\<lambda>d. if d = c then r else [d]) s)"

definition py_dollar :: "(string \<Rightarrow> bool) \<Rightarrow> string \<Rightarrow> bool" where
  \<comment> \<open>a pattern ended by \<open>$\<close>, which also matches before a final newline\<close>
  "py_dollar p s \<longleftrightarrow> p s \<or> (s \<noteq> [] \<and> last s = CHR 0x0A \<and> p (butlast s))"

subsection \<open>Integers as text\<close>

text \<open>
  \<open>int(s)\<close>: white space around the literal is dropped, one sign is allowed, and single
  underscores may stand between digits; everything else is a \<open>ValueError\<close>
  (\<open>None\<close>).  The interpreter's limit of 4300 digits is not modelled.
\<close>

fun read_digits :: "bool \<Rightarrow> nat \<Rightarrow> string \<Rightarrow> nat option" where
  "read_digits prev acc [] = (if prev then Some acc else None)"
| "read_digits prev acc (c # s) =
     (if py_isdigit c then read_digits True (10 * acc + (ord c - 48)) s
      else if c = CHR ''_'' \<and> prev then read_digits False acc s
      else None)"

definition py_int :: "string \<Rightarrow> int option" where
  "py_int s =
     (case py_strip s of
        [] \<Rightarrow> None
      | c # t \<Rightarrow>
          if c = CHR ''-'' then map_option (\<lambda>n. - int n) (read_digits False 0 t)
          else if c = CHR ''+'' then map_option int (read_digits False 0 t)
          else map_option int (read_digits False 0 (c # t)))"

definition digit_char :: "nat \<Rightarrow> char" where
  "digit_char d = char_of (48 + d)"

fun show_nat :: "nat \<Rightarrow> string" where
  "show_nat n = (if n < 10 then [digit_char n] else show_nat (n div 10) @ [digit_char (n mod 10)])"

declare show_nat.simps [simp del]

definition py_str_int :: "int \<Rightarrow> string" where
  "py_str_int i = (if i < 0 then CHR ''-'' # show_nat (nat (- i)) else show_nat (nat i))"

lemmas char_class_defs [py_simps] =
  py_isspace_def py_isdigit_def py_isalpha_def py_isalnum_def py_isword_def ord_def
  py_lower_char_def py_upper_char_def

subsection \<open>Laws of the string operations\<close>

lemma ord_digit_char [simp]: "d < 10 \<Longrightarrow> ord (digit_char d) = 48 + d"
  by (simp add: ord_def digit_char_def)

lemma py_isdigit_digit_char [simp]: "d < 10 \<Longrightarrow> py_isdigit (digit_char d)"
  by (simp add: py_isdigit_def)

lemma show_nat_nonempty [simp]: "show_nat n \<noteq> []"
  by (subst show_nat.simps) simp

lemma show_nat_digits: "c \<in> set (show_nat n) \<Longrightarrow> py_isdigit c"
proof (induction n rule: show_nat.induct)
  case (1 n)
  then show ?case
    by (cases "n < 10") (auto simp: show_nat.simps [of n])
qed

lemma isdigit_not_isspace: "py_isdigit c \<Longrightarrow> \<not> py_isspace c"
  by (auto simp: py_isdigit_def py_isspace_def)

lemma isdigit_not_sign: "py_isdigit c \<Longrightarrow> c \<noteq> CHR ''-'' \<and> c \<noteq> CHR ''+''"
  by (auto simp: py_isdigit_def ord_def)

lemma py_strip_id:
  assumes "\<And>c. c \<in> set s \<Longrightarrow> \<not> py_isspace c"
  shows "py_strip s = s"
proof -
  have "dropWhile py_isspace s = s" using assms by (cases s) auto
  moreover have "dropWhile py_isspace (rev s) = rev s" using assms by (cases "rev s") (auto simp: rev_eq_Cons_iff)
  ultimately show ?thesis by (simp add: py_strip_def py_lstrip_def py_rstrip_def)
qed

lemma read_digits_append_digit:
  assumes "read_digits b a s = Some n" and "d < 10"
  shows "read_digits b a (s @ [digit_char d]) = Some (10 * n + d)"
  using assms
  by (induction b a s rule: read_digits.induct) (auto split: if_splits)

lemma read_digits_show_nat: "read_digits False 0 (show_nat n) = Some n"
proof (induction n rule: show_nat.induct)
  case (1 n)
  show ?case
  proof (cases "n < 10")
    case True
    then show ?thesis by (simp add: show_nat.simps [of n])
  next
    case False
    with 1 have "read_digits False 0 (show_nat (n div 10)) = Some (n div 10)" by simp
    from read_digits_append_digit [OF this, of "n mod 10"] False
    show ?thesis by (simp add: show_nat.simps [of n])
  qed
qed

lemma py_int_digits:
  assumes "s \<noteq> []" and "\<And>c. c \<in> set s \<Longrightarrow> py_isdigit c"
  shows "py_int s = map_option int (read_digits False 0 s)"
proof -
  have "py_strip s = s" using assms(2) isdigit_not_isspace by (blast intro: py_strip_id)
  then show ?thesis
    using assms isdigit_not_sign by (cases s) (auto simp: py_int_def)
qed

text \<open>Printing an integer and reading it back gives the integer.\<close>

lemma py_int_str_int: "py_int (py_str_int i) = Some i"
proof (cases "i < 0")
  case True
  have "\<not> py_isspace c" if "c \<in> set (py_str_int i)" for c
    using that True show_nat_digits isdigit_not_isspace
    by (auto simp: py_str_int_def) (simp add: py_isspace_def ord_def)
  then have "py_strip (py_str_int i) = py_str_int i" by (rule py_strip_id)
  then show ?thesis using True by (simp add: py_int_def py_str_int_def read_digits_show_nat)
next
  case False
  then show ?thesis
    using py_int_digits [of "show_nat (nat i)"] show_nat_digits
    by (auto simp: py_str_int_def read_digits_show_nat)
qed

lemma py_split_nonempty [simp]: "py_split sep s \<noteq> []"
  by (induction sep s rule: py_split.induct) (auto split: list.splits)

lemma py_split_no_sep: "w \<in> set (py_split sep s) \<Longrightarrow> sep \<notin> set w"
proof (induction s arbitrary: w)
  case (Cons c s)
  then show ?case
    by (cases "py_split sep s") (auto split: if_splits)
qed simp

lemma py_join_split: "py_join [sep] (py_split sep s) = s"
proof (induction s)
  case (Cons c s)
  show ?case
  proof (cases "py_split sep s")
    case (Cons w ws)
    with Cons.IH show ?thesis by (cases ws) auto
  qed simp
qed simp

lemma length_py_join:
  "ws \<noteq> [] \<Longrightarrow> length (py_join sep ws) + length sep = sum_list (map (\<lambda>w. length w + length sep) ws)"
  by (induction sep ws rule: py_join.induct) auto

lemma length_py_join_le: "length (py_join sep ws) \<le> sum_list (map length ws) + length sep * length ws"
  by (induction sep ws rule: py_join.induct) auto

lemma py_split_fresh: "sep \<notin> set w \<Longrightarrow> py_split sep w = [w]"
  by (induction w) auto

lemma py_split_append:
  "sep \<notin> set w \<Longrightarrow> py_split sep (w @ sep # s) = w # py_split sep s"
  by (induction w) auto

lemma py_partition_fst_no_sep: "py_partition sep s = (a, m, b) \<Longrightarrow> sep \<notin> set a"
  by (auto simp: py_partition_def Let_def split: list.splits dest: set_takeWhileD)

lemma py_partition_append:
  "sep \<notin> set a \<Longrightarrow> py_partition sep (a @ sep # b) = (a, [sep], b)"
proof -
  assume "sep \<notin> set a"
  then have "takeWhile (\<lambda>c. c \<noteq> sep) (a @ sep # b) = a"
    by (induction a) auto
  then show ?thesis by (simp add: py_partition_def)
qed

lemma py_contains_sublist: "py_contains s needle \<longleftrightarrow> sublist needle s"
  by (induction s needle rule: py_contains.induct) (auto simp: sublist_Cons_right)

subsection \<open>Hexadecimal digests\<close>

text \<open>
  \<open>hexdigest()\<close> of \<open>hashlib\<close> and \<open>hmac\<close>: two lower-case hexadecimal digits
  per byte of the digest.  The digest itself (SHA-256, HMAC-SHA-256) is a parameter of the
  components that use it, a function to byte lists.
\<close>

definition hex_char :: "nat \<Rightarrow> char" where
  "hex_char d = (if d < 10 then char_of (48 + d) else char_of (87 + d))"

definition hexdigest :: "nat list \<Rightarrow> string" where
  "hexdigest bs = concat (map (\<lambda>b. [hex_char (b div 16 mod 16), hex_char (b mod 16)]) bs)"

lemma ord_hex_char: "d < 16 \<Longrightarrow> ord (hex_char d) = (if d < 10 then 48 + d else 87 + d)"
  by (simp add: ord_def hex_char_def)

lemma py_lower_hex_char [simp]: "d < 16 \<Longrightarrow> py_lower_char (hex_char d) = hex_char d"
  by (simp add: py_lower_char_def ord_hex_char)

lemma py_lower_hexdigest [simp]: "py_lower (hexdigest bs) = hexdigest bs"
  by (induction bs) (simp_all add: hexdigest_def py_lower_def)

lemma length_hexdigest [simp]: "length (hexdigest bs) = 2 * length bs"
  by (induction bs) (simp_all add: hexdigest_def)

subsection \<open>Step relations that keep an invariant\<close>

text \<open>
  The contract the state machines of the development share: a step relation, a predicate
  every step keeps, and (in the extension) a rank no step lowers.  The conclusions for
  whole runs are proved here once; the component theories interpret the locales on the
  step relations of the code.
\<close>

locale inv_system =
  fixes step :: "'s \<Rightarrow> 's \<Rightarrow> bool" and inv :: "'s \<Rightarrow> bool"
  assumes step_inv: "inv s \<Longrightarrow> step s t \<Longrightarrow> inv t"
begin

lemma run_inv: "step\<^sup>*\<^sup>* s t \<Longrightarrow> inv s \<Longrightarrow> inv t"
  by (induction rule: rtranclp_induct) (auto intro: step_inv)

end

locale ranked_system = inv_system step inv
  for step :: "'s \<Rightarrow> 's \<Rightarrow> bool" and inv :: "'s \<Rightarrow> bool" +
  fixes rank :: "'k \<Rightarrow> 's \<Rightarrow> nat"
  assumes step_rank: "inv s \<Longrightarrow> step s t \<Longrightarrow> rank k s \<le> rank k t"
begin

lemma run_rank: "step\<^sup>*\<^sup>* s t \<Longrightarrow> inv s \<Longrightarrow> rank k s \<le> rank k t"
proof (induction rule: rtranclp_induct)
  case (step y z)
  from step.hyps(1) step.prems have "inv y" by (rule run_inv)
  with step.hyps(2) have "rank k y \<le> rank k z" by (simp add: step_rank)
  with step.IH step.prems show ?case by simp
qed simp

end

end
