(* ===== verification/Action_Kinds.thy ===== *)
theory Action_Kinds
  imports Prelude
begin

section \<open>Action kinds, target validation and deployment profiles\<close>

text \<open>
  The registry of auto-response kinds (\<open>action_kinds.py\<close>), the validation of a target
  before a command is signed, and the deployment profiles (\<open>deployment.py\<close>) that enable
  kinds per mode.  The process environment is a parameter \<open>env\<close>, the map behind
  \<open>os.environ\<close>; every \<open>raise ValueError\<close> of the source is its own constructor of
  \<open>value_error\<close>.
\<close>

subsection \<open>The kinds\<close>

datatype target_shape =
  Shape_ipv4 | Shape_ipv4_cidr | Shape_pid | Shape_path | Shape_user | Shape_session
| Shape_url | Shape_host

record kind =
  kind_name :: string
  kind_target_shape :: target_shape
  default_ttl_sec :: int
  description :: string
  requires_host_opt_in :: bool

definition mk_kind :: "string \<Rightarrow> target_shape \<Rightarrow> int \<Rightarrow> string \<Rightarrow> bool \<Rightarrow> string \<times> kind" where
  "mk_kind n sh ttl descr opt =
     (n, \<lparr>kind_name = n, kind_target_shape = sh, default_ttl_sec = ttl,
          description = descr, requires_host_opt_in = opt\<rparr>)"

definition KINDS :: "kind str_dict" where
  "KINDS =
     [mk_kind ''block_ip'' Shape_ipv4 3600
        ''Drop all traffic from this source IP via nftables.'' True,
      mk_kind ''tarpit_ip'' Shape_ipv4 1800
        ''Accept connections from this IP but throttle reads to a trickle.'' True,
      mk_kind ''canary_alert'' Shape_path 0
        ''Alert when this canary file/path is touched. Zero false positives.'' False,
      mk_kind ''isolate_host'' Shape_host 900
        ''Block all network egress from this host (kill switch).'' True,
      mk_kind ''kill_process'' Shape_pid 0
        ''Send SIGKILL to the offending process (cgroup-scoped).'' True,
      mk_kind ''quarantine_file'' Shape_path 0
        ''chmod 000 the file and move it to the evidence vault.'' True,
      mk_kind ''revoke_session'' Shape_session 86400
        ''Invalidate the session/credential and force re-auth.'' True,
      mk_kind ''webhook_soar'' Shape_url 0
        ''POST a signed event to a SOAR endpoint. Action lives in the SOAR.'' False,
      mk_kind ''evidence_capture'' Shape_host 0
        ''Capture logs/process tree/network state into the evidence vault.'' False]"

datatype value_error =
  Unknown_kind string
| Ipv4_parts string
| Ipv4_non_numeric string string
| Ipv4_range string int
| Unspecified_address
| Broadcast_address
| Deny_range string
| Cidr_no_slash string
| Cidr_non_numeric string string
| Cidr_range string int
| Cidr_zero_prefix
| Cidr_wide_prefix int
| Cidr_deny_range string
| Pid_non_numeric string
| Pid_not_positive string
| Path_not_absolute string
| User_empty
| User_illegal string
| Target_empty string
| Unknown_mode string
| Kind_not_enabled string string
| Storage_mismatch string string

definition is_valid_kind :: "string \<Rightarrow> bool" where
  "is_valid_kind name \<longleftrightarrow> name \<in> set (map fst KINDS)"

definition get_kind :: "string \<Rightarrow> value_error + kind" where
  "get_kind name =
     (case map_of KINDS name of None \<Rightarrow> Inl (Unknown_kind name) | Some k \<Rightarrow> Inr k)"

definition list_kinds :: "string list" where
  "list_kinds = map fst KINDS"

subsection \<open>IPv4 addresses\<close>

unbundle bit_operations_syntax

fun parse_octets :: "string \<Rightarrow> string list \<Rightarrow> value_error + int list" where
  \<comment> \<open>the \<open>for part in parts\<close> loop of \<open>_parse_ipv4\<close>\<close>
  "parse_octets target [] = Inr []"
| "parse_octets target (part # parts) =
     (case py_int part of
        None \<Rightarrow> Inl (Ipv4_non_numeric target part)
      | Some n \<Rightarrow>
          if \<not> (0 \<le> n \<and> n \<le> 255) then Inl (Ipv4_range target n)
          else bind_res (parse_octets target parts) (\<lambda>ns. Inr (n # ns)))"

definition parse_ipv4 :: "string \<Rightarrow> value_error + (int \<times> int \<times> int \<times> int)" where
  "parse_ipv4 target =
     (let parts = py_split CHR ''.'' target
      in if length parts \<noteq> 4 then Inl (Ipv4_parts target)
         else bind_res (parse_octets target parts)
                (\<lambda>octets. Inr (octets ! 0, octets ! 1, octets ! 2, octets ! 3)))"

definition ip_to_int :: "int \<Rightarrow> int \<Rightarrow> int \<Rightarrow> int \<Rightarrow> int" where
  "ip_to_int o1 o2 o3 o4 = push_bit 24 o1 OR push_bit 16 o2 OR push_bit 8 o3 OR o4"

subsection \<open>The deny list\<close>

definition allow_dangerous :: "(string \<rightharpoonup> string) \<Rightarrow> bool" where
  "allow_dangerous env \<longleftrightarrow>
     (case env ''ZAQORIN_ALLOW_DANGEROUS_TARGETS'' of None \<Rightarrow> [] | Some v \<Rightarrow> v) = ''1''"

definition DENY_RANGES :: "(string \<times> int \<times> int) list" where
  "DENY_RANGES =
     [(''loopback'', ip_to_int 127 0 0 0, ip_to_int 127 255 255 255),
      (''multicast'', ip_to_int 224 0 0 0, ip_to_int 239 255 255 255)]"

fun find_deny_range :: "int \<Rightarrow> (string \<times> int \<times> int) list \<Rightarrow> string option" where
  \<comment> \<open>the \<open>for label, cidr, lo, hi in _DENY_RANGES\<close> loop\<close>
  "find_deny_range addr [] = None"
| "find_deny_range addr ((label, lo, hi) # rs) =
     (if lo \<le> addr \<and> addr \<le> hi then Some label else find_deny_range addr rs)"

definition check_dangerous_single :: "(string \<rightharpoonup> string) \<Rightarrow> int \<Rightarrow> value_error + unit" where
  "check_dangerous_single env addr =
     (if allow_dangerous env then Inr ()
      else if addr = 0 then Inl Unspecified_address
      else if addr = ip_to_int 255 255 255 255 then Inl Broadcast_address
      else (case find_deny_range addr DENY_RANGES of
              Some label \<Rightarrow> Inl (Deny_range label) | None \<Rightarrow> Inr ()))"

definition check_dangerous_cidr :: "(string \<rightharpoonup> string) \<Rightarrow> int \<Rightarrow> int \<Rightarrow> value_error + unit" where
  "check_dangerous_cidr env addr pfx =
     (if allow_dangerous env then Inr ()
      else if pfx = 0 then Inl Cidr_zero_prefix
      else if pfx \<le> 8 then Inl (Cidr_wide_prefix pfx)
      else (case find_deny_range addr DENY_RANGES of
              Some label \<Rightarrow> Inl (Cidr_deny_range label) | None \<Rightarrow> Inr ()))"

subsection \<open>Target validation\<close>

definition validate_cidr :: "(string \<rightharpoonup> string) \<Rightarrow> string \<Rightarrow> value_error + unit" where
  \<comment> \<open>the branch \<open>shape == "ipv4_cidr"\<close> of \<open>validate_target\<close>\<close>
  "validate_cidr env target =
     (if CHR ''/'' \<notin> set target then Inl (Cidr_no_slash target)
      else case py_partition CHR ''/'' target of (ip, _, pfx) \<Rightarrow>
        bind_res (parse_ipv4 ip) (\<lambda>(o1, o2, o3, o4).
          case py_int pfx of
            None \<Rightarrow> Inl (Cidr_non_numeric target pfx)
          | Some n \<Rightarrow>
              if \<not> (0 \<le> n \<and> n \<le> 32) then Inl (Cidr_range target n)
              else check_dangerous_cidr env (ip_to_int o1 o2 o3 o4) n))"

definition validate_shape ::
  "(string \<rightharpoonup> string) \<Rightarrow> target_shape \<Rightarrow> string \<Rightarrow> string \<Rightarrow> value_error + unit" where
  "validate_shape env shape kname target =
     (case shape of
        Shape_ipv4 \<Rightarrow>
          bind_res (parse_ipv4 target) (\<lambda>(o1, o2, o3, o4).
            check_dangerous_single env (ip_to_int o1 o2 o3 o4))
      | Shape_ipv4_cidr \<Rightarrow> validate_cidr env target
      | Shape_pid \<Rightarrow>
          (case py_int target of
             None \<Rightarrow> Inl (Pid_non_numeric target)
           | Some n \<Rightarrow> if n \<le> 0 then Inl (Pid_not_positive target) else Inr ())
      | Shape_path \<Rightarrow>
          if \<not> py_startswith target ''/'' then Inl (Path_not_absolute target) else Inr ()
      | Shape_user \<Rightarrow>
          if target = [] then Inl User_empty
          else if \<not> list_all (\<lambda>c. py_isalnum c \<or> c \<in> {CHR ''_'', CHR ''-'', CHR ''.''}) target
          then Inl (User_illegal target) else Inr ()
      | _ \<Rightarrow> if target = [] then Inl (Target_empty kname) else Inr ())"

definition validate_target ::
  "(string \<rightharpoonup> string) \<Rightarrow> string \<Rightarrow> string \<Rightarrow> value_error + unit" where
  "validate_target env kname target =
     bind_res (get_kind kname)
       (\<lambda>k. validate_shape env (kind_target_shape k) kname target)"

subsection \<open>Deployment profiles\<close>

datatype transport_kind = Local | Websocket
datatype detector_set = Core | Standard | Full

record mode_profile =
  mode_name :: string
  storage :: string
  transport :: transport_kind
  detectors :: detector_set
  action_kinds :: "string list"
  memory_budget_mb :: int
  cpu_budget_pct :: rat
  dashboard :: bool
  hunt_engine :: bool
  federation :: bool
  multi_tenant :: bool

definition INDIVIDUAL :: mode_profile where
  "INDIVIDUAL =
     \<lparr>mode_name = ''individual'', storage = ''sqlite'', transport = Local, detectors = Core,
      action_kinds = [''block_ip'', ''canary_alert'', ''evidence_capture''],
      memory_budget_mb = 20, cpu_budget_pct = 3/2, dashboard = False, hunt_engine = False, federation = False,
      multi_tenant = False\<rparr>"

definition STARTUP :: mode_profile where
  "STARTUP =
     \<lparr>mode_name = ''startup'', storage = ''postgresql'', transport = Websocket,
      detectors = Standard,
      action_kinds = [''block_ip'', ''tarpit_ip'', ''canary_alert'', ''isolate_host'',
        ''kill_process'', ''quarantine_file'', ''webhook_soar'', ''evidence_capture''],
      memory_budget_mb = 200, cpu_budget_pct = 5, dashboard = True, hunt_engine = True, federation = False,
      multi_tenant = False\<rparr>"

definition ENTERPRISE :: mode_profile where
  "ENTERPRISE =
     \<lparr>mode_name = ''enterprise'', storage = ''postgresql'', transport = Websocket,
      detectors = Full,
      action_kinds = [''block_ip'', ''tarpit_ip'', ''canary_alert'', ''isolate_host'',
        ''kill_process'', ''quarantine_file'', ''revoke_session'', ''webhook_soar'',
        ''evidence_capture''],
      memory_budget_mb = 1024, cpu_budget_pct = 10, dashboard = True, hunt_engine = True, federation = True,
      multi_tenant = True\<rparr>"

definition PROFILES :: "mode_profile str_dict" where
  "PROFILES = [(''individual'', INDIVIDUAL), (''startup'', STARTUP), (''enterprise'', ENTERPRISE)]"

definition get_profile :: "string \<Rightarrow> value_error + mode_profile" where
  "get_profile mode =
     (case map_of PROFILES mode of None \<Rightarrow> Inl (Unknown_mode mode) | Some p \<Rightarrow> Inr p)"

definition validate_mode_storage :: "string \<Rightarrow> string \<Rightarrow> value_error + unit" where
  "validate_mode_storage mode st =
     (if mode = ''individual'' \<and> st \<noteq> ''sqlite'' then Inl (Storage_mismatch mode st)
      else if mode \<in> {''startup'', ''enterprise''} \<and> st \<noteq> ''postgresql''
      then Inl (Storage_mismatch mode st)
      else Inr ())"

definition validate_mode_action :: "string \<Rightarrow> string \<Rightarrow> value_error + unit" where
  "validate_mode_action mode k =
     bind_res (get_profile mode) (\<lambda>p.
       if k \<notin> set (action_kinds p) then Inl (Kind_not_enabled k mode) else Inr ())"

subsection \<open>Addresses as integers\<close>

lemma push_bit_or_eq_add:
  fixes a b :: int
  assumes "0 \<le> b" and "b < 2 ^ n"
  shows "push_bit n a OR b = a * 2 ^ n + b"
proof -
  have b: "take_bit n b = b" using assms by (simp add: take_bit_int_eq_self_iff)
  have "\<not> (bit (push_bit n a) m \<and> bit (take_bit n b) m)" for m
    by (auto simp: bit_simps)
  then have "push_bit n a AND take_bit n b = 0" by (auto simp: bit_eq_iff bit_and_iff)
  then have "push_bit n a + take_bit n b = push_bit n a OR take_bit n b"
    by (rule disjunctive_add_eq_or)
  with b show ?thesis by (simp add: push_bit_eq_mult)
qed

definition octet :: "int \<Rightarrow> bool" where
  "octet n \<longleftrightarrow> 0 \<le> n \<and> n \<le> 255"

lemma ip_to_int_sum:
  assumes "octet o2" "octet o3" "octet o4"
  shows "ip_to_int o1 o2 o3 o4 = o1 * 2 ^ 24 + (o2 * 2 ^ 16 + (o3 * 2 ^ 8 + o4))"
proof -
  have 1: "push_bit 8 o3 OR o4 = o3 * 2 ^ 8 + o4"
    using assms by (intro push_bit_or_eq_add) (auto simp: octet_def)
  have 2: "push_bit 16 o2 OR (o3 * 2 ^ 8 + o4) = o2 * 2 ^ 16 + (o3 * 2 ^ 8 + o4)"
    using assms by (intro push_bit_or_eq_add) (auto simp: octet_def)
  have 3: "push_bit 24 o1 OR (o2 * 2 ^ 16 + (o3 * 2 ^ 8 + o4)) =
      o1 * 2 ^ 24 + (o2 * 2 ^ 16 + (o3 * 2 ^ 8 + o4))"
    using assms by (intro push_bit_or_eq_add) (auto simp: octet_def)
  have "ip_to_int o1 o2 o3 o4 = push_bit 24 o1 OR (push_bit 16 o2 OR (push_bit 8 o3 OR o4))"
    by (simp add: ip_to_int_def or.assoc)
  then show ?thesis by (simp only: 1 2 3)
qed

lemma ip_to_int_div:
  assumes "octet o2" "octet o3" "octet o4"
  shows "ip_to_int o1 o2 o3 o4 div 16777216 = o1"
  using assms by (simp add: ip_to_int_sum octet_def)

lemma ip_to_int_bound:
  assumes "octet o1" "octet o2" "octet o3" "octet o4"
  shows "0 \<le> ip_to_int o1 o2 o3 o4 \<and> ip_to_int o1 o2 o3 o4 < 2 ^ 32"
  using assms by (simp add: ip_to_int_sum octet_def)

lemma deny_bounds:
  "ip_to_int 127 0 0 0 = 127 * 2 ^ 24" "ip_to_int 127 255 255 255 = 127 * 2 ^ 24 + (2 ^ 24 - 1)"
  "ip_to_int 224 0 0 0 = 224 * 2 ^ 24" "ip_to_int 239 255 255 255 = 239 * 2 ^ 24 + (2 ^ 24 - 1)"
  "ip_to_int 255 255 255 255 = 2 ^ 32 - 1"
  by (simp_all add: ip_to_int_sum octet_def)

lemma in_block_iff:
  fixes lo hi a :: int
  shows "lo * 2 ^ 24 \<le> a \<and> a \<le> hi * 2 ^ 24 + (2 ^ 24 - 1) \<longleftrightarrow>
    lo \<le> a div 16777216 \<and> a div 16777216 \<le> hi"
proof -
  have "lo * 16777216 \<le> a \<longleftrightarrow> lo \<le> a div 16777216" by arith
  moreover have "a \<le> hi * 16777216 + 16777215 \<longleftrightarrow> a div 16777216 \<le> hi" by arith
  ultimately show ?thesis by simp
qed

lemma find_deny_range_None_iff:
  "find_deny_range addr DENY_RANGES = None \<longleftrightarrow>
     addr div 16777216 \<noteq> 127 \<and> \<not> (224 \<le> addr div 16777216 \<and> addr div 16777216 \<le> 239)"
proof -
  define q where "q = addr div 16777216"
  have "127 \<le> q \<and> q \<le> 127 \<longleftrightarrow> q = 127" by auto
  then show ?thesis
    unfolding DENY_RANGES_def deny_bounds find_deny_range.simps in_block_iff
    unfolding q_def [symmetric] by simp
qed

lemma parse_octets_octet:
  "parse_octets t ps = Inr ns \<Longrightarrow> length ns = length ps \<and> (\<forall>n \<in> set ns. octet n)"
proof (induction ps arbitrary: ns)
  case (Cons p ps)
  from Cons.prems obtain n ms where "octet n" "parse_octets t ps = Inr ms" "ns = n # ms"
    by (cases "py_int p") (auto simp: bind_res_Inr_iff octet_def split: if_split_asm)
  with Cons.IH [of ms] show ?case by simp
qed simp

lemma parse_ipv4_octets:
  assumes "parse_ipv4 t = Inr (o1, o2, o3, o4)"
  shows "octet o1" "octet o2" "octet o3" "octet o4"
proof -
  from assms obtain ns where len: "length (py_split CHR ''.'' t) = 4"
    and ns: "parse_octets t (py_split CHR ''.'' t) = Inr ns"
    and eq: "o1 = ns ! 0" "o2 = ns ! 1" "o3 = ns ! 2" "o4 = ns ! 3"
    by (auto simp: parse_ipv4_def Let_def bind_res_Inr_iff split: if_splits)
  from parse_octets_octet [OF ns] len have "length ns = 4" "\<forall>n \<in> set ns. octet n" by auto
  then show "octet o1" "octet o2" "octet o3" "octet o4" by (simp_all add: eq)
qed

lemma ip_to_int_zero_iff:
  assumes "octet o1" "octet o2" "octet o3" "octet o4"
  shows "ip_to_int o1 o2 o3 o4 = 0 \<longleftrightarrow> (o1, o2, o3, o4) = (0, 0, 0, 0)"
proof -
  have nn: "0 \<le> o1" "0 \<le> o2" "0 \<le> o3" "0 \<le> o4" using assms by (simp_all add: octet_def)
  have sum: "ip_to_int o1 o2 o3 o4 = o1 * 2 ^ 24 + (o2 * 2 ^ 16 + (o3 * 2 ^ 8 + o4))"
    by (rule ip_to_int_sum [OF assms(2-4)])
  show ?thesis
  proof
    assume "ip_to_int o1 o2 o3 o4 = 0"
    with sum nn have "o1 = 0" "o2 = 0" "o3 = 0" "o4 = 0" by simp_all
    then show "(o1, o2, o3, o4) = (0, 0, 0, 0)" by simp
  qed (use sum in simp)
qed

lemma ip_to_int_broadcast_iff:
  assumes "octet o1" "octet o2" "octet o3" "octet o4"
  shows "ip_to_int o1 o2 o3 o4 = ip_to_int 255 255 255 255 \<longleftrightarrow>
    (o1, o2, o3, o4) = (255, 255, 255, 255)"
proof -
  have ub: "o1 \<le> 255" "o2 \<le> 255" "o3 \<le> 255" "o4 \<le> 255"
    using assms by (simp_all add: octet_def)
  have sum: "ip_to_int o1 o2 o3 o4 = o1 * 2 ^ 24 + (o2 * 2 ^ 16 + (o3 * 2 ^ 8 + o4))"
    by (rule ip_to_int_sum [OF assms(2-4)])
  show ?thesis
  proof
    assume "ip_to_int o1 o2 o3 o4 = ip_to_int 255 255 255 255"
    then have "o1 * 16777216 + (o2 * 65536 + (o3 * 256 + o4)) = 4294967295"
      by (simp add: sum deny_bounds)
    with ub have "o1 = 255" "o2 = 255" "o3 = 255" "o4 = 255" by linarith+
    then show "(o1, o2, o3, o4) = (255, 255, 255, 255)" by simp
  qed simp
qed

text \<open>The deny list, stated on the octets.\<close>

definition safe_address :: "int \<times> int \<times> int \<times> int \<Rightarrow> bool" where
  "safe_address a = (case a of (o1, o2, o3, o4) \<Rightarrow>
     o1 \<noteq> 127 \<and> \<not> (224 \<le> o1 \<and> o1 \<le> 239) \<and>
     (o1, o2, o3, o4) \<noteq> (0, 0, 0, 0) \<and> (o1, o2, o3, o4) \<noteq> (255, 255, 255, 255))"

lemma check_dangerous_single_ok:
  assumes "octet o1" "octet o2" "octet o3" "octet o4" and "\<not> allow_dangerous env"
  shows "check_dangerous_single env (ip_to_int o1 o2 o3 o4) = Inr () \<longleftrightarrow>
    safe_address (o1, o2, o3, o4)"
proof -
  have "find_deny_range (ip_to_int o1 o2 o3 o4) DENY_RANGES = None \<longleftrightarrow>
      o1 \<noteq> 127 \<and> \<not> (224 \<le> o1 \<and> o1 \<le> 239)"
    unfolding find_deny_range_None_iff ip_to_int_div [OF assms(2-4)] ..
  moreover have "check_dangerous_single env (ip_to_int o1 o2 o3 o4) = Inr () \<longleftrightarrow>
      (o1, o2, o3, o4) \<noteq> (0, 0, 0, 0) \<and> (o1, o2, o3, o4) \<noteq> (255, 255, 255, 255) \<and>
      find_deny_range (ip_to_int o1 o2 o3 o4) DENY_RANGES = None"
    unfolding check_dangerous_single_def ip_to_int_zero_iff [OF assms(1-4)]
      ip_to_int_broadcast_iff [OF assms(1-4)]
    using assms(5) by (simp split: option.split)
  ultimately show ?thesis unfolding safe_address_def prod.case by argo
qed

lemma validate_ipv4_iff:
  assumes "\<not> allow_dangerous env"
  shows "validate_shape env Shape_ipv4 k t = Inr () \<longleftrightarrow>
    (\<exists>a. parse_ipv4 t = Inr a \<and> safe_address a)"
  using check_dangerous_single_ok [OF _ _ _ _ assms] parse_ipv4_octets
  by (auto simp: validate_shape_def bind_res_Inr_iff)

lemma get_kind_ip [simp]:
  "get_kind ''block_ip'' = Inr (snd (mk_kind ''block_ip'' Shape_ipv4 3600
     ''Drop all traffic from this source IP via nftables.'' True))"
  "get_kind ''tarpit_ip'' = Inr (snd (mk_kind ''tarpit_ip'' Shape_ipv4 1800
     ''Accept connections from this IP but throttle reads to a trickle.'' True))"
  by (simp_all add: get_kind_def KINDS_def mk_kind_def)

subsection \<open>Blocks of addresses\<close>

definition in_cidr :: "int \<Rightarrow> int \<Rightarrow> int \<Rightarrow> bool" where
  \<comment> \<open>\<open>a\<close> lies in the block of \<open>2 ^ (32 - n)\<close> addresses around \<open>addr\<close>\<close>
  "in_cidr addr n a \<longleftrightarrow> a div 2 ^ nat (32 - n) = addr div 2 ^ nat (32 - n)"

lemma in_cidr_same_block:
  assumes "in_cidr addr n a" and "8 < n" and "n \<le> 32"
  shows "a div 16777216 = addr div 16777216"
proof -
  define k where "k = nat (32 - n)"
  have k: "k \<le> 24" using assms(2,3) by (simp add: k_def)
  have "(16777216 :: int) = 2 ^ k * 2 ^ (24 - k)"
    using k by (simp add: power_add [symmetric])
  then have "x div 16777216 = x div 2 ^ k div 2 ^ (24 - k)" for x :: int
    using zdiv_zmult2_eq [of "2 ^ (24 - k)" x "2 ^ k"] by (metis zero_le_numeral zero_le_power)
  then show ?thesis using assms(1) by (simp add: in_cidr_def k_def)
qed

lemma check_dangerous_cidr_ok:
  assumes "check_dangerous_cidr env addr n = Inr ()" and "\<not> allow_dangerous env" and "0 \<le> n"
  shows "8 < n" and "find_deny_range addr DENY_RANGES = None"
  using assms by (auto simp: check_dangerous_cidr_def split: if_splits option.splits)

lemma allow_dangerous_iff:
  "allow_dangerous env \<longleftrightarrow> env ''ZAQORIN_ALLOW_DANGEROUS_TARGETS'' = Some ''1''"
  by (auto simp: allow_dangerous_def split: option.splits)

lemma py_int_octet: "octet n \<Longrightarrow> py_int (py_str_int n) = Some n"
  by (simp add: py_int_str_int)

lemma dot_not_in_number: "CHR ''.'' \<notin> set (py_str_int i)"
  using show_nat_digits [of "CHR ''.''"]
  by (auto simp: py_str_int_def py_isdigit_def ord_def)

lemma get_kind_Inr_iff: "get_kind k = Inr x \<longleftrightarrow> map_of KINDS k = Some x"
  by (auto simp: get_kind_def split: option.splits)

lemma is_valid_kind_iff: "is_valid_kind k \<longleftrightarrow> (\<exists>x. get_kind k = Inr x)"
proof -
  have "is_valid_kind k \<longleftrightarrow> k \<in> dom (map_of KINDS)"
    by (simp add: is_valid_kind_def dom_map_of_conv_image_fst)
  then show ?thesis by (auto simp: get_kind_Inr_iff)
qed

lemma get_profile_cases:
  assumes "get_profile mode = Inr p"
  shows "p = INDIVIDUAL \<or> p = STARTUP \<or> p = ENTERPRISE"
  using assms by (auto simp: get_profile_def PROFILES_def split: if_splits)

lemmas profile_defs = INDIVIDUAL_def STARTUP_def ENTERPRISE_def

lemma list_kinds_eq:
  "list_kinds = [''block_ip'', ''tarpit_ip'', ''canary_alert'', ''isolate_host'',
     ''kill_process'', ''quarantine_file'', ''revoke_session'', ''webhook_soar'',
     ''evidence_capture'']"
  by (simp add: list_kinds_def KINDS_def mk_kind_def)

lemma is_valid_kind_list: "is_valid_kind k \<longleftrightarrow> k \<in> set list_kinds"
  by (simp add: is_valid_kind_def list_kinds_def)

lemma profile_kinds_registered:
  assumes "get_profile mode = Inr p"
  shows "set (action_kinds p) \<subseteq> set list_kinds"
  using get_profile_cases [OF assms] by (auto simp: profile_defs list_kinds_eq)

lemma validate_mode_action_ok_iff:
  "validate_mode_action mode k = Inr () \<longleftrightarrow>
     (\<exists>p. get_profile mode = Inr p \<and> k \<in> set (action_kinds p))"
  by (auto simp: validate_mode_action_def bind_res_Inr_iff split: if_splits)

subsection \<open>Properties\<close>

text \<open>
  C2: With the operator override unset, \<open>validate_target\<close> accepts a \<open>block_ip\<close> or
  \<open>tarpit_ip\<close> target exactly when the text parses as four octets whose address is
  neither loopback (127/8), multicast (224/4), unspecified nor broadcast: no command that
  would cut the host off can pass the check, and no other address is refused.
\<close>

theorem validate_target_ip_safe:
  assumes "env ''ZAQORIN_ALLOW_DANGEROUS_TARGETS'' \<noteq> Some ''1''"
    and "k = ''block_ip'' \<or> k = ''tarpit_ip''"
  shows "validate_target env k t = Inr () \<longleftrightarrow>
    (\<exists>a. parse_ipv4 t = Inr a \<and> safe_address a)"
proof -
  have "\<not> allow_dangerous env" using assms(1) by (simp add: allow_dangerous_iff)
  then show ?thesis
    using assms(2) by (auto simp: validate_target_def mk_kind_def validate_ipv4_iff)
qed

lemma parse_example: "parse_ipv4 ''203.0.113.9'' = Inr (203, 0, 113, 9)"
  by code_simp

theorem validate_target_ip_safe_witness:
  "validate_target Map.empty ''block_ip'' ''203.0.113.9'' = Inr () \<and>
   safe_address (203, 0, 113, 9)"
proof -
  have "safe_address (203, 0, 113, 9)" by (simp add: safe_address_def)
  then show ?thesis
    using validate_target_ip_safe [of Map.empty "''block_ip''" "''203.0.113.9''"] parse_example
    by simp
qed

text \<open>
  A CIDR target that passes the semantic check (override unset) names a block none of
  whose addresses, not just its base address, is loopback or multicast: every address
  \<open>a\<close> of the block has a first octet outside 127 and 224..239.
\<close>

theorem validate_cidr_block_safe:
  assumes "env ''ZAQORIN_ALLOW_DANGEROUS_TARGETS'' \<noteq> Some ''1''"
    and "validate_cidr env t = Inr ()"
  shows "\<exists>ip pfx o1 o2 o3 o4 n. py_partition CHR ''/'' t = (ip, ''/'', pfx) \<and>
    parse_ipv4 ip = Inr (o1, o2, o3, o4) \<and> py_int pfx = Some n \<and> 8 < n \<and> n \<le> 32 \<and>
    (\<forall>a. in_cidr (ip_to_int o1 o2 o3 o4) n a \<longrightarrow>
       a div 2 ^ 24 \<noteq> 127 \<and> \<not> (224 \<le> a div 2 ^ 24 \<and> a div 2 ^ 24 \<le> 239))"
proof -
  have na: "\<not> allow_dangerous env" using assms(1) by (simp add: allow_dangerous_iff)
  obtain ip m pfx where part: "py_partition CHR ''/'' t = (ip, m, pfx)" by (metis prod_cases3)
  from assms(2) have slash: "CHR ''/'' \<in> set t"
    by (auto simp: validate_cidr_def split: if_splits)
  then obtain u v where "t = u @ CHR ''/'' # v" "CHR ''/'' \<notin> set u"
    by (metis split_list_first)
  with part have m: "m = ''/''" by (simp add: py_partition_append)
  from assms(2) slash part obtain o1 o2 o3 o4 n where
    p: "parse_ipv4 ip = Inr (o1, o2, o3, o4)" and n: "py_int pfx = Some n" "0 \<le> n" "n \<le> 32"
    and ok: "check_dangerous_cidr env (ip_to_int o1 o2 o3 o4) n = Inr ()"
    by (auto simp: validate_cidr_def bind_res_Inr_iff split: option.splits if_splits)
  note chk = check_dangerous_cidr_ok [OF ok na n(2)]
  have "a div 16777216 = ip_to_int o1 o2 o3 o4 div 16777216"
    if "in_cidr (ip_to_int o1 o2 o3 o4) n a" for a
    using in_cidr_same_block [OF that chk(1) n(3)] .
  with chk(2) have "\<forall>a. in_cidr (ip_to_int o1 o2 o3 o4) n a \<longrightarrow>
      a div 16777216 \<noteq> 127 \<and> \<not> (224 \<le> a div 16777216 \<and> a div 16777216 \<le> 239)"
    unfolding find_deny_range_None_iff by metis
  then have "\<forall>a. in_cidr (ip_to_int o1 o2 o3 o4) n a \<longrightarrow>
      a div 2 ^ 24 \<noteq> 127 \<and> \<not> (224 \<le> a div 2 ^ 24 \<and> a div 2 ^ 24 \<le> 239)"
    by simp
  with part m p n chk(1) show ?thesis by blast
qed

theorem validate_cidr_block_safe_witness:
  "validate_cidr Map.empty ''198.51.100.0/24'' = Inr () \<and>
   (\<exists>ip pfx o1 o2 o3 o4 n. py_partition CHR ''/'' ''198.51.100.0/24'' = (ip, ''/'', pfx) \<and>
    parse_ipv4 ip = Inr (o1, o2, o3, o4) \<and> py_int pfx = Some n \<and> 8 < n \<and> n \<le> 32 \<and>
    (\<forall>a. in_cidr (ip_to_int o1 o2 o3 o4) n a \<longrightarrow>
       a div 2 ^ 24 \<noteq> 127 \<and> \<not> (224 \<le> a div 2 ^ 24 \<and> a div 2 ^ 24 \<le> 239)))"
proof -
  have ok: "validate_cidr Map.empty ''198.51.100.0/24'' = Inr ()" by code_simp
  show ?thesis using ok validate_cidr_block_safe [OF _ ok] by simp
qed

text \<open>
  Printing four octets in dotted form and parsing the text gives the octets back, and
  the address arithmetic is injective on them: \<open>_ip_to_int\<close> is the big-endian value,
  below 2^32.
\<close>

theorem parse_ipv4_print_roundtrip:
  assumes "octet o1" "octet o2" "octet o3" "octet o4"
  shows "parse_ipv4 (py_join ''.'' (map py_str_int [o1, o2, o3, o4])) = Inr (o1, o2, o3, o4) \<and>
    ip_to_int o1 o2 o3 o4 = o1 * 2 ^ 24 + (o2 * 2 ^ 16 + (o3 * 2 ^ 8 + o4)) \<and>
    0 \<le> ip_to_int o1 o2 o3 o4 \<and> ip_to_int o1 o2 o3 o4 < 2 ^ 32"
proof -
  have "py_split CHR ''.'' (py_join ''.'' (map py_str_int [o1, o2, o3, o4])) =
      map py_str_int [o1, o2, o3, o4]"
    by (simp add: py_split_append py_split_fresh dot_not_in_number)
  then have "parse_ipv4 (py_join ''.'' (map py_str_int [o1, o2, o3, o4])) = Inr (o1, o2, o3, o4)"
    using assms by (simp add: parse_ipv4_def py_int_octet octet_def)
  with ip_to_int_sum [OF assms(2-4)] ip_to_int_bound [OF assms] show ?thesis by blast
qed

theorem parse_ipv4_print_roundtrip_witness:
  "parse_ipv4 (py_join ''.'' (map py_str_int [10, 0, 0, 7])) = Inr (10, 0, 0, 7)"
  using parse_ipv4_print_roundtrip [of 10 0 0 7] by (simp add: octet_def)

text \<open>
  The address check is more lenient than a dotted quad: \<open>int()\<close> drops white space
  and accepts a sign and underscores, so texts that are not IPv4 addresses pass
  \<open>validate_target\<close> and would be signed and sent as they are.
\<close>

theorem validate_target_accepts_malformed:
  "validate_target Map.empty ''block_ip'' '' 8.+8.0_8.8 '' = Inr () \<and>
   validate_target Map.empty ''block_ip'' ''8.8.8'' = Inl (Ipv4_parts ''8.8.8'') \<and>
   validate_target Map.empty ''block_ip'' ''8.8.8.x'' = Inl (Ipv4_non_numeric ''8.8.8.x'' ''x'')"
  by code_simp

text \<open>
  The deployment profiles are nested (individual, startup, enterprise), enterprise
  enables every registered kind, and a kind a mode accepts is always registered, so the
  mode check never lets an unknown kind through.
\<close>

theorem deployment_profiles_nested:
  "set (action_kinds INDIVIDUAL) \<subseteq> set (action_kinds STARTUP) \<and>
   set (action_kinds STARTUP) \<subseteq> set (action_kinds ENTERPRISE) \<and>
   set (action_kinds ENTERPRISE) = set list_kinds \<and>
   (validate_mode_action mode k = Inr () \<longrightarrow> is_valid_kind k)"
proof -
  have "is_valid_kind k" if "validate_mode_action mode k = Inr ()"
    using that profile_kinds_registered by (auto simp: validate_mode_action_ok_iff is_valid_kind_list)
  then show ?thesis by (simp add: profile_defs list_kinds_eq)
qed

theorem deployment_profiles_nested_witness:
  "validate_mode_action ''startup'' ''block_ip'' = Inr () \<and> is_valid_kind ''block_ip''"
proof -
  have ok: "validate_mode_action ''startup'' ''block_ip'' = Inr ()" by code_simp
  then show ?thesis using deployment_profiles_nested [of "''startup''" "''block_ip''"] by simp
qed

end
