(* ===== verification/Action_Service.thy ===== *)
theory Action_Service
  imports Prelude
begin

section \<open>The actions table and its life cycle\<close>

text \<open>
  The \<open>hosts\<close> and \<open>actions\<close> tables (\<open>models/host.py\<close>, \<open>models/action.py\<close>) as
  lists of rows with a primary key, and the statements of
  \<open>detectors/action_service.py\<close> on them: an \<open>UPDATE ... WHERE id = ... AND status
  = ...\<close> maps the rows that satisfy its condition, and reports whether there was one.
  The fresh id and the clock reading of each call are arguments.  Identifiers are the
  texts of UUIDs.
\<close>

type_synonym uuid = string

record host_row =
  host_id :: uuid
  last_seen_at :: rat
  last_version :: "string option"
  host_secret :: "string option"
  auto_block :: bool

record action_row =
  action_id :: uuid
  act_host_id :: "uuid option"
  act_alert_id :: "uuid option"
  act_kind :: string
  act_target :: string
  act_ttl_sec :: "int option"
  act_status :: string
  sent_at :: "rat option"
  acked_at :: "rat option"
  act_created_at :: rat

definition write_action ::
  "uuid \<Rightarrow> rat \<Rightarrow> uuid option \<Rightarrow> uuid option \<Rightarrow> string \<Rightarrow> string \<Rightarrow> int option \<Rightarrow>
   action_row list \<Rightarrow> action_row list" where
  "write_action new_id now h alert k t ttl tbl =
     tbl @ [\<lparr>action_id = new_id, act_host_id = h, act_alert_id = alert, act_kind = k,
             act_target = t, act_ttl_sec = ttl, act_status = ''pending'', sent_at = None,
             acked_at = None, act_created_at = now\<rparr>]"

definition update_where ::
  "('r \<Rightarrow> bool) \<Rightarrow> ('r \<Rightarrow> 'r) \<Rightarrow> 'r list \<Rightarrow> bool \<times> 'r list" where
  \<comment> \<open>\<open>UPDATE ... WHERE p\<close>: whether the row count is positive, and the table\<close>
  "update_where p f tbl = (list_ex p tbl, map (\<lambda>r. if p r then f r else r) tbl)"

definition mark_dispatched :: "rat \<Rightarrow> uuid \<Rightarrow> action_row list \<Rightarrow> bool \<times> action_row list" where
  "mark_dispatched now aid =
     update_where (\<lambda>a. action_id a = aid \<and> act_status a = ''pending'')
       (\<lambda>a. a\<lparr>act_status := ''dispatched'', sent_at := Some now\<rparr>)"

definition mark_applied :: "rat \<Rightarrow> uuid \<Rightarrow> action_row list \<Rightarrow> bool \<times> action_row list" where
  "mark_applied now aid =
     update_where (\<lambda>a. action_id a = aid \<and> act_status a = ''dispatched'')
       (\<lambda>a. a\<lparr>act_status := ''applied'', acked_at := Some now\<rparr>)"

definition mark_failed :: "rat \<Rightarrow> uuid \<Rightarrow> action_row list \<Rightarrow> bool \<times> action_row list" where
  "mark_failed now aid =
     update_where (\<lambda>a. action_id a = aid \<and> act_status a = ''dispatched'')
       (\<lambda>a. a\<lparr>act_status := ''failed'', acked_at := Some now\<rparr>)"

definition get_action :: "uuid \<Rightarrow> action_row list \<Rightarrow> action_row option" where
  "get_action aid tbl = find (\<lambda>a. action_id a = aid) tbl"

subsection \<open>Steps of the table\<close>

inductive action_step :: "action_row list \<Rightarrow> action_row list \<Rightarrow> bool" where
  step_write: "new_id \<notin> action_id ` set tbl \<Longrightarrow>
     action_step tbl (write_action new_id now h alert k t ttl tbl)"
| step_dispatch: "action_step tbl (snd (mark_dispatched now aid tbl))"
| step_applied: "action_step tbl (snd (mark_applied now aid tbl))"
| step_failed: "action_step tbl (snd (mark_failed now aid tbl))"

definition wf_action :: "action_row \<Rightarrow> bool" where
  "wf_action a \<longleftrightarrow>
     (act_status a = ''pending'' \<and> sent_at a = None \<and> acked_at a = None) \<or>
     (act_status a = ''dispatched'' \<and> sent_at a \<noteq> None \<and> acked_at a = None) \<or>
     (act_status a \<in> {''applied'', ''failed''} \<and> sent_at a \<noteq> None \<and> acked_at a \<noteq> None)"

definition wf_actions :: "action_row list \<Rightarrow> bool" where
  "wf_actions tbl \<longleftrightarrow> distinct (map action_id tbl) \<and> list_all wf_action tbl"

definition status_rank :: "string \<Rightarrow> nat" where
  "status_rank s = (if s = ''pending'' then 1 else if s = ''dispatched'' then 2 else 3)"

definition action_rank :: "uuid \<Rightarrow> action_row list \<Rightarrow> nat" where
  "action_rank aid tbl =
     (case get_action aid tbl of None \<Rightarrow> 0 | Some a \<Rightarrow> status_rank (act_status a))"

lemma update_where_ids:
  assumes "\<And>r. action_id (f r) = action_id r"
  shows "map action_id (snd (update_where p f tbl)) = map action_id tbl"
  by (simp add: update_where_def assms)

lemma update_where_all:
  assumes "list_all P tbl" and "\<And>r. P r \<Longrightarrow> p r \<Longrightarrow> P (f r)"
  shows "list_all P (snd (update_where p f tbl))"
  using assms by (auto simp: update_where_def list_all_iff)

lemma get_action_update_where:
  assumes "\<And>r. action_id (f r) = action_id r"
  shows "get_action aid (snd (update_where p f tbl)) =
    map_option (\<lambda>r. if p r then f r else r) (get_action aid tbl)"
proof (induction tbl)
  case (Cons r tbl)
  have "action_id (if p r then f r else r) = action_id r" by (simp add: assms)
  with Cons show ?case
    by (cases "action_id r = aid") (simp_all add: get_action_def update_where_def)
qed (simp add: get_action_def update_where_def)

lemmas mark_defs = mark_dispatched_def mark_applied_def mark_failed_def

lemma wf_actions_step: "action_step tbl tbl' \<Longrightarrow> wf_actions tbl \<Longrightarrow> wf_actions tbl'"
proof (induction rule: action_step.induct)
  case (step_write new_id tbl now h alert k t ttl)
  then show ?case by (auto simp: wf_actions_def write_action_def wf_action_def)
next
  case (step_dispatch tbl now aid)
  then show ?case
    unfolding wf_actions_def mark_dispatched_def
    by (auto simp: update_where_ids wf_action_def intro!: update_where_all)
next
  case (step_applied tbl now aid)
  then show ?case
    unfolding wf_actions_def mark_applied_def
    by (auto simp: update_where_ids wf_action_def intro!: update_where_all)
next
  case (step_failed tbl now aid)
  then show ?case
    unfolding wf_actions_def mark_failed_def
    by (auto simp: update_where_ids wf_action_def intro!: update_where_all)
qed

lemma get_action_write:
  "new_id \<notin> action_id ` set tbl \<Longrightarrow>
   get_action aid (write_action new_id now h alert k t ttl tbl) =
     (if aid = new_id then Some (last (write_action new_id now h alert k t ttl tbl))
      else get_action aid tbl)"
  by (induction tbl) (auto simp: get_action_def write_action_def)

lemma get_action_notin: "aid \<notin> action_id ` set tbl \<Longrightarrow> get_action aid tbl = None"
  by (auto simp: get_action_def find_None_iff)

lemma get_action_unique:
  "distinct (map action_id tbl) \<Longrightarrow> a \<in> set tbl \<Longrightarrow> get_action (action_id a) tbl = Some a"
  by (induction tbl) (auto simp: get_action_def)

lemma action_rank_step: "action_step tbl tbl' \<Longrightarrow> action_rank aid tbl \<le> action_rank aid tbl'"
proof (induction rule: action_step.induct)
  case (step_write new_id tbl now h alert k t ttl)
  then show ?case by (simp add: action_rank_def get_action_write get_action_notin)
qed (auto simp: action_rank_def mark_defs get_action_update_where status_rank_def split: option.splits)

interpretation actions: ranked_system action_step wf_actions action_rank
  by unfold_locales (auto intro: wf_actions_step action_rank_step)

subsection \<open>Properties\<close>

lemma get_action_wf: "wf_actions tbl \<Longrightarrow> get_action aid tbl = Some a \<Longrightarrow> wf_action a"
  by (auto simp: wf_actions_def get_action_def list_all_iff find_Some_iff)

lemma terminal_step:
  assumes "action_step tbl tbl'" and "get_action aid tbl = Some a"
    and "act_status a \<in> {''applied'', ''failed''}"
  shows "get_action aid tbl' = Some a"
  using assms
proof (induction rule: action_step.induct)
  case (step_write new_id tbl now h alert k t ttl)
  then show ?case using get_action_notin [of aid tbl] by (auto simp: get_action_write)
qed (auto simp: mark_defs get_action_update_where)

lemma terminal_run:
  assumes "action_step\<^sup>*\<^sup>* tbl tbl'" and "get_action aid tbl = Some a"
    and "act_status a \<in> {''applied'', ''failed''}"
  shows "get_action aid tbl' = Some a"
  using assms by (induction rule: rtranclp_induct) (auto intro: terminal_step)

lemma wf_status_rank:
  "wf_action a \<Longrightarrow> act_status a \<in> {''applied'', ''failed''} \<longleftrightarrow> status_rank (act_status a) = 3"
  by (auto simp: wf_action_def status_rank_def)

text \<open>
  C8: In every run of inserts, dispatches and acknowledgements from an empty actions table,
  in any order, ids stay unique and every row is consistent (a pending row was neither sent
  nor acknowledged, a dispatched one was sent, an applied or failed one was sent and
  acknowledged); a row's status only moves forward (pending, dispatched, then applied or
  failed), and a finished row is never changed again.
\<close>

theorem action_lifecycle:
  assumes run: "action_step\<^sup>*\<^sup>* [] tbl" and more: "action_step\<^sup>*\<^sup>* tbl tbl'"
  shows "wf_actions tbl \<and> action_rank aid tbl \<le> action_rank aid tbl' \<and>
    (action_rank aid tbl = 3 \<longrightarrow> get_action aid tbl' = get_action aid tbl)"
proof -
  have wf: "wf_actions tbl" using actions.run_inv [OF run] by (simp add: wf_actions_def)
  have "get_action aid tbl' = get_action aid tbl" if r: "action_rank aid tbl = 3"
  proof -
    from r obtain a where a: "get_action aid tbl = Some a" "status_rank (act_status a) = 3"
      by (auto simp: action_rank_def split: option.splits)
    then have "act_status a \<in> {''applied'', ''failed''}"
      using get_action_wf [OF wf] wf_status_rank by blast
    then show ?thesis using terminal_run [OF more a(1)] a(1) by simp
  qed
  then show ?thesis using wf actions.run_rank [OF more wf, of aid] by simp
qed

definition demo_actions :: "action_row list" where
  "demo_actions = write_action ''a1'' 1 (Some ''h1'') None ''block_ip'' ''203.0.113.9'' (Some 60) []"

theorem action_lifecycle_witness:
  "action_step\<^sup>*\<^sup>* [] demo_actions \<and>
   action_step\<^sup>*\<^sup>* demo_actions (snd (mark_dispatched 2 ''a1'' demo_actions)) \<and>
   wf_actions demo_actions \<and>
   action_rank ''a1'' demo_actions \<le> action_rank ''a1'' (snd (mark_dispatched 2 ''a1'' demo_actions))"
proof -
  have 1: "action_step\<^sup>*\<^sup>* [] demo_actions"
    unfolding demo_actions_def by (intro r_into_rtranclp action_step.intros) simp
  have 2: "action_step\<^sup>*\<^sup>* demo_actions (snd (mark_dispatched 2 ''a1'' demo_actions))"
    by (intro r_into_rtranclp action_step.intros)
  show ?thesis using 1 2 action_lifecycle [OF 1 2, of "''a1''"] by blast
qed

text \<open>
  An acknowledgement that arrives before the dispatcher has marked the row is lost: on a
  pending row \<open>mark_applied\<close> and \<open>mark_failed\<close> report that nothing was updated and
  leave the table unchanged, so the later \<open>mark_dispatched\<close> leaves the row dispatched
  for ever, whereas in the other order it ends applied.
\<close>

theorem early_ack_is_lost:
  assumes wf: "wf_actions tbl" and row: "get_action aid tbl = Some a"
    and "act_status a = ''pending''"
  shows "mark_applied now aid tbl = (False, tbl) \<and> mark_failed now aid tbl = (False, tbl) \<and>
    map_option act_status
      (get_action aid (snd (mark_dispatched now' aid (snd (mark_applied now aid tbl))))) =
      Some ''dispatched'' \<and>
    map_option act_status
      (get_action aid (snd (mark_applied now aid (snd (mark_dispatched now' aid tbl))))) =
      Some ''applied''"
proof -
  have "b = a" if "b \<in> set tbl" "action_id b = aid" for b
    using get_action_unique [of tbl b] wf row that by (simp add: wf_actions_def)
  then have no: "\<not> (action_id b = aid \<and> act_status b = ''dispatched'')" if "b \<in> set tbl" for b
    using that assms(3) by auto
  have "list_ex (\<lambda>b. action_id b = aid \<and> act_status b = ''dispatched'') tbl = False"
    using no by (auto simp: list_ex_iff)
  moreover have "map (\<lambda>b. if action_id b = aid \<and> act_status b = ''dispatched'' then f b else b) tbl
      = tbl" for f
    using no by (induction tbl) auto
  ultimately have 1: "mark_applied now aid tbl = (False, tbl)" "mark_failed now aid tbl = (False, tbl)"
    by (simp_all add: mark_applied_def mark_failed_def update_where_def)
  have id: "action_id a = aid" using row by (auto simp: get_action_def find_Some_iff)
  show ?thesis
    using 1 row id assms(3) by (simp add: mark_dispatched_def mark_applied_def get_action_update_where)
qed

theorem early_ack_is_lost_witness:
  "mark_applied 5 ''a1'' demo_actions = (False, demo_actions)"
proof -
  have "get_action ''a1'' demo_actions = Some (hd demo_actions)"
    and "act_status (hd demo_actions) = ''pending''" and "wf_actions demo_actions"
    by (simp_all add: demo_actions_def write_action_def get_action_def wf_actions_def wf_action_def)
  from early_ack_is_lost [OF this(3,1,2)] show ?thesis by blast
qed

end
