(* ===== verification/Command_Crypto.thy ===== *)
theory Command_Crypto
  imports Prelude
begin

section \<open>Signing of COMMAND frames\<close>

text \<open>
  \<open>crypto.py\<close>: the canonical form of a command, its signature and the check of a
  received signature.  The digest of \<open>hmac.new(secret, msg, sha256)\<close> is the parameter
  \<open>mac\<close>, any function from key and message to bytes; \<open>hexdigest\<close> is the
  prelude's.  \<open>hmac.compare_digest\<close> is equality.
\<close>

type_synonym mac_fun = "string \<Rightarrow> string \<Rightarrow> nat list"

record command =
  command_id :: string
  cmd_kind :: string
  cmd_target :: string
  cmd_ttl_sec :: int
  issued_at :: string

definition canonical_form :: "command \<Rightarrow> string" where
  "canonical_form c =
     command_id c @ ''|'' @ cmd_kind c @ ''|'' @ cmd_target c @ ''|'' @
     py_str_int (cmd_ttl_sec c) @ ''|'' @ issued_at c"

definition sign_command :: "mac_fun \<Rightarrow> string \<Rightarrow> command \<Rightarrow> string" where
  "sign_command mac secret c = hexdigest (mac secret (canonical_form c))"

definition verify_command :: "mac_fun \<Rightarrow> string \<Rightarrow> command \<Rightarrow> string \<Rightarrow> bool" where
  "verify_command mac secret c hmac_hex \<longleftrightarrow> sign_command mac secret c = py_lower hmac_hex"

subsection \<open>The interface of a signature scheme\<close>

text \<open>
  What the clients of a signing component rely on: a fresh signature verifies, and the
  message that is signed determines the object.
\<close>

locale signature_scheme =
  fixes sign :: "'k \<Rightarrow> 'm \<Rightarrow> 's" and verify :: "'k \<Rightarrow> 'm \<Rightarrow> 's \<Rightarrow> bool"
    and wf :: "'m \<Rightarrow> bool" and encode :: "'m \<Rightarrow> 'p" and tag :: "'k \<Rightarrow> 'p \<Rightarrow> 's"
  assumes sign_tag: "sign k m = tag k (encode m)"
    and verify_sign: "verify k m (sign k m)"
    and verify_only: "verify k m (sign k m') \<Longrightarrow> tag k (encode m) = tag k (encode m')"
    and encode_inj: "wf m \<Longrightarrow> wf m' \<Longrightarrow> encode m = encode m' \<Longrightarrow> m = m'"
begin

text \<open>
  A signature issued for one object is accepted for another only by a collision of the
  underlying tag on two different messages.
\<close>

lemma no_transfer:
  assumes "wf m" "wf m'" "m \<noteq> m'" "verify k m (sign k m')"
  shows "\<exists>p p'. p \<noteq> p' \<and> tag k p = tag k p'"
proof -
  have "encode m \<noteq> encode m'" using assms(1-3) encode_inj by blast
  then show ?thesis using verify_only [OF assms(4)] by blast
qed

lemma collision_free_verify:
  assumes "inj (tag k)" "wf m" "wf m'"
  shows "verify k m (sign k m') \<longleftrightarrow> m = m'"
  using no_transfer [of m m' k] verify_sign assms by (auto simp: inj_def)

end

subsection \<open>The canonical form determines the command\<close>

definition pipe_free :: "string \<Rightarrow> bool" where
  "pipe_free s \<longleftrightarrow> CHR ''|'' \<notin> set s"

definition wf_command :: "command \<Rightarrow> bool" where
  "wf_command c \<longleftrightarrow> pipe_free (command_id c) \<and> pipe_free (cmd_kind c) \<and> pipe_free (issued_at c)"

lemma pipe_free_number [simp]: "pipe_free (py_str_int i)"
  using show_nat_digits [of "CHR ''|''"]
  by (auto simp: pipe_free_def py_str_int_def py_isdigit_def ord_def)

lemma split_at_first:
  assumes eq: "a @ CHR ''|'' # b = a' @ CHR ''|'' # b'" and "pipe_free a" "pipe_free a'"
  shows "a = a' \<and> b = b'"
proof -
  have "py_partition CHR ''|'' (a @ CHR ''|'' # b) = (a, ''|'', b)"
    using assms(2) unfolding pipe_free_def by (rule py_partition_append)
  moreover have "py_partition CHR ''|'' (a' @ CHR ''|'' # b') = (a', ''|'', b')"
    using assms(3) unfolding pipe_free_def by (rule py_partition_append)
  ultimately have "(a, ''|'', b) = (a', ''|'', b')" unfolding eq by (rule trans [OF sym])
  then show ?thesis by simp
qed

lemma split_at_last:
  assumes "a @ CHR ''|'' # b = a' @ CHR ''|'' # b'" and "pipe_free b" "pipe_free b'"
  shows "a = a' \<and> b = b'"
proof -
  from assms(1) have "rev (a @ CHR ''|'' # b) = rev (a' @ CHR ''|'' # b')" by (rule arg_cong)
  then have "rev b @ CHR ''|'' # rev a = rev b' @ CHR ''|'' # rev a'" by simp
  moreover have "pipe_free (rev b)" "pipe_free (rev b')" using assms(2,3) by (simp_all add: pipe_free_def)
  ultimately have "rev b = rev b' \<and> rev a = rev a'" by (rule split_at_first)
  then show ?thesis by simp
qed

lemma py_str_int_inj: "py_str_int i = py_str_int j \<Longrightarrow> i = j"
  by (metis option.inject py_int_str_int)

lemma canonical_form_inj:
  assumes "wf_command c" "wf_command d" and eq: "canonical_form c = canonical_form d"
  shows "c = d"
proof -
  note wf = assms(1,2) [unfolded wf_command_def]
  from eq have 1: "command_id c = command_id d \<and>
      cmd_kind c @ CHR ''|'' # (cmd_target c @ CHR ''|'' # py_str_int (cmd_ttl_sec c) @ CHR ''|'' # issued_at c) =
      cmd_kind d @ CHR ''|'' # (cmd_target d @ CHR ''|'' # py_str_int (cmd_ttl_sec d) @ CHR ''|'' # issued_at d)"
    using wf by (intro split_at_first) (simp_all add: canonical_form_def)
  then have 2: "cmd_kind c = cmd_kind d \<and>
      (cmd_target c @ CHR ''|'' # py_str_int (cmd_ttl_sec c)) @ CHR ''|'' # issued_at c =
      (cmd_target d @ CHR ''|'' # py_str_int (cmd_ttl_sec d)) @ CHR ''|'' # issued_at d"
    using wf by (simp only: append_assoc append_Cons) (rule split_at_first, auto)
  then have 3: "cmd_target c @ CHR ''|'' # py_str_int (cmd_ttl_sec c) =
      cmd_target d @ CHR ''|'' # py_str_int (cmd_ttl_sec d) \<and> issued_at c = issued_at d"
    using wf by (intro split_at_last) simp_all
  then have "cmd_target c = cmd_target d \<and> py_str_int (cmd_ttl_sec c) = py_str_int (cmd_ttl_sec d)"
    by (intro split_at_last) simp_all
  with 1 2 3 show ?thesis using py_str_int_inj by (cases c, cases d) auto
qed

interpretation command_sig: signature_scheme
  "sign_command mac" "verify_command mac" wf_command canonical_form "\<lambda>k p. hexdigest (mac k p)"
  for mac
proof unfold_locales
  show "m = m'" if "wf_command m" "wf_command m'" "canonical_form m = canonical_form m'" for m m'
    using that by (rule canonical_form_inj)
qed (simp_all add: sign_command_def verify_command_def)

text \<open>
  C10: A signature the server issues verifies for its own command, and if the signature of
  one command \<open>d\<close> is accepted for a different command \<open>c\<close> then the MAC itself
  has a collision on two different byte strings: the pipe-separated canonical form adds no
  ambiguity as long as id, kind and time stamp contain no pipe (the target may).
\<close>

theorem command_signature_binding:
  "verify_command mac secret c (sign_command mac secret c) \<and>
   (wf_command c \<and> wf_command d \<and> c \<noteq> d \<and>
      verify_command mac secret c (sign_command mac secret d) \<longrightarrow>
    (\<exists>p p'. p \<noteq> p' \<and> hexdigest (mac secret p) = hexdigest (mac secret p')))"
  using command_sig.verify_sign command_sig.no_transfer by blast

theorem command_signature_binding_witness:
  "let c = \<lparr>command_id = ''a1'', cmd_kind = ''block_ip'', cmd_target = ''x|y'', cmd_ttl_sec = 60,
             issued_at = ''2026-09-06T00:00:00Z''\<rparr>;
       d = c\<lparr>cmd_target := ''z''\<rparr>; mac = (\<lambda>k m. [7, 255])
   in wf_command c \<and> wf_command d \<and> c \<noteq> d \<and>
      verify_command mac ''s'' c (sign_command mac ''s'' d) \<and>
      (\<exists>p p'. p \<noteq> p' \<and> hexdigest (mac ''s'' p) = hexdigest (mac ''s'' p'))"
proof -
  define c where "c = \<lparr>command_id = ''a1'', cmd_kind = ''block_ip'', cmd_target = ''x|y'',
    cmd_ttl_sec = 60, issued_at = ''2026-09-06T00:00:00Z''\<rparr>"
  define d where "d = c\<lparr>cmd_target := ''z''\<rparr>"
  define mac :: mac_fun where "mac = (\<lambda>k m. [7, 255])"
  have h: "wf_command c \<and> wf_command d \<and> c \<noteq> d \<and>
      verify_command mac ''s'' c (sign_command mac ''s'' d)"
    by (simp add: c_def d_def mac_def wf_command_def pipe_free_def verify_command_def
        sign_command_def)
  with command_signature_binding [of mac "''s''" c d] show ?thesis
    unfolding Let_def c_def [symmetric] d_def [symmetric] mac_def [symmetric] by blast
qed

end
