(* ===== verification/Config.thy ===== *)
theory Config
  imports Prelude
begin

section \<open>Server settings\<close>

text \<open>
  The settings of \<open>config.py\<close> the modelled components read, with their defaults and the
  bounds the \<open>Field(ge=..., le=...)\<close> declarations state (\<open>settings_ok\<close>).  Reading
  them from the environment is the settings library's work and is not modelled.
\<close>

record settings =
  stream_name :: string
  stream_maxlen :: int
  stream_group :: string
  detectors_enabled :: bool
  ssh_bruteforce_threshold :: int
  ssh_bruteforce_window_sec :: int
  ssh_bruteforce_cooldown_sec :: int
  max_frame_bytes :: int
  dispatcher_enabled :: bool
  dispatcher_poll_sec :: rat
  deployment_mode :: string
  rules_dir :: string
  api_key :: string
  api_key_read :: string
  api_key_write :: string
  api_key_ingest :: string
  allow_unauthenticated :: bool
  rate_limit_enabled :: bool
  rate_limit_per_min :: int
  cors_origins :: string
  ws_max_msg_bytes :: int
  ws_max_msg_per_min :: int

definition default_settings :: settings where
  "default_settings =
     \<lparr>stream_name = ''zaqorin:events'', stream_maxlen = 10000,
      stream_group = ''zaqorin-detectors'', detectors_enabled = True,
      ssh_bruteforce_threshold = 5, ssh_bruteforce_window_sec = 60,
      ssh_bruteforce_cooldown_sec = 300, max_frame_bytes = 64 * 1024,
      dispatcher_enabled = True, dispatcher_poll_sec = 5, deployment_mode = ''startup'',
      rules_dir = ''rules/builtin'', api_key = '''', api_key_read = '''', api_key_write = '''',
      api_key_ingest = '''', allow_unauthenticated = False, rate_limit_enabled = True,
      rate_limit_per_min = 120, cors_origins = '''', ws_max_msg_bytes = 1024 * 1024,
      ws_max_msg_per_min = 100\<rparr>"

definition settings_ok :: "settings \<Rightarrow> bool" where
  "settings_ok s \<longleftrightarrow>
     1 \<le> ssh_bruteforce_threshold s \<and> ssh_bruteforce_threshold s \<le> 10000 \<and>
     1 \<le> ssh_bruteforce_window_sec s \<and> ssh_bruteforce_window_sec s \<le> 86400 \<and>
     1 \<le> ssh_bruteforce_cooldown_sec s \<and> ssh_bruteforce_cooldown_sec s \<le> 86400 \<and>
     1024 \<le> max_frame_bytes s \<and> max_frame_bytes s \<le> 1024 * 1024 \<and>
     1/10 \<le> dispatcher_poll_sec s \<and> dispatcher_poll_sec s \<le> 60 \<and>
     1 \<le> rate_limit_per_min s \<and> rate_limit_per_min s \<le> 1000000 \<and>
     1024 \<le> ws_max_msg_bytes s \<and> ws_max_msg_bytes s \<le> 16 * 1024 * 1024 \<and>
     1 \<le> ws_max_msg_per_min s \<and> ws_max_msg_per_min s \<le> 10000"

lemma default_settings_ok: "settings_ok default_settings"
  by (simp add: settings_ok_def default_settings_def)

end
