(* ===== verification/Dispatch.thy ===== *)
theory Dispatch
  imports Action_Kinds Action_Service Command_Crypto Config
begin

section \<open>The command dispatcher\<close>

text \<open>
  \<open>dispatcher.py\<close>: the registry of open agent connections, the construction of a
  signed COMMAND frame, and one tick of the background task.  A connection is a value of
  the type \<open>'w\<close>; whether \<open>send_text\<close> succeeds on it is the parameter
  \<open>send_ok\<close>.  The clock is a parameter per action (\<open>issued\<close>: the \<open>issued_at\<close>
  text, \<open>sent_time\<close>: the time of \<open>mark_dispatched\<close>).  Rows with equal
  \<open>created_at\<close> are taken in table order.
\<close>

subsection \<open>Registries of named entries\<close>

text \<open>
  The contract of an in-memory registry: putting an entry replaces the one with the same
  name, removing it leaves no entry of that name, and the listed names are exactly those
  that can be looked up, without repetition.
\<close>

locale named_registry =
  fixes put :: "'k \<Rightarrow> 'v \<Rightarrow> 'r \<Rightarrow> 'r" and lookup :: "'r \<Rightarrow> 'k \<Rightarrow> 'v option"
    and names :: "'r \<Rightarrow> 'k list" and invar :: "'r \<Rightarrow> bool" and empty :: 'r
  assumes lookup_put: "invar r \<Longrightarrow> lookup (put k v r) k' = (if k' = k then Some v else lookup r k')"
    and names_lookup: "invar r \<Longrightarrow> set (names r) = {k. lookup r k \<noteq> None}"
    and distinct_names: "invar r \<Longrightarrow> distinct (names r)"
    and invar_put: "invar r \<Longrightarrow> invar (put k v r)"
    and invar_empty: "invar empty"
    and names_empty: "names empty = []"
begin

lemma put_names: "invar r \<Longrightarrow> set (names (put k v r)) = insert k (set (names r))"
  using names_lookup [OF invar_put, of r k v] names_lookup [of r] by (auto simp: lookup_put)

lemma put_length:
  assumes "invar r"
  shows "length (names (put k v r)) = (if lookup r k = None then Suc (length (names r)) else length (names r))"
proof -
  have "length (names (put k v r)) = card (insert k (set (names r)))"
    using distinct_card [OF distinct_names [OF invar_put [OF assms]], of k v] put_names [OF assms]
    by simp
  moreover have "card (set (names r)) = length (names r)"
    using distinct_card [OF distinct_names [OF assms]] .
  moreover have "k \<in> set (names r) \<longleftrightarrow> lookup r k \<noteq> None"
    using names_lookup [OF assms] by auto
  ultimately show ?thesis by (simp add: card_insert_if)
qed

end

locale named_registry_remove = named_registry +
  fixes remove :: "'a \<Rightarrow> 'c \<Rightarrow> 'c"
  assumes lookup_remove: "invar r \<Longrightarrow> lookup (remove k r) k' = (if k' = k then None else lookup r k')"
    and invar_remove: "invar r \<Longrightarrow> invar (remove k r)"
begin

lemma remove_put: "invar r \<Longrightarrow> lookup (remove k (put k v r)) k' = (if k' = k then None else lookup r k')"
  by (simp add: lookup_remove invar_put lookup_put)

lemma remove_names: "invar r \<Longrightarrow> set (names (remove k r)) = set (names r) - {k}"
  using names_lookup [OF invar_remove, of r k] names_lookup [of r] by (auto simp: lookup_remove)

end

type_synonym 'w conns = "(uuid \<times> 'w) list"

definition register_conn :: "uuid \<Rightarrow> 'w \<Rightarrow> 'w conns \<Rightarrow> 'w conns" where
  "register_conn h ws conns = dict_set h ws conns"

definition unregister_conn :: "uuid \<Rightarrow> 'w conns \<Rightarrow> 'w conns" where
  "unregister_conn h conns = dict_pop h conns"

definition get_conn :: "'w conns \<Rightarrow> uuid \<Rightarrow> 'w option" where
  "get_conn conns h = map_of conns h"

definition conn_count :: "'w conns \<Rightarrow> nat" where
  "conn_count conns = length conns"

definition conn_host_ids :: "'w conns \<Rightarrow> uuid list" where
  "conn_host_ids conns = map fst conns"

interpretation conns: named_registry_remove
  register_conn get_conn conn_host_ids "\<lambda>c. distinct (map fst c)" "[]" unregister_conn
proof unfold_locales
  fix r :: "'a conns"
  show "set (conn_host_ids r) = {k. get_conn r k \<noteq> None}"
    by (auto simp: conn_host_ids_def get_conn_def map_of_eq_None_iff)
qed (auto simp: register_conn_def get_conn_def conn_host_ids_def unregister_conn_def
       intro: distinct_dict_set distinct_dict_pop)

subsection \<open>COMMAND frames\<close>

record command_frame =
  frame_id :: uuid
  frame_kind :: string
  frame_target :: string
  frame_ttl_sec :: "int option"
  frame_issued_at :: string
  frame_hmac :: string

definition truthy :: "string option \<Rightarrow> bool" where
  "truthy s \<longleftrightarrow> s \<noteq> None \<and> s \<noteq> Some []"

definition ttl_or_0 :: "int option \<Rightarrow> int" where
  "ttl_or_0 t = (case t of None \<Rightarrow> 0 | Some n \<Rightarrow> n)"

definition command_of :: "action_row \<Rightarrow> string \<Rightarrow> command" where
  "command_of a issued =
     \<lparr>command_id = action_id a, cmd_kind = act_kind a, cmd_target = act_target a,
      cmd_ttl_sec = ttl_or_0 (act_ttl_sec a), issued_at = issued\<rparr>"

definition build_command_frame ::
  "mac_fun \<Rightarrow> (string \<rightharpoonup> string) \<Rightarrow> settings \<Rightarrow> string \<Rightarrow> action_row \<Rightarrow> host_row \<Rightarrow>
   command_frame option" where
  "build_command_frame mac env st issued a h =
     (if \<not> truthy (host_secret h) then None
      else if \<not> is_valid_kind (act_kind a) then None
      else if \<not> is_ok (validate_target env (act_kind a) (act_target a)) then None
      else if \<not> is_ok (validate_mode_action (deployment_mode st) (act_kind a)) then None
      else case get_kind (act_kind a) of
        Inl _ \<Rightarrow> None
      | Inr k \<Rightarrow>
          if requires_host_opt_in k \<and> \<not> auto_block h then None
          else Some
            \<lparr>frame_id = action_id a, frame_kind = act_kind a, frame_target = act_target a,
             frame_ttl_sec = act_ttl_sec a, frame_issued_at = issued,
             frame_hmac = sign_command mac (the (host_secret h)) (command_of a issued)\<rparr>)"

subsection \<open>One tick\<close>

record 'w world =
  w_hosts :: "host_row list"
  w_actions :: "action_row list"
  w_conns :: "'w conns"
  w_sent :: "('w \<times> command_frame) list"

definition find_host :: "host_row list \<Rightarrow> uuid option \<Rightarrow> host_row option" where
  "find_host hosts hid = find (\<lambda>h. Some (host_id h) = hid) hosts"

definition select_pending :: "'w world \<Rightarrow> (action_row \<times> host_row option) list" where
  "select_pending w =
     map (\<lambda>a. (a, find_host (w_hosts w) (act_host_id a)))
       (take 16 (sort_key act_created_at
          (filter (\<lambda>a. act_status a = ''pending'') (w_actions w))))"

record 'w disp_env =
  d_mac :: mac_fun
  d_env :: "string \<rightharpoonup> string"
  d_settings :: settings
  d_issued :: "uuid \<Rightarrow> string"
  d_sent_time :: "uuid \<Rightarrow> rat"
  d_send_ok :: "'w \<Rightarrow> command_frame \<Rightarrow> bool"

definition dispatch_row ::
  "'w disp_env \<Rightarrow> action_row \<times> host_row option \<Rightarrow> 'w world \<Rightarrow> 'w world" where
  "dispatch_row d row w =
     (case row of
        (a, None) \<Rightarrow> w
      | (a, Some h) \<Rightarrow>
          if \<not> auto_block h then w
          else case get_conn (w_conns w) (host_id h) of
            None \<Rightarrow> w
          | Some ws \<Rightarrow>
              (case build_command_frame (d_mac d) (d_env d) (d_settings d)
                      (d_issued d (action_id a)) a h of
                 None \<Rightarrow> w
               | Some f \<Rightarrow>
                   if d_send_ok d ws f
                   then w\<lparr>w_sent := w_sent w @ [(ws, f)],
                          w_actions := snd (mark_dispatched (d_sent_time d (action_id a))
                                              (action_id a) (w_actions w))\<rparr>
                   else w\<lparr>w_conns := unregister_conn (host_id h) (w_conns w)\<rparr>))"

definition dispatcher_tick :: "'w disp_env \<Rightarrow> 'w world \<Rightarrow> 'w world" where
  "dispatcher_tick d w = fold (dispatch_row d) (select_pending w) w"

subsection \<open>What a row can do\<close>

definition authorised ::
  "'w disp_env \<Rightarrow> host_row list \<Rightarrow> 'w conns \<Rightarrow> action_row \<Rightarrow> 'w \<Rightarrow> command_frame \<Rightarrow> bool" where
  \<comment> \<open>everything the dispatcher promises of a frame it writes to a connection\<close>
  "authorised d hosts conns a ws f \<longleftrightarrow>
     (\<exists>h sec. find_host hosts (act_host_id a) = Some h \<and> auto_block h \<and>
        get_conn conns (host_id h) = Some ws \<and>
        host_secret h = Some sec \<and> sec \<noteq> [] \<and>
        is_valid_kind (act_kind a) \<and>
        validate_target (d_env d) (act_kind a) (act_target a) = Inr () \<and>
        validate_mode_action (deployment_mode (d_settings d)) (act_kind a) = Inr () \<and>
        frame_id f = action_id a \<and> frame_kind f = act_kind a \<and> frame_target f = act_target a \<and>
        frame_ttl_sec f = act_ttl_sec a \<and>
        verify_command (d_mac d) sec (command_of a (frame_issued_at f)) (frame_hmac f))"

lemma build_command_frame_Some:
  assumes "build_command_frame mac env st issued a h = Some f"
  shows "\<exists>sec. host_secret h = Some sec \<and> sec \<noteq> [] \<and> is_valid_kind (act_kind a) \<and>
    validate_target env (act_kind a) (act_target a) = Inr () \<and>
    validate_mode_action (deployment_mode st) (act_kind a) = Inr () \<and>
    f = \<lparr>frame_id = action_id a, frame_kind = act_kind a, frame_target = act_target a,
         frame_ttl_sec = act_ttl_sec a, frame_issued_at = issued,
         frame_hmac = sign_command mac sec (command_of a issued)\<rparr>"
  using assms
  by (auto simp: build_command_frame_def truthy_def split: if_splits sum.splits)

lemma dispatch_row_cases:
  obtains (same) "dispatch_row d (a, ho) w = w"
  | (dropped) h where "ho = Some h"
      "dispatch_row d (a, ho) w = w\<lparr>w_conns := unregister_conn (host_id h) (w_conns w)\<rparr>"
  | (shipped) h ws f where "ho = Some h" "auto_block h" "get_conn (w_conns w) (host_id h) = Some ws"
      "build_command_frame (d_mac d) (d_env d) (d_settings d) (d_issued d (action_id a)) a h = Some f"
      "d_send_ok d ws f"
      "dispatch_row d (a, ho) w = w\<lparr>w_sent := w_sent w @ [(ws, f)],
         w_actions := snd (mark_dispatched (d_sent_time d (action_id a)) (action_id a) (w_actions w))\<rparr>"
proof (cases ho)
  case None
  then show ?thesis using same by (simp add: dispatch_row_def)
next
  case (Some h)
  show ?thesis
  proof (cases "auto_block h")
    case False
    then show ?thesis using same Some by (simp add: dispatch_row_def)
  next
    case ab: True
    let ?f = "build_command_frame (d_mac d) (d_env d) (d_settings d) (d_issued d (action_id a)) a h"
    show ?thesis
    proof (cases "get_conn (w_conns w) (host_id h) = None \<or> ?f = None")
      case True
      then show ?thesis
        using same Some ab by (auto simp: dispatch_row_def split: option.split)
    next
      case False
      then obtain ws f where wf: "get_conn (w_conns w) (host_id h) = Some ws" "?f = Some f" by auto
      show ?thesis
        using dropped [OF Some] shipped [OF Some ab wf] Some ab wf
        by (cases "d_send_ok d ws f") (simp_all add: dispatch_row_def)
    qed
  qed
qed

lemma dispatch_row_hosts [simp]: "w_hosts (dispatch_row d row w) = w_hosts w"
  by (cases row, rule dispatch_row_cases [of d "fst row" "snd row" w]) simp_all

lemma dispatch_row_conns:
  "get_conn (w_conns (dispatch_row d (a, ho) w)) h = Some ws \<Longrightarrow> get_conn (w_conns w) h = Some ws"
  by (rule dispatch_row_cases [of d a ho w])
     (auto simp: unregister_conn_def get_conn_def split: if_split_asm)

lemma dispatch_row_sent:
  assumes "(ws, f) \<in> set (w_sent (dispatch_row d (a, find_host hosts (act_host_id a)) w))"
  shows "(ws, f) \<in> set (w_sent w) \<or> authorised d hosts (w_conns w) a ws f"
proof (rule dispatch_row_cases [of d a "find_host hosts (act_host_id a)" w])
  fix h ws' f'
  assume h: "find_host hosts (act_host_id a) = Some h" "auto_block h"
      "get_conn (w_conns w) (host_id h) = Some ws'"
    and b: "build_command_frame (d_mac d) (d_env d) (d_settings d) (d_issued d (action_id a)) a h
      = Some f'"
    and eq: "dispatch_row d (a, find_host hosts (act_host_id a)) w = w\<lparr>w_sent := w_sent w @ [(ws', f')],
      w_actions := snd (mark_dispatched (d_sent_time d (action_id a)) (action_id a) (w_actions w))\<rparr>"
  from build_command_frame_Some [OF b] h have "authorised d hosts (w_conns w) a ws' f'"
    by (auto simp: authorised_def verify_command_def sign_command_def)
  with assms show ?thesis by (auto simp: eq)
qed (use assms in auto)

lemma authorised_mono:
  "authorised d hosts conns a ws f \<Longrightarrow>
   (\<And>h. get_conn conns h = Some ws \<Longrightarrow> get_conn conns' h = Some ws) \<Longrightarrow>
   authorised d hosts conns' a ws f"
  unfolding authorised_def by blast

lemma fold_dispatch_sent:
  assumes "(ws, f) \<in> set (w_sent (fold (dispatch_row d) (map (\<lambda>a. (a, find_host hosts (act_host_id a))) as) w))"
  shows "(ws, f) \<in> set (w_sent w) \<or> (\<exists>a \<in> set as. authorised d hosts (w_conns w) a ws f)"
  using assms
proof (induction as arbitrary: w)
  case (Cons a as)
  let ?w = "dispatch_row d (a, find_host hosts (act_host_id a)) w"
  from Cons.prems have "(ws, f) \<in> set (w_sent ?w) \<or> (\<exists>a \<in> set as. authorised d hosts (w_conns ?w) a ws f)"
    by (intro Cons.IH) simp
  then show ?case
    using dispatch_row_sent [of ws f d a hosts w] authorised_mono [of d hosts "w_conns ?w" _ ws f "w_conns w"]
      dispatch_row_conns [of d a _ w _ ws] by auto
qed simp

lemma select_pending_set:
  "a \<in> set (take 16 (sort_key act_created_at (filter (\<lambda>a. act_status a = ''pending'') as))) \<Longrightarrow>
   a \<in> set as \<and> act_status a = ''pending''"
  by (drule in_set_takeD) simp

subsection \<open>A command is sent at most once\<close>

definition disp_inv :: "'w world \<Rightarrow> bool" where
  "disp_inv w \<longleftrightarrow> wf_actions (w_actions w) \<and> distinct (map (frame_id \<circ> snd) (w_sent w)) \<and>
     (\<forall>p \<in> set (w_sent w). 2 \<le> action_rank (frame_id (snd p)) (w_actions w))"

definition row_pending :: "action_row list \<Rightarrow> uuid \<Rightarrow> bool" where
  "row_pending tbl aid \<longleftrightarrow> action_rank aid tbl = 1"

lemma mark_dispatched_rank:
  "action_rank i (snd (mark_dispatched now aid tbl)) =
     (if i = aid \<and> action_rank i tbl = 1 then 2 else action_rank i tbl)"
proof (cases "get_action i tbl")
  case (Some a)
  then have "action_id a = i" by (auto simp: get_action_def find_Some_iff)
  with Some show ?thesis
    by (simp add: action_rank_def mark_dispatched_def get_action_update_where status_rank_def)
qed (simp add: action_rank_def mark_dispatched_def get_action_update_where)

lemma dispatch_row_rank_other:
  "i \<noteq> action_id a \<Longrightarrow>
   action_rank i (w_actions (dispatch_row d (a, ho) w)) = action_rank i (w_actions w)"
  by (rule dispatch_row_cases [of d a ho w]) (simp_all add: mark_dispatched_rank)

lemma dispatch_row_inv:
  assumes "disp_inv w" and "row_pending (w_actions w) (action_id a)"
  shows "disp_inv (dispatch_row d (a, ho) w)"
proof (rule dispatch_row_cases [of d a ho w])
  fix h ws f
  assume b: "build_command_frame (d_mac d) (d_env d) (d_settings d) (d_issued d (action_id a)) a h = Some f"
    and eq: "dispatch_row d (a, ho) w = w\<lparr>w_sent := w_sent w @ [(ws, f)],
      w_actions := snd (mark_dispatched (d_sent_time d (action_id a)) (action_id a) (w_actions w))\<rparr>"
  have id: "frame_id f = action_id a" using build_command_frame_Some [OF b] by auto
  have "action_step (w_actions w)
      (snd (mark_dispatched (d_sent_time d (action_id a)) (action_id a) (w_actions w)))"
    by (rule action_step.intros)
  then show ?thesis
    using assms id wf_actions_step
    by (force simp: eq disp_inv_def row_pending_def mark_dispatched_rank)
qed (use assms in \<open>auto simp: disp_inv_def\<close>)

lemma fold_dispatch_inv:
  assumes "disp_inv w" and "distinct (map (action_id \<circ> fst) rows)"
    and "\<forall>r \<in> set rows. row_pending (w_actions w) (action_id (fst r))"
  shows "disp_inv (fold (dispatch_row d) rows w)"
  using assms
proof (induction rows arbitrary: w)
  case (Cons r rows)
  obtain a ho where r: "r = (a, ho)" by (cases r)
  have "disp_inv (dispatch_row d r w)"
    unfolding r using Cons.prems by (intro dispatch_row_inv) (simp_all add: r)
  moreover have "\<forall>q \<in> set rows. row_pending (w_actions (dispatch_row d r w)) (action_id (fst q))"
  proof
    fix q assume q: "q \<in> set rows"
    with Cons.prems(2) have "action_id (fst q) \<noteq> action_id a" by (auto simp: r image_iff)
    then show "row_pending (w_actions (dispatch_row d r w)) (action_id (fst q))"
      using Cons.prems(3) q by (simp add: r row_pending_def dispatch_row_rank_other)
  qed
  ultimately show ?case using Cons.IH Cons.prems(2) by simp
qed simp

lemma wf_pending_rank:
  assumes "wf_actions tbl" "a \<in> set tbl" "act_status a = ''pending''"
  shows "row_pending tbl (action_id a)"
proof -
  have "get_action (action_id a) tbl = Some a"
    using assms(1,2) by (intro get_action_unique) (simp_all add: wf_actions_def)
  then show ?thesis using assms(3) by (simp add: row_pending_def action_rank_def status_rank_def)
qed

lemma distinct_select_pending:
  assumes "distinct (map action_id (w_actions w))"
  shows "distinct (map (action_id \<circ> fst) (select_pending w))"
proof -
  have eq: "map (action_id \<circ> fst) (select_pending w) = take 16 (map action_id
      (sort_key act_created_at (filter (\<lambda>a. act_status a = ''pending'') (w_actions w))))"
    by (simp add: select_pending_def take_map)
  have "distinct (map action_id (filter (\<lambda>a. act_status a = ''pending'') (w_actions w)))"
    using assms by (simp add: distinct_map_filter)
  then have "distinct (map action_id
      (sort_key act_created_at (filter (\<lambda>a. act_status a = ''pending'') (w_actions w))))"
    by (simp add: distinct_map)
  then show ?thesis unfolding eq by (rule distinct_take)
qed

lemma tick_inv: "disp_inv w \<Longrightarrow> disp_inv (dispatcher_tick d w)"
  unfolding dispatcher_tick_def
proof (rule fold_dispatch_inv)
  assume i: "disp_inv w"
  then show "distinct (map (action_id \<circ> fst) (select_pending w))"
    by (intro distinct_select_pending) (simp add: disp_inv_def wf_actions_def)
  show "\<forall>r \<in> set (select_pending w). row_pending (w_actions w) (action_id (fst r))"
  proof
    fix r assume "r \<in> set (select_pending w)"
    then have "fst r \<in> set (w_actions w) \<and> act_status (fst r) = ''pending''"
      using select_pending_set [of "fst r" "w_actions w"] by (auto simp: select_pending_def)
    with i show "row_pending (w_actions w) (action_id (fst r))"
      by (intro wf_pending_rank) (auto simp: disp_inv_def)
  qed
qed

text \<open>
  The world the dispatcher lives in: its own ticks interleaved with the detectors' inserts
  and the agents' acknowledgements (steps of the actions table), with connections that come
  and go, and with changes of the hosts table.
\<close>

inductive world_step :: "'w world \<Rightarrow> 'w world \<Rightarrow> bool" where
  ws_tick: "world_step w (dispatcher_tick d w)"
| ws_table: "action_step (w_actions w) tbl \<Longrightarrow> world_step w (w\<lparr>w_actions := tbl\<rparr>)"
| ws_register: "world_step w (w\<lparr>w_conns := register_conn h ws (w_conns w)\<rparr>)"
| ws_unregister: "world_step w (w\<lparr>w_conns := unregister_conn h (w_conns w)\<rparr>)"
| ws_hosts: "world_step w (w\<lparr>w_hosts := hs\<rparr>)"

lemma world_step_inv: "world_step w w' \<Longrightarrow> disp_inv w \<Longrightarrow> disp_inv w'"
proof (induction rule: world_step.induct)
  case (ws_table w tbl)
  then show ?case
    using wf_actions_step action_rank_step order_trans by (fastforce simp: disp_inv_def)
next
  case (ws_tick w d)
  then show ?case by (rule tick_inv)
qed (auto simp: disp_inv_def)

interpretation dispatcher: inv_system world_step disp_inv
  by unfold_locales (rule world_step_inv)

definition blocked_row :: "'w world \<Rightarrow> action_row \<times> host_row option \<Rightarrow> bool" where
  "blocked_row w row = (case snd row of
     None \<Rightarrow> True | Some h \<Rightarrow> \<not> auto_block h \<or> get_conn (w_conns w) (host_id h) = None)"

lemma dispatch_row_blocked: "blocked_row w row \<Longrightarrow> dispatch_row d row w = w"
  by (cases row) (auto simp: blocked_row_def dispatch_row_def split: option.splits)

lemma fold_blocked: "\<forall>r \<in> set rows. blocked_row w r \<Longrightarrow> fold (dispatch_row d) rows w = w"
  by (induction rows) (simp_all add: dispatch_row_blocked)

subsection \<open>Properties\<close>

text \<open>
  C4: Every frame a dispatcher tick writes is authorised: it belongs to a pending action
  whose host exists, has opted in and has this very connection registered; the kind is
  registered and enabled in the deployment mode, the target passes validation, and the
  signature verifies under the host's own secret.
\<close>

theorem dispatcher_sends_only_authorised:
  assumes "(ws, f) \<in> set (w_sent (dispatcher_tick d w))" and "(ws, f) \<notin> set (w_sent w)"
  shows "\<exists>a \<in> set (w_actions w). act_status a = ''pending'' \<and>
    authorised d (w_hosts w) (w_conns w) a ws f"
  using fold_dispatch_sent [of ws f d "w_hosts w"] assms select_pending_set
  unfolding dispatcher_tick_def select_pending_def by blast

definition demo_host :: "string \<Rightarrow> bool \<Rightarrow> host_row" where
  "demo_host h ab = \<lparr>host_id = h, last_seen_at = 0, last_version = None,
     host_secret = Some ''s3cr3t'', auto_block = ab\<rparr>"

definition demo_action :: "string \<Rightarrow> string \<Rightarrow> rat \<Rightarrow> action_row" where
  "demo_action i h t = \<lparr>action_id = i, act_host_id = Some h, act_alert_id = None,
     act_kind = ''block_ip'', act_target = ''203.0.113.9'', act_ttl_sec = Some 3600,
     act_status = ''pending'', sent_at = None, acked_at = None, act_created_at = t\<rparr>"

definition demo_env :: "nat disp_env" where
  "demo_env = \<lparr>d_mac = (\<lambda>k m. [1, 2]), d_env = Map.empty, d_settings = default_settings,
     d_issued = (\<lambda>_. ''2026-09-06T00:00:00Z''), d_sent_time = (\<lambda>_. 9), d_send_ok = (\<lambda>_ _. True)\<rparr>"

definition demo_world :: "nat world" where
  "demo_world = \<lparr>w_hosts = [demo_host ''h2'' True], w_actions = [demo_action ''a1'' ''h2'' 1],
     w_conns = [(''h2'', 7)], w_sent = []\<rparr>"

lemma demo_sent: "map (\<lambda>p. (fst p, frame_id (snd p))) (w_sent (dispatcher_tick demo_env demo_world)) = [(7, ''a1'')]"
  by code_simp

theorem dispatcher_sends_only_authorised_witness:
  "\<exists>f. (7, f) \<in> set (w_sent (dispatcher_tick demo_env demo_world)) \<and>
     (\<exists>a \<in> set (w_actions demo_world). act_status a = ''pending'' \<and>
        authorised demo_env (w_hosts demo_world) (w_conns demo_world) a 7 f)"
proof -
  from demo_sent obtain f where f: "(7, f) \<in> set (w_sent (dispatcher_tick demo_env demo_world))"
    by (cases "w_sent (dispatcher_tick demo_env demo_world)") auto
  have "(7, f) \<notin> set (w_sent demo_world)" by (simp add: demo_world_def)
  from dispatcher_sends_only_authorised [OF f this] f show ?thesis by blast
qed


definition empty_world :: "nat world" where
  "empty_world = demo_world\<lparr>w_actions := []\<rparr>"


text \<open>
  Head-of-line blocking: when the sixteen oldest pending actions belong to hosts that are
  gone, offline or not opted in, no tick, however often repeated, changes anything: younger
  actions of connected, opted-in hosts are never dispatched.
\<close>

theorem dispatcher_head_of_line_blocking:
  assumes "\<forall>row \<in> set (select_pending w). blocked_row w row"
  shows "(dispatcher_tick d ^^ n) w = w"
proof (induction n)
  case (Suc n)
  then show ?case using fold_blocked [OF assms] by (simp add: dispatcher_tick_def)
qed simp

definition starved_world :: "nat world" where
  "starved_world = demo_world\<lparr>w_hosts := [demo_host ''h1'' False, demo_host ''h2'' True],
     w_actions := map (\<lambda>i. demo_action (''b'' @ py_str_int i) ''h1'' 0) [1..16] @
       [demo_action ''a1'' ''h2'' 1]\<rparr>"

theorem dispatcher_head_of_line_blocking_witness:
  "(dispatcher_tick demo_env ^^ 1000) starved_world = starved_world \<and>
   w_actions starved_world ! 16 = w_actions demo_world ! 0 \<and>
   w_sent (dispatcher_tick demo_env demo_world) \<noteq> []"
proof -
  have "list_all (blocked_row starved_world) (select_pending starved_world)" by code_simp
  then have b: "\<forall>row \<in> set (select_pending starved_world). blocked_row starved_world row"
    by (simp add: list_all_iff)
  have "w_sent (dispatcher_tick demo_env demo_world) \<noteq> []"
    using demo_sent by auto
  moreover have "w_actions starved_world ! 16 = w_actions demo_world ! 0"
    by code_simp
  ultimately show ?thesis using dispatcher_head_of_line_blocking [OF b] by blast
qed

text \<open>
  A host without \<open>auto_block\<close> receives no command at all, not even one of the kinds
  declared not to require the host's opt-in (canary alerts, SOAR webhooks, evidence
  capture): the row is skipped before the per-kind flag is looked at, so that flag never
  decides.
\<close>

theorem opt_in_flag_is_dead:
  "(\<not> auto_block h \<longrightarrow> dispatch_row d (a, Some h) w = w) \<and>
   (auto_block h \<longrightarrow> build_command_frame mac env st i a h =
      (if truthy (host_secret h) \<and> is_valid_kind (act_kind a) \<and>
          validate_target env (act_kind a) (act_target a) = Inr () \<and>
          validate_mode_action (deployment_mode st) (act_kind a) = Inr ()
       then Some \<lparr>frame_id = action_id a, frame_kind = act_kind a, frame_target = act_target a,
             frame_ttl_sec = act_ttl_sec a, frame_issued_at = i,
             frame_hmac = sign_command mac (the (host_secret h)) (command_of a i)\<rparr>
       else None)) \<and>
   map fst (filter (\<lambda>k. \<not> requires_host_opt_in (snd k)) KINDS) =
     [''canary_alert'', ''webhook_soar'', ''evidence_capture'']"
proof -
  have "\<exists>k. get_kind (act_kind a) = Inr k" if "is_valid_kind (act_kind a)"
    using that by (simp add: is_valid_kind_iff)
  then show ?thesis
    by (auto simp: dispatch_row_def build_command_frame_def KINDS_def mk_kind_def)
qed

theorem opt_in_flag_is_dead_witness:
  "auto_block (demo_host ''h2'' True) \<and>
   build_command_frame (d_mac demo_env) Map.empty default_settings ''t'' (demo_action ''a1'' ''h2'' 1)
     (demo_host ''h2'' True) \<noteq> None \<and>
   dispatch_row demo_env (demo_action ''a1'' ''h1'' 1, Some (demo_host ''h1'' False)) demo_world = demo_world"
proof -
  have t: "truthy (host_secret (demo_host ''h2'' True)) \<and> is_valid_kind ''block_ip'' \<and>
      validate_target Map.empty ''block_ip'' ''203.0.113.9'' = Inr () \<and>
      validate_mode_action (deployment_mode default_settings) ''block_ip'' = Inr ()"
    by code_simp
  show ?thesis
    using t opt_in_flag_is_dead [where d = demo_env and a = "demo_action ''a1'' ''h1'' 1"
        and h = "demo_host ''h1'' False" and w = demo_world]
      opt_in_flag_is_dead [where a = "demo_action ''a1'' ''h2'' 1" and h = "demo_host ''h2'' True"
        and mac = "d_mac demo_env" and env = Map.empty and st = default_settings and i = "''t''"]
    by (simp add: demo_host_def demo_action_def)
qed

end
