(* ===== verification/Json.thy ===== *)
theory Json
  imports Prelude
begin

section \<open>JSON values and the depth-limited decoder\<close>

text \<open>
  JSON values as Python's \<open>json\<close> module represents them, their compact text
  (\<open>json.dumps\<close> with its default separators), and \<open>utils/depth_json.py\<close>: the scan
  that bounds the nesting depth of a text before it is decoded.  The decoder itself
  (\<open>json.loads\<close>) is the parameter \<open>loads\<close>; \<open>None\<close> is its
  \<open>JSONDecodeError\<close>.  A float carries the text Python prints for it.
\<close>

datatype json =
  JNull | JBool bool | JInt int | JFloat string | JStr string | JArr "json list"
| JObj "(string \<times> json) list"

subsection \<open>Text of a value\<close>

definition json_escape_char :: "char \<Rightarrow> string" where
  "json_escape_char c =
     (if c = CHR 0x22 then [CHR 0x5C, CHR 0x22]
      else if c = CHR 0x5C then [CHR 0x5C, CHR 0x5C]
      else if c = CHR 0x0A then [CHR 0x5C, CHR ''n'']
      else if c = CHR 0x0D then [CHR 0x5C, CHR ''r'']
      else if c = CHR 0x09 then [CHR 0x5C, CHR ''t'']
      else if c = CHR 0x08 then [CHR 0x5C, CHR ''b'']
      else if c = CHR 0x0C then [CHR 0x5C, CHR ''f'']
      else if ord c < 32 \<or> 126 < ord c
      then [CHR 0x5C, CHR ''u'', CHR ''0'', CHR ''0'', hex_char (ord c div 16), hex_char (ord c mod 16)]
      else [c])"

definition json_str :: "string \<Rightarrow> string" where
  "json_str s = CHR 0x22 # concat (map json_escape_char s) @ [CHR 0x22]"

fun dumps :: "json \<Rightarrow> string" where
  "dumps JNull = ''null''"
| "dumps (JBool b) = (if b then ''true'' else ''false'')"
| "dumps (JInt i) = py_str_int i"
| "dumps (JFloat t) = t"
| "dumps (JStr s) = json_str s"
| "dumps (JArr vs) = ''['' @ py_join '', '' (map dumps vs) @ '']''"
| "dumps (JObj kvs) = ''{'' @ py_join '', '' (map (\<lambda>(k, v). json_str k @ '': '' @ dumps v) kvs) @ ''}''"

fun dumps_compact :: "json \<Rightarrow> string" where
  \<comment> \<open>\<open>json.dumps(v, separators=(",", ":"))\<close>\<close>
  "dumps_compact (JArr vs) = ''['' @ py_join '','' (map dumps_compact vs) @ '']''"
| "dumps_compact (JObj kvs) = ''{'' @ py_join '','' (map (\<lambda>(k, v). json_str k @ '':'' @ dumps_compact v) kvs) @ ''}''"
| "dumps_compact v = dumps v"

fun json_depth :: "json \<Rightarrow> nat" where
  "json_depth (JArr vs) = Suc (fold max (map json_depth vs) 0)"
| "json_depth (JObj kvs) = Suc (fold max (map (\<lambda>(k, v). json_depth v) kvs) 0)"
| "json_depth _ = 0"

subsection \<open>Conversions\<close>

text \<open>
  Truth value, \<open>str(x)\<close> and \<open>int(x)\<close> of a decoded value.  What they give on floats and
  containers is a parameter.
\<close>

record py_texts =
  t_float_int :: "string \<Rightarrow> int option"    \<comment> \<open>\<open>int(x)\<close> of the float printed so\<close>
  t_float_zero :: "string \<Rightarrow> bool"
  t_repr :: "json \<Rightarrow> string"                \<comment> \<open>\<open>str(x)\<close> of a list or dict\<close>

definition py_truthy :: "py_texts \<Rightarrow> json \<Rightarrow> bool" where
  "py_truthy T v = (case v of
      JNull \<Rightarrow> False | JBool b \<Rightarrow> b | JInt i \<Rightarrow> i \<noteq> 0 | JFloat t \<Rightarrow> \<not> t_float_zero T t
    | JStr s \<Rightarrow> s \<noteq> [] | JArr vs \<Rightarrow> vs \<noteq> [] | JObj kvs \<Rightarrow> kvs \<noteq> [])"

definition py_str :: "py_texts \<Rightarrow> json \<Rightarrow> string" where
  "py_str T v = (case v of
      JNull \<Rightarrow> ''None'' | JBool b \<Rightarrow> (if b then ''True'' else ''False'') | JInt i \<Rightarrow> py_str_int i
    | JFloat t \<Rightarrow> t | JStr s \<Rightarrow> s | _ \<Rightarrow> t_repr T v)"

definition py_int_of :: "py_texts \<Rightarrow> json \<Rightarrow> int option" where
  \<comment> \<open>\<open>int(x)\<close>; \<open>None\<close> is a \<open>ValueError\<close> or \<open>TypeError\<close>\<close>
  "py_int_of T v = (case v of
      JInt i \<Rightarrow> Some i | JBool b \<Rightarrow> Some (if b then 1 else 0) | JFloat t \<Rightarrow> t_float_int T t
    | JStr s \<Rightarrow> py_int s | _ \<Rightarrow> None)"

subsection \<open>The depth check\<close>

definition MAX_JSON_DEPTH :: int where
  "MAX_JSON_DEPTH = 32"

fun check_depth :: "int \<Rightarrow> int \<Rightarrow> bool \<Rightarrow> bool \<Rightarrow> string \<Rightarrow> bool" where
  \<comment> \<open>the loop of \<open>_check_depth\<close>: False is its \<open>raise ValueError\<close>\<close>
  "check_depth max_depth depth in_string escape [] = True"
| "check_depth max_depth depth in_string escape (ch # s) =
     (if in_string then
        (if escape then check_depth max_depth depth True False s
         else if ch = CHR 0x5C then check_depth max_depth depth True True s
         else if ch = CHR 0x22 then check_depth max_depth depth False escape s
         else check_depth max_depth depth True escape s)
      else if ch = CHR 0x22 then check_depth max_depth depth True escape s
      else if ch = CHR ''['' \<or> ch = CHR ''{'' then
        (if depth + 1 > max_depth then False
         else check_depth max_depth (depth + 1) in_string escape s)
      else if ch = CHR '']'' \<or> ch = CHR ''}'' then
        check_depth max_depth (depth - 1) in_string escape s
      else check_depth max_depth depth in_string escape s)"

datatype loads_error = Depth_ValueError | JSONDecodeError

definition safe_loads :: "(string \<Rightarrow> json option) \<Rightarrow> string \<Rightarrow> loads_error + json" where
  "safe_loads loads s =
     (if \<not> check_depth MAX_JSON_DEPTH 0 False False s then Inl Depth_ValueError
      else case loads s of None \<Rightarrow> Inl JSONDecodeError | Some v \<Rightarrow> Inr v)"

subsection \<open>The scan computes the nesting depth\<close>

definition plain_char :: "char \<Rightarrow> bool" where
  "plain_char c \<longleftrightarrow> c \<notin> {CHR 0x22, CHR ''['', CHR ''{'', CHR '']'', CHR ''}''}"

fun wf_json :: "json \<Rightarrow> bool" where
  \<comment> \<open>the text of a float holds no quote and no bracket\<close>
  "wf_json (JFloat t) = list_all plain_char t"
| "wf_json (JArr vs) = list_all wf_json vs"
| "wf_json (JObj kvs) = list_all (\<lambda>(k, v). wf_json v) kvs"
| "wf_json _ = True"

lemma scan_plain: "list_all plain_char t \<Longrightarrow> check_depth m d False e (t @ s) = check_depth m d False e s"
  by (induction t) (auto simp: plain_char_def)

lemma scan_escaped_char:
  "check_depth m d True False (json_escape_char c @ s) = check_depth m d True False s"
proof -
  have "hex_char n \<noteq> CHR 0x22 \<and> hex_char n \<noteq> CHR 0x5C" if "n < 16" for n
    using ord_hex_char [OF that] by (auto simp: ord_def split: if_splits)
  moreover have "ord c div 16 < 16" by (simp add: ord_def less_mult_imp_div_less)
  ultimately show ?thesis by (simp add: json_escape_char_def)
qed

lemma scan_escaped:
  "check_depth m d True False (concat (map json_escape_char t) @ s) = check_depth m d True False s"
  by (induction t) (simp_all add: scan_escaped_char)

lemma scan_json_str: "check_depth m d False False (json_str t @ s) = check_depth m d False False s"
  by (simp add: json_str_def scan_escaped)

lemma plain_number: "list_all plain_char (py_str_int i)"
proof -
  have "plain_char c" if "py_isdigit c" for c
    using that by (auto simp: plain_char_def py_isdigit_def ord_def)
  then have "list_all plain_char (show_nat n)" for n
    using show_nat_digits by (simp add: list_all_iff)
  then show ?thesis by (simp add: py_str_int_def plain_char_def)
qed

lemma fold_max_ge: "(x :: nat) \<le> fold max xs x" 
  by (induction xs arbitrary: x) (auto intro: order_trans [OF max.cobounded2])

lemma fold_max_acc: "fold max xs x = max x (fold max xs (0 :: nat))"
proof (induction xs arbitrary: x)
  case (Cons y xs)
  from Cons [of "max y x"] Cons [of y] show ?case by simp
qed simp

definition scans_as :: "string \<Rightarrow> nat \<Rightarrow> bool" where
  \<comment> \<open>scanning \<open>t\<close> at depth \<open>d\<close> fails exactly when \<open>d + n\<close> passes the bound,
      and returns to depth \<open>d\<close>\<close>
  "scans_as t n \<longleftrightarrow> (\<forall>m d s. d \<le> m \<longrightarrow>
     check_depth m d False False (t @ s) = (d + int n \<le> m \<and> check_depth m d False False s))"

lemma scans_as_0: "list_all plain_char t \<Longrightarrow> scans_as t 0"
  by (simp add: scans_as_def scan_plain)

lemma scans_as_str_0: "scans_as (json_str t) 0"
  by (simp add: scans_as_def scan_json_str)

lemma scans_as_append: "scans_as t n \<Longrightarrow> scans_as u k \<Longrightarrow> scans_as (t @ u) (max n k)"
  unfolding scans_as_def by (auto simp: max_def)

lemma scans_as_join:
  assumes sep: "list_all plain_char sep" and "list_all2 scans_as ts ns"
  shows "scans_as (py_join sep ts) (fold max ns 0)"
  using assms(2)
proof (induction ts arbitrary: ns)
  case Nil
  then show ?case by (simp add: scans_as_def)
next
  case (Cons w ts)
  from Cons.prems obtain n ns' where ns: "ns = n # ns'" and w: "scans_as w n"
    and ts: "list_all2 scans_as ts ns'"
    by (auto simp: list_all2_Cons1)
  show ?case
  proof (cases ts)
    case Nil
    then show ?thesis using w ts ns by simp
  next
    case (Cons v ws)
    have "scans_as (sep @ py_join sep ts) (max 0 (fold max ns' 0))"
      by (rule scans_as_append [OF scans_as_0 [OF sep] Cons.IH [OF ts]])
    then have "scans_as (w @ (sep @ py_join sep ts)) (max n (max 0 (fold max ns' 0)))"
      by (rule scans_as_append [OF w])
    moreover have "fold max ns 0 = max n (max 0 (fold max ns' 0))"
      unfolding ns using fold_max_acc [of ns' n] by simp
    ultimately show ?thesis by (simp add: Cons)
  qed
qed

lemma scans_as_bracket:
  assumes "scans_as t n" and "(b, c) = (CHR ''['', CHR '']'') \<or> (b, c) = (CHR ''{'', CHR ''}'')"
  shows "scans_as (b # t @ [c]) (Suc n)"
proof -
  have "check_depth m d False False (b # (t @ [c]) @ s) =
      (d + int (Suc n) \<le> m \<and> check_depth m d False False s)" if "d \<le> m" for m d s
  proof (cases "d + 1 \<le> m")
    case True
    then show ?thesis using assms(1) assms(2) by (auto simp: scans_as_def)
  next
    case False
    then show ?thesis using assms(2) by auto
  qed
  then show ?thesis by (simp add: scans_as_def)
qed

lemma scans_as_dumps: "wf_json v \<Longrightarrow> scans_as (dumps v) (json_depth v)"
proof (induction v)
  case JNull
  show ?case by (simp add: scans_as_0 plain_char_def)
next
  case (JBool b)
  show ?case by (simp add: scans_as_0 plain_char_def)
next
  case (JInt i)
  show ?case by (simp add: scans_as_0 plain_number)
next
  case (JFloat t)
  then show ?case by (simp add: scans_as_0)
next
  case (JStr t)
  show ?case by (simp add: scans_as_str_0)
next
  case (JArr vs)
  then have "list_all2 scans_as (map dumps vs) (map json_depth vs)"
    by (auto simp: list_all2_conv_all_nth list_all_length)
  then have "scans_as (py_join '', '' (map dumps vs)) (fold max (map json_depth vs) 0)"
    by (rule scans_as_join [rotated]) (simp add: plain_char_def)
  then show ?case using scans_as_bracket [of _ _ "CHR ''[''" "CHR '']''"] by simp
next
  case (JObj kvs)
  have "scans_as (json_str k @ '': '' @ dumps v) (json_depth v)" if "(k, v) \<in> set kvs" for k v
  proof -
    have "scans_as (dumps v) (json_depth v)"
      using JObj.IH [OF that, of v] JObj.prems that by (auto simp: list_all_iff)
    then have "scans_as ('': '' @ dumps v) (max 0 (json_depth v))"
      by (intro scans_as_append scans_as_0) (simp_all add: plain_char_def)
    then show ?thesis using scans_as_append [OF scans_as_str_0 [of k]] by fastforce
  qed
  then have "list_all2 scans_as (map (\<lambda>(k, v). json_str k @ '': '' @ dumps v) kvs)
      (map (\<lambda>(k, v). json_depth v) kvs)"
    by (auto simp: list_all2_conv_all_nth split_beta)
  then have "scans_as (py_join '', '' (map (\<lambda>(k, v). json_str k @ '': '' @ dumps v) kvs))
      (fold max (map (\<lambda>(k, v). json_depth v) kvs) 0)"
    by (rule scans_as_join [rotated]) (simp add: plain_char_def)
  then show ?case using scans_as_bracket [of _ _ "CHR ''{''" "CHR ''}''"] by simp
qed

text \<open>
  C39: On the text of any JSON value the linear scan of \<open>_check_depth\<close> raises exactly
  when the value is nested deeper than the bound: brackets inside strings and after escapes
  are never counted, and no deeper value slips through.  So \<open>safe_loads\<close> of a printed
  value of depth at most 32 reaches the decoder, and a deeper one is a ValueError before
  any recursion.
\<close>

theorem check_depth_exact:
  assumes "wf_json v"
  shows "(check_depth (int m) 0 False False (dumps v) \<longleftrightarrow> json_depth v \<le> m) \<and>
    safe_loads loads (dumps v) =
      (if json_depth v \<le> 32 then (case loads (dumps v) of None \<Rightarrow> Inl JSONDecodeError | Some x \<Rightarrow> Inr x)
       else Inl Depth_ValueError)"
proof -
  have scan: "check_depth (int k) 0 False False (dumps v) \<longleftrightarrow> json_depth v \<le> k" for k
    using scans_as_dumps [OF assms, unfolded scans_as_def, rule_format, of 0 "int k" "[]"] by simp
  then show ?thesis using scan [of 32] by (simp add: safe_loads_def MAX_JSON_DEPTH_def)
qed

theorem check_depth_exact_witness:
  "let v = JObj [([CHR ''['', CHR 0x22], JArr [JStr ''{{['', JInt 3])]
   in json_depth v = 2 \<and> check_depth (int 2) 0 False False (dumps v) \<and>
      \<not> check_depth (int 1) 0 False False (dumps v)"
  using check_depth_exact [of "JObj [([CHR ''['', CHR 0x22], JArr [JStr ''{{['', JInt 3])]" 2]
    check_depth_exact [of "JObj [([CHR ''['', CHR 0x22], JArr [JStr ''{{['', JInt 3])]" 1]
  unfolding Let_def by simp

end
