(* ===== verification/Ws_Agent.thy ===== *)
theory Ws_Agent
  imports Dispatch Json
begin

section \<open>The agent WebSocket endpoint\<close>

text \<open>
  \<open>api/v1/stream.py\<close> with the frame schemas of \<open>schemas/wire.py\<close> and the services it
  calls (\<open>service/host_service.py\<close>, \<open>service/event_service.py\<close>).  A session is the
  whole handler: the challenge, the HELLO check, the frame loop and the \<open>finally\<close> clause.
  Its input is the list of text frames the client sends, each with the monotonic time of its
  arrival; the end of the list is the client's disconnect.  Parameters: the JSON decoder,
  the readers of UUID and date texts, the MAC, the clock of the database, and whether the
  stream publish succeeds.  An exception that reaches the handler's outer
  \<open>except Exception\<close> closes with code 1011.
\<close>

record event_row =
  ev_id :: uuid
  ev_host_id :: uuid
  ev_schema :: string
  ev_occurred_at :: rat
  ev_source :: string
  ev_raw :: string
  ev_metadata :: "string str_dict"

record 'w ws_world = "'w world" +
  ws_events :: "event_row list"
  ws_published :: "uuid list"

record ws_env =
  e_loads :: "string \<Rightarrow> json option"
  e_uuid :: "string \<Rightarrow> uuid option"
  e_datetime :: "json \<Rightarrow> rat option"
  e_mac :: mac_fun
  e_now :: rat
  e_publish_ok :: "uuid \<Rightarrow> bool"
  e_settings :: settings

subsection \<open>Frame schemas\<close>

record hello_frame =
  hello_agent_id :: uuid
  hello_version :: string
  hello_nonce :: string
  hello_sig :: string

datatype ack_status = Ack_applied | Ack_failed

record ack_frame =
  ack_id :: uuid
  ack_state :: ack_status
  ack_error :: "string option"

definition keys_within :: "string list \<Rightarrow> json str_dict \<Rightarrow> bool" where
  \<comment> \<open>\<open>extra="forbid"\<close>\<close>
  "keys_within ks kvs \<longleftrightarrow> list_all (\<lambda>kv. fst kv \<in> set ks) kvs"

definition str_field :: "json str_dict \<Rightarrow> string \<Rightarrow> int \<Rightarrow> int \<Rightarrow> string option" where
  \<comment> \<open>a required \<open>str\<close> with \<open>min_length\<close> and \<open>max_length\<close>\<close>
  "str_field kvs k lo hi =
     (case map_of kvs k of
        Some (JStr s) \<Rightarrow> if lo \<le> int (length s) \<and> int (length s) \<le> hi then Some s else None
      | _ \<Rightarrow> None)"

definition uuid_field :: "ws_env \<Rightarrow> json str_dict \<Rightarrow> string \<Rightarrow> uuid option" where
  "uuid_field e kvs k = (case map_of kvs k of Some (JStr s) \<Rightarrow> e_uuid e s | _ \<Rightarrow> None)"

definition validate_hello :: "ws_env \<Rightarrow> json str_dict \<Rightarrow> hello_frame option" where
  "validate_hello e kvs =
     (if \<not> keys_within [''type'', ''agent_id'', ''v'', ''version'', ''nonce'', ''sig''] kvs then None
      else if map_of kvs ''v'' \<noteq> Some (JInt 2) then None
      else case (uuid_field e kvs ''agent_id'', str_field kvs ''version'' 1 32,
                 str_field kvs ''nonce'' 64 64, str_field kvs ''sig'' 64 64) of
        (Some a, Some v, Some n, Some g) \<Rightarrow>
          Some \<lparr>hello_agent_id = a, hello_version = v, hello_nonce = n, hello_sig = g\<rparr>
      | _ \<Rightarrow> None)"

fun str_dict_of :: "json str_dict \<Rightarrow> string str_dict option" where
  \<comment> \<open>\<open>dict[str, str]\<close>\<close>
  "str_dict_of [] = Some []"
| "str_dict_of ((k, JStr s) # kvs) = map_option (\<lambda>d. (k, s) # d) (str_dict_of kvs)"
| "str_dict_of _ = None"

definition validate_event :: "ws_env \<Rightarrow> json str_dict \<Rightarrow> event_row option" where
  "validate_event e kvs =
     (if \<not> keys_within [''type'', ''event''] kvs then None
      else case map_of kvs ''event'' of
        Some (JObj ev) \<Rightarrow>
          (if \<not> keys_within [''schema'', ''event_schema'', ''id'', ''timestamp'', ''host_id'', ''source'', ''raw'', ''metadata''] ev
           then None
           else case (str_field ev (if map_of ev ''schema'' \<noteq> None then ''schema'' else ''event_schema'') 1 16,
                      uuid_field e ev ''id'',
                      Option.bind (map_of ev ''timestamp'') (e_datetime e),
                      uuid_field e ev ''host_id'', str_field ev ''source'' 1 255,
                      str_field ev ''raw'' 0 (64 * 1024),
                      (case map_of ev ''metadata'' of
                         None \<Rightarrow> Some [] | Some (JObj m) \<Rightarrow> str_dict_of m | _ \<Rightarrow> None)) of
             (Some sc, Some i, Some t, Some h, Some s, Some r, Some m) \<Rightarrow>
               Some \<lparr>ev_id = i, ev_host_id = h, ev_schema = sc, ev_occurred_at = t, ev_source = s,
                     ev_raw = r, ev_metadata = m\<rparr>
           | _ \<Rightarrow> None)
      | _ \<Rightarrow> None)"

definition validate_ack :: "ws_env \<Rightarrow> json str_dict \<Rightarrow> ack_frame option" where
  "validate_ack e kvs =
     (if \<not> keys_within [''type'', ''id'', ''status'', ''error''] kvs then None
      else case (uuid_field e kvs ''id'',
                 (case map_of kvs ''status'' of
                    Some (JStr s) \<Rightarrow> if s = ''applied'' then Some Ack_applied
                                   else if s = ''failed'' then Some Ack_failed else None
                  | _ \<Rightarrow> None),
                 (case map_of kvs ''error'' of
                    None \<Rightarrow> Some None | Some JNull \<Rightarrow> Some None
                  | Some (JStr s) \<Rightarrow> if int (length s) \<le> 512 then Some (Some s) else None
                  | _ \<Rightarrow> None)) of
        (Some i, Some st, Some er) \<Rightarrow> Some \<lparr>ack_id = i, ack_state = st, ack_error = er\<rparr>
      | _ \<Rightarrow> None)"

subsection \<open>Services\<close>

definition upsert_on_hello :: "uuid \<Rightarrow> host_row list \<Rightarrow> host_row option" where
  \<comment> \<open>\<open>None\<close> is the \<open>ValueError("unknown agent")\<close>; nothing is written\<close>
  "upsert_on_hello a hosts = find_host hosts (Some a)"

datatype persist_result = Persisted | DuplicateEvent | Unknown_host

definition persist_event ::
  "ws_env \<Rightarrow> event_row \<Rightarrow> 'w ws_world \<Rightarrow> persist_result \<times> 'w ws_world" where
  \<comment> \<open>\<open>INSERT ... ON CONFLICT DO NOTHING\<close>; a host id that is not in the hosts table breaks
      the foreign key\<close>
  "persist_event e ev w =
     (if ev_id ev \<in> ev_id ` set (ws_events w) then (DuplicateEvent, w)
      else if ev_host_id ev \<notin> host_id ` set (w_hosts w) then (Unknown_host, w)
      else (Persisted, w\<lparr>ws_events := ws_events w @ [ev],
              ws_published := (if e_publish_ok e (ev_id ev) then ws_published w @ [ev_id ev]
                               else ws_published w)\<rparr>))"

definition compute_sig :: "mac_fun \<Rightarrow> string \<Rightarrow> string \<Rightarrow> string" where
  "compute_sig mac secret nonce = hexdigest (mac secret nonce)"

subsection \<open>The handshake\<close>

datatype handshake =
  Refused int "uuid option"   \<comment> \<open>close code; the agent id if it was already assigned\<close>
| Accepted host_row

definition MAX_HELLO_BYTES :: int where
  "MAX_HELLO_BYTES = 64 * 1024"

definition check_hello :: "ws_env \<Rightarrow> host_row list \<Rightarrow> string \<Rightarrow> json str_dict \<Rightarrow> handshake" where
  \<comment> \<open>from the decoded first frame to the verified signature\<close>
  "check_hello e hosts nonce first =
     (if map_of first ''type'' \<noteq> Some (JStr ''hello'') then Refused 1002 None
      else if map_of first ''v'' \<noteq> Some (JInt 2) then Refused 1002 None
      else case validate_hello e first of
        None \<Rightarrow> Refused 1002 None
      | Some hello \<Rightarrow>
          if hello_nonce hello = [] \<or> hello_nonce hello \<noteq> nonce then Refused 1002 None
          else let agent_id = hello_agent_id hello in
          if hello_sig hello = [] then Refused 1002 (Some agent_id)
          else case upsert_on_hello agent_id hosts of
            None \<Rightarrow> Refused 1011 (Some agent_id)
          | Some h \<Rightarrow>
              if \<not> truthy (host_secret h) then Refused 1008 (Some agent_id)
              else if compute_sig (e_mac e) (the (host_secret h)) nonce \<noteq> hello_sig hello
              then Refused 1008 (Some agent_id)
              else Accepted h)"

definition handshake :: "ws_env \<Rightarrow> host_row list \<Rightarrow> string \<Rightarrow> string \<Rightarrow> handshake" where
  "handshake e hosts nonce first_raw =
     (if MAX_HELLO_BYTES < int (length first_raw) then Refused 1009 None
      else case safe_loads (e_loads e) first_raw of
        Inl JSONDecodeError \<Rightarrow> Refused 1003 None
      | Inl Depth_ValueError \<Rightarrow> Refused 1011 None
      | Inr (JObj first) \<Rightarrow> check_hello e hosts nonce first
      | Inr _ \<Rightarrow> Refused 1011 None)"

subsection \<open>The frame loop\<close>

datatype frame_result = Continue | Stop "int option"   \<comment> \<open>the close code, if the server closes\<close>

definition handle_ack :: "ws_env \<Rightarrow> ack_frame \<Rightarrow> 'w ws_world \<Rightarrow> 'w ws_world" where
  "handle_ack e ack w =
     (case ack_state ack of
        Ack_applied \<Rightarrow> w\<lparr>w_actions := snd (mark_applied (e_now e) (ack_id ack) (w_actions w))\<rparr>
      | Ack_failed \<Rightarrow> w\<lparr>w_actions := snd (mark_failed (e_now e) (ack_id ack) (w_actions w))\<rparr>)"

definition handle_frame :: "ws_env \<Rightarrow> string \<Rightarrow> 'w ws_world \<Rightarrow> frame_result \<times> 'w ws_world" where
  "handle_frame e raw w =
     (case safe_loads (e_loads e) raw of
        Inl JSONDecodeError \<Rightarrow> (Continue, w)
      | Inl Depth_ValueError \<Rightarrow> (Stop (Some 1011), w)
      | Inr (JObj kvs) \<Rightarrow>
          (if map_of kvs ''type'' = Some (JStr ''event'') then
             (case validate_event e kvs of
                None \<Rightarrow> (Continue, w)
              | Some ev \<Rightarrow>
                  (case persist_event e ev w of
                     (Unknown_host, w') \<Rightarrow> (Stop (Some 1011), w')
                   | (_, w') \<Rightarrow> (Continue, w')))
           else if map_of kvs ''type'' = Some (JStr ''command_ack'') then
             (case validate_ack e kvs of
                None \<Rightarrow> (Continue, w)
              | Some ack \<Rightarrow> (Continue, handle_ack e ack w))
           else if map_of kvs ''type'' = Some (JStr ''bye'') then (Stop None, w)
           else (Continue, w))
      | Inr _ \<Rightarrow> (Stop (Some 1011), w))"

fun ws_loop ::
  "ws_env \<Rightarrow> rat \<Rightarrow> int \<Rightarrow> (rat \<times> string) list \<Rightarrow> 'w ws_world \<Rightarrow> int option \<times> 'w ws_world" where
  "ws_loop e window_start msg_in_window [] w = (None, w)"
| "ws_loop e window_start msg_in_window ((now, raw) # msgs) w =
     (if ws_max_msg_bytes (e_settings e) < int (length raw) then (Some 1009, w)
      else
        let fresh = now - window_start \<ge> 60;
            start' = (if fresh then now else window_start);
            n = (if fresh then 1 else msg_in_window + 1)
        in if ws_max_msg_per_min (e_settings e) < n then (Some 1013, w)
           else case handle_frame e raw w of
             (Continue, w') \<Rightarrow> ws_loop e start' n msgs w'
           | (Stop c, w') \<Rightarrow> (c, w'))"

definition ws_agent ::
  "ws_env \<Rightarrow> string \<Rightarrow> rat \<Rightarrow> 'w \<Rightarrow> (rat \<times> string) list \<Rightarrow> 'w ws_world \<Rightarrow> int option \<times> 'w ws_world" where
  "ws_agent e nonce start ws msgs w =
     (case msgs of
        [] \<Rightarrow> (None, w)
      | (_, first_raw) # rest \<Rightarrow>
          (case handshake e (w_hosts w) nonce first_raw of
             Refused c None \<Rightarrow> (Some c, w)
           | Refused c (Some a) \<Rightarrow> (Some c, w\<lparr>w_conns := unregister_conn a (w_conns w)\<rparr>)
           | Accepted h \<Rightarrow>
               (case ws_loop e start 0 rest (w\<lparr>w_conns := register_conn (host_id h) ws (w_conns w)\<rparr>) of
                  (c, w') \<Rightarrow> (c, w'\<lparr>w_conns := unregister_conn (host_id h) (w_conns w')\<rparr>))))"

subsection \<open>What a session can change\<close>

lemma check_hello_Accepted:
  assumes "check_hello e hosts nonce kvs = Accepted h"
  shows "\<exists>sec. find_host hosts (Some (host_id h)) = Some h \<and> host_secret h = Some sec \<and> sec \<noteq> [] \<and>
    map_of kvs ''nonce'' = Some (JStr nonce) \<and>
    map_of kvs ''sig'' = Some (JStr (hexdigest (e_mac e sec nonce)))"
proof -
  from assms obtain hello where v: "validate_hello e kvs = Some hello"
    and n: "hello_nonce hello = nonce"
    and u: "upsert_on_hello (hello_agent_id hello) hosts = Some h"
    and t: "truthy (host_secret h)"
    and g: "hello_sig hello = compute_sig (e_mac e) (the (host_secret h)) nonce"
    by (auto simp: check_hello_def Let_def split: if_split_asm option.split_asm)
  from v have "str_field kvs ''nonce'' 64 64 = Some (hello_nonce hello)"
    and "str_field kvs ''sig'' 64 64 = Some (hello_sig hello)"
    by (auto simp: validate_hello_def split: if_split_asm option.split_asm)
  then have "map_of kvs ''nonce'' = Some (JStr nonce)" "map_of kvs ''sig'' = Some (JStr (hello_sig hello))"
    using n by (auto simp: str_field_def split: option.split_asm json.split_asm if_split_asm)
  moreover obtain sec where "host_secret h = Some sec" "sec \<noteq> []"
    using t by (auto simp: truthy_def)
  moreover have "find_host hosts (Some (host_id h)) = Some h"
    using u by (auto simp: upsert_on_hello_def find_host_def find_Some_iff)
  ultimately show ?thesis using g by (auto simp: compute_sig_def)
qed

lemma handshake_Accepted:
  assumes "handshake e hosts nonce raw = Accepted h"
  shows "int (length raw) \<le> 65536 \<and> (\<exists>kvs. safe_loads (e_loads e) raw = Inr (JObj kvs) \<and>
    check_hello e hosts nonce kvs = Accepted h)"
  using assms
  by (auto simp: handshake_def MAX_HELLO_BYTES_def split: if_split_asm sum.split_asm loads_error.split_asm json.split_asm)

text \<open>What one frame, and so the whole loop, may change: the events table grows by fresh
  ids, the actions table moves by its own steps, hosts and connections stay.\<close>

definition ws_effect :: "'w ws_world \<Rightarrow> 'w ws_world \<Rightarrow> bool" where
  "ws_effect w w' \<longleftrightarrow>
     w_hosts w' = w_hosts w \<and> w_conns w' = w_conns w \<and> w_sent w' = w_sent w \<and>
     action_step\<^sup>*\<^sup>* (w_actions w) (w_actions w') \<and>
     prefix (ws_events w) (ws_events w') \<and> prefix (ws_published w) (ws_published w') \<and>
     (distinct (map ev_id (ws_events w)) \<longrightarrow> distinct (map ev_id (ws_events w')))"

lemma ws_effect_refl: "ws_effect w w"
  by (simp add: ws_effect_def)

lemma ws_effect_trans: "ws_effect u v \<Longrightarrow> ws_effect v w \<Longrightarrow> ws_effect u w"
  by (auto simp: ws_effect_def intro: rtranclp_trans prefix_order.trans)

lemma persist_event_effect: "ws_effect w (snd (persist_event e ev w))"
  by (auto simp: ws_effect_def persist_event_def)

lemma handle_ack_effect: "ws_effect w (handle_ack e ack w)"
  by (cases "ack_state ack")
     (auto simp: ws_effect_def handle_ack_def intro: r_into_rtranclp action_step.intros)

lemma handle_frame_effect: "ws_effect w (snd (handle_frame e raw w))"
proof -
  have p: "ws_effect w w'" if "persist_event e ev w = (r, w')" for ev r w'
    using persist_event_effect [of w e ev] that by simp
  show ?thesis
    by (auto simp: handle_frame_def ws_effect_refl handle_ack_effect p
        split: sum.split loads_error.split json.split option.split prod.split persist_result.split)
qed

lemma ws_loop_effect: "ws_effect w (snd (ws_loop e t n msgs w))"
proof (induction e t n msgs w rule: ws_loop.induct)
  case (2 e window_start n now raw msgs w)
  obtain r w' where hf: "handle_frame e raw w = (r, w')" by (cases "handle_frame e raw w")
  have eff: "ws_effect w w'" using handle_frame_effect [of w e raw] by (simp add: hf)
  show ?case
  proof (cases r)
    case Continue
    with "2.IH" hf eff show ?thesis
      by (auto simp: Let_def ws_effect_refl intro: ws_effect_trans)
  next
    case (Stop c)
    with hf eff show ?thesis by (simp add: Let_def ws_effect_refl)
  qed
qed (simp add: ws_effect_refl)

lemma ws_loop_window:
  assumes "\<forall>m \<in> set msgs. fst m - t < 60" and "0 \<le> n" and "n \<le> ws_max_msg_per_min (e_settings e)"
  shows "snd (ws_loop e t n msgs w) = snd (ws_loop e t n (take (nat (ws_max_msg_per_min (e_settings e) - n)) msgs) w)"
  using assms
proof (induction msgs arbitrary: n w)
  case (Cons m msgs)
  obtain now raw where m: "m = (now, raw)" by (cases m)
  have nf: "\<not> 60 \<le> now - t" using Cons.prems(1) by (auto simp: m)
  obtain r w' where hf: "handle_frame e raw w = (r, w')" by (cases "handle_frame e raw w")
  show ?case
  proof (cases "n < ws_max_msg_per_min (e_settings e)")
    case True
    then have k: "nat (ws_max_msg_per_min (e_settings e) - n) =
        Suc (nat (ws_max_msg_per_min (e_settings e) - (n + 1)))" by simp
    have "snd (ws_loop e t (n + 1) msgs w') =
        snd (ws_loop e t (n + 1) (take (nat (ws_max_msg_per_min (e_settings e) - (n + 1))) msgs) w')"
      using Cons.prems True by (intro Cons.IH) auto
    then show ?thesis using nf hf by (cases r) (simp_all add: m k Let_def)
  next
    case False
    then have "ws_max_msg_per_min (e_settings e) = n" using Cons.prems(3) by simp
    then show ?thesis using nf by (simp add: m)
  qed
qed simp

subsection \<open>Properties\<close>

text \<open>
  C12: The server registers a connection for a host only after a HELLO that echoes this
  session's nonce and carries the MAC of the nonce under the secret stored for that very
  host; a session whose HELLO is refused writes no event, changes no action and no host, and
  registers nothing.
\<close>

theorem ws_session_authenticated:
  "(handshake e hosts nonce raw = Accepted h \<longrightarrow>
      (\<exists>kvs sec. safe_loads (e_loads e) raw = Inr (JObj kvs) \<and> int (length raw) \<le> 65536 \<and>
         find_host hosts (Some (host_id h)) = Some h \<and> host_secret h = Some sec \<and> sec \<noteq> [] \<and>
         map_of kvs ''nonce'' = Some (JStr nonce) \<and>
         map_of kvs ''sig'' = Some (JStr (hexdigest (e_mac e sec nonce))))) \<and>
   ((\<forall>h. handshake e (w_hosts w) nonce raw \<noteq> Accepted h) \<longrightarrow>
      (let w' = snd (ws_agent e nonce start ws ((t, raw) # msgs) w)
       in w_hosts w' = w_hosts w \<and> w_actions w' = w_actions w \<and> ws_events w' = ws_events w \<and>
          ws_published w' = ws_published w \<and>
          (\<forall>a c. get_conn (w_conns w') a = Some c \<longrightarrow> get_conn (w_conns w) a = Some c)))"
proof -
  have "\<exists>kvs sec. safe_loads (e_loads e) raw = Inr (JObj kvs) \<and> int (length raw) \<le> 65536 \<and>
         find_host hosts (Some (host_id h)) = Some h \<and> host_secret h = Some sec \<and> sec \<noteq> [] \<and>
         map_of kvs ''nonce'' = Some (JStr nonce) \<and>
         map_of kvs ''sig'' = Some (JStr (hexdigest (e_mac e sec nonce)))"
    if "handshake e hosts nonce raw = Accepted h"
    using handshake_Accepted [OF that] check_hello_Accepted by blast
  then show ?thesis
    by (auto simp: ws_agent_def Let_def unregister_conn_def get_conn_def
        split: handshake.split option.split if_split_asm)
qed

definition demo_nonce :: string where
  "demo_nonce = replicate 64 (CHR ''0'')"

definition demo_kvs :: "string \<Rightarrow> string \<Rightarrow> json str_dict" where
  "demo_kvs h sig = [(''type'', JStr ''hello''), (''agent_id'', JStr h), (''v'', JInt 2),
     (''version'', JStr ''0.5.0''), (''nonce'', JStr demo_nonce), (''sig'', JStr sig)]"

definition demo_ws_env :: "string \<Rightarrow> ws_env" where
  "demo_ws_env sig = \<lparr>e_loads = (\<lambda>s. if s = ''H'' then Some (JObj (demo_kvs ''h2'' sig)) else None),
     e_uuid = Some, e_datetime = (\<lambda>_. Some 0), e_mac = (\<lambda>k m. replicate 32 0), e_now = 1,
     e_publish_ok = (\<lambda>_. True), e_settings = default_settings\<rparr>"

lemma demo_handshake:
  "handshake (demo_ws_env (replicate 64 (CHR ''0''))) [demo_host ''h2'' True] demo_nonce ''H'' =
     Accepted (demo_host ''h2'' True)"
  "handshake (demo_ws_env (replicate 64 (CHR ''1''))) [demo_host ''h2'' True] demo_nonce ''H'' =
     Refused 1008 (Some ''h2'')"
  by code_simp+

theorem ws_session_authenticated_witness:
  "\<exists>kvs sec. safe_loads (e_loads (demo_ws_env (replicate 64 (CHR ''0'')))) ''H'' = Inr (JObj kvs) \<and>
     map_of kvs ''sig'' = Some (JStr (hexdigest (e_mac (demo_ws_env (replicate 64 (CHR ''0''))) sec demo_nonce)))"
  using ws_session_authenticated [THEN conjunct1, rule_format, OF demo_handshake(1)] by blast

text \<open>
  The \<open>finally\<close> clause undoes more than the session did: a client that knows only a
  host's id, echoes the nonce and sends a wrong signature is refused with 1008, yet the
  connection the real agent had registered under that id is removed from the dispatcher.
\<close>

theorem forged_hello_unregisters_host:
  assumes "handshake e (w_hosts w) nonce raw = Refused c (Some victim)"
  shows "fst (ws_agent e nonce start ws ((t, raw) # msgs) w) = Some c \<and>
    get_conn (w_conns (snd (ws_agent e nonce start ws ((t, raw) # msgs) w))) victim = None"
  using assms by (simp add: ws_agent_def unregister_conn_def get_conn_def)

definition demo_ws_world :: "nat ws_world" where
  "demo_ws_world = \<lparr>w_hosts = [demo_host ''h2'' True], w_actions = [], w_conns = [(''h2'', 7)],
     w_sent = [], ws_events = [], ws_published = []\<rparr>"

theorem forged_hello_unregisters_host_witness:
  "get_conn (w_conns demo_ws_world) ''h2'' = Some 7 \<and>
   get_conn (w_conns (snd (ws_agent (demo_ws_env (replicate 64 (CHR ''1''))) demo_nonce 0 8 [(0, ''H'')]
     demo_ws_world))) ''h2'' = None"
  using forged_hello_unregisters_host [of "demo_ws_env (replicate 64 (CHR ''1''))" demo_ws_world demo_nonce "''H''" 1008 "''h2''" 0 8 0 "[]"]
    demo_handshake(2)
  by (simp add: demo_ws_world_def get_conn_def)

text \<open>
  C14: A whole session, accepted or not, changes the server's state only within its
  bounds: host rows are never touched (not even \<open>last_seen_at\<close>), no command is sent,
  stored events and stream entries are only appended and event ids stay distinct, and every
  change of the actions table is a sequence of the action service's own steps.  After the
  session the authenticated host has no registered connection.
\<close>

theorem ws_session_effect:
  "let w' = snd (ws_agent e nonce start ws msgs w)
   in w_hosts w' = w_hosts w \<and> w_sent w' = w_sent w \<and>
      action_step\<^sup>*\<^sup>* (w_actions w) (w_actions w') \<and>
      prefix (ws_events w) (ws_events w') \<and> prefix (ws_published w) (ws_published w') \<and>
      (distinct (map ev_id (ws_events w)) \<longrightarrow> distinct (map ev_id (ws_events w'))) \<and>
      (\<forall>t raw rest h. msgs = (t, raw) # rest \<longrightarrow> handshake e (w_hosts w) nonce raw = Accepted h \<longrightarrow>
         get_conn (w_conns w') (host_id h) = None)"
proof (cases msgs)
  case Nil
  then show ?thesis by (simp add: ws_agent_def)
next
  case (Cons m rest)
  obtain t raw where m: "m = (t, raw)" by (cases m)
  show ?thesis
  proof (cases "handshake e (w_hosts w) nonce raw")
    case (Refused c a)
    then show ?thesis by (cases a) (simp_all add: Cons m ws_agent_def Let_def)
  next
    case (Accepted h)
    let ?w0 = "w\<lparr>w_conns := register_conn (host_id h) ws (w_conns w)\<rparr>"
    obtain c w1 where l: "ws_loop e start 0 rest ?w0 = (c, w1)" by (cases "ws_loop e start 0 rest ?w0")
    have "ws_effect ?w0 w1" using ws_loop_effect [of ?w0 e start 0 rest] by (simp add: l)
    then show ?thesis
      using Accepted l by (simp add: Cons m ws_agent_def Let_def ws_effect_def unregister_conn_def get_conn_def)
  qed
qed

definition demo_ev :: "string \<Rightarrow> json str_dict" where
  "demo_ev h = [(''schema'', JStr ''v1''), (''id'', JStr ''e1''), (''timestamp'', JStr ''t''),
     (''host_id'', JStr h), (''source'', JStr ''/var/log/auth.log''), (''raw'', JStr ''x'')]"

definition demo_session_env :: ws_env where
  "demo_session_env = (demo_ws_env (replicate 64 (CHR ''0'')))\<lparr>e_loads := (\<lambda>s.
     if s = ''H'' then Some (JObj (demo_kvs ''h2'' (replicate 64 (CHR ''0''))))
     else if s = ''E'' then Some (JObj [(''type'', JStr ''event''), (''event'', JObj (demo_ev ''h1''))])
     else if s = ''A'' then Some (JObj [(''type'', JStr ''command_ack''), (''id'', JStr ''a1''), (''status'', JStr ''applied'')])
     else if s = ''B'' then Some (JObj [(''type'', JStr ''bye'')]) else None)\<rparr>"

definition demo_two_hosts :: "nat ws_world" where
  "demo_two_hosts = demo_ws_world\<lparr>w_hosts := [demo_host ''h1'' True, demo_host ''h2'' True],
     w_actions := [(demo_action ''a1'' ''h1'' 0)\<lparr>act_status := ''dispatched''\<rparr>]\<rparr>"

lemma demo_session:
  "let w' = snd (ws_agent demo_session_env demo_nonce 0 8
       [(0, ''H''), (1, ''E''), (2, ''zz''), (3, ''E''), (4, ''A''), (5, ''B'')] demo_two_hosts)
   in map ev_host_id (ws_events w') = [''h1''] \<and> map act_status (w_actions w') = [''applied''] \<and>
      handshake demo_session_env (w_hosts demo_two_hosts) demo_nonce ''H'' = Accepted (demo_host ''h2'' True)"
  by code_simp

theorem ws_session_effect_witness:
  "let w' = snd (ws_agent demo_session_env demo_nonce 0 8
       [(0, ''H''), (1, ''E''), (2, ''zz''), (3, ''E''), (4, ''A''), (5, ''B'')] demo_two_hosts)
   in map ev_host_id (ws_events w') = [''h1''] \<and> distinct (map ev_id (ws_events w')) \<and>
      get_conn (w_conns w') ''h2'' = None"
proof -
  have h: "host_id (demo_host ''h2'' True) = ''h2''" by (simp add: demo_host_def)
  have "ws_events demo_two_hosts = []" by (simp add: demo_two_hosts_def demo_ws_world_def)
  then show ?thesis
    using ws_session_effect [of demo_session_env demo_nonce 0 8
        "[(0, ''H''), (1, ''E''), (2, ''zz''), (3, ''E''), (4, ''A''), (5, ''B'')]" demo_two_hosts]
      demo_session h
    by (auto simp: Let_def)
qed

text \<open>
  A session is not confined to its own host: once any host is authenticated, a
  well-formed COMMAND_ACK for an action dispatched to a different host is applied all the
  same, and nobody else's acknowledgement can change that row afterwards.
\<close>

theorem foreign_ack_is_applied:
  assumes "handshake e (w_hosts w) nonce hello = Accepted h"
    and "safe_loads (e_loads e) raw = Inr (JObj kvs)" and "map_of kvs ''type'' = Some (JStr ''command_ack'')"
    and "validate_ack e kvs = Some ack" and "ack_state ack = Ack_applied"
    and "get_action (ack_id ack) (w_actions w) = Some a" and "act_status a = ''dispatched''"
    and "act_host_id a \<noteq> Some (host_id h)"
    and "int (length raw) \<le> ws_max_msg_bytes (e_settings e)" and "1 \<le> ws_max_msg_per_min (e_settings e)"
  shows "get_action (ack_id ack) (w_actions (snd (ws_agent e nonce start ws [(th, hello), (t, raw)] w))) =
    Some (a\<lparr>act_status := ''applied'', acked_at := Some (e_now e)\<rparr>)"
proof -
  have "action_id a = ack_id ack"
    using assms(6) by (auto simp: get_action_def find_Some_iff)
  then have m: "get_action (ack_id ack) (snd (mark_applied now (ack_id ack) (w_actions w))) =
      Some (a\<lparr>act_status := ''applied'', acked_at := Some now\<rparr>)" for now
    using assms(6,7) by (simp add: mark_applied_def get_action_update_where)
  show ?thesis
    using assms(1-5,9,10) m by (simp add: ws_agent_def handle_frame_def handle_ack_def Let_def)
qed

theorem foreign_ack_is_applied_witness:
  "map act_host_id (w_actions demo_two_hosts) = [Some ''h1''] \<and>
   (\<exists>a. get_action ''a1'' (w_actions (snd (ws_agent demo_session_env demo_nonce 0 8
      [(0, ''H''), (4, ''A'')] demo_two_hosts))) = Some a \<and> act_status a = ''applied'')"
proof -
  let ?kvs = "[(''type'', JStr ''command_ack''), (''id'', JStr ''a1''), (''status'', JStr ''applied'')]"
  let ?a = "(demo_action ''a1'' ''h1'' 0)\<lparr>act_status := ''dispatched''\<rparr>"
  have "handshake demo_session_env (w_hosts demo_two_hosts) demo_nonce ''H'' = Accepted (demo_host ''h2'' True)"
    using demo_session by (simp add: Let_def)
  moreover have "safe_loads (e_loads demo_session_env) ''A'' = Inr (JObj ?kvs)"
    by (simp add: safe_loads_def demo_session_env_def)
  moreover have "validate_ack demo_session_env ?kvs =
      Some \<lparr>ack_id = ''a1'', ack_state = Ack_applied, ack_error = None\<rparr>"
    by (simp add: validate_ack_def keys_within_def uuid_field_def demo_session_env_def demo_ws_env_def)
  moreover have "get_action ''a1'' (w_actions demo_two_hosts) = Some ?a"
    by (simp add: demo_two_hosts_def get_action_def demo_action_def)
  moreover have "act_host_id ?a \<noteq> Some (host_id (demo_host ''h2'' True))"
    by (simp add: demo_action_def demo_host_def)
  moreover have "int (length ''A'') \<le> ws_max_msg_bytes (e_settings demo_session_env)"
    "1 \<le> ws_max_msg_per_min (e_settings demo_session_env)"
    by (simp_all add: demo_session_env_def demo_ws_env_def default_settings_def)
  ultimately show ?thesis
    using foreign_ack_is_applied [where e = demo_session_env and w = demo_two_hosts and nonce = demo_nonce
        and hello = "''H''" and h = "demo_host ''h2'' True" and raw = "''A''" and kvs = ?kvs
        and ack = "\<lparr>ack_id = ''a1'', ack_state = Ack_applied, ack_error = None\<rparr>" and a = ?a
        and start = 0 and ws = 8 and th = 0 and t = 4]
    by (simp add: demo_two_hosts_def demo_action_def)
qed

lemma ws_loop_replicate:
  assumes "handle_frame e raw w = (Continue, w)" and "int (length raw) \<le> ws_max_msg_bytes (e_settings e)"
    and "t - start < 60" and "n + int k \<le> ws_max_msg_per_min (e_settings e)"
  shows "ws_loop e start n (replicate k (t, raw) @ msgs) w = ws_loop e start (n + int k) msgs w"
  using assms(4)
proof (induction k arbitrary: n)
  case (Suc k)
  have "ws_loop e start n (replicate (Suc k) (t, raw) @ msgs) w =
      ws_loop e start (n + 1) (replicate k (t, raw) @ msgs) w"
    using assms(1-3) Suc.prems by (simp add: Let_def)
  also have "\<dots> = ws_loop e start (n + int (Suc k)) msgs w"
    using Suc.IH [of "n + 1"] Suc.prems by (simp add: algebra_simps)
  finally show ?case .
qed simp

text \<open>
  The per-minute cap counts fixed windows, each opened by the first frame 60 seconds
  after the previous one: within a window every frame past the cap is without effect, but a
  burst at the end of one window followed by a burst at the start of the next lets twice
  the cap through within one second.
\<close>

theorem ws_rate_window:
  assumes "settings_ok (e_settings e)" and "L = ws_max_msg_per_min (e_settings e)"
  shows "((\<forall>m \<in> set msgs. fst m - t < 60) \<longrightarrow>
      snd (ws_loop e t 0 msgs w) = snd (ws_loop e t 0 (take (nat L) msgs) w)) \<and>
    (handle_frame e raw w = (Continue, w) \<longrightarrow> int (length raw) \<le> ws_max_msg_bytes (e_settings e) \<longrightarrow>
      fst (ws_loop e t 0 (replicate (nat L) (t + 59, raw) @ replicate (nat L) (t + 60, raw)) w) = None)"
proof -
  have L: "1 \<le> L" using assms by (simp add: settings_ok_def)
  have "snd (ws_loop e t 0 msgs w) = snd (ws_loop e t 0 (take (nat L) msgs) w)"
    if "\<forall>m \<in> set msgs. fst m - t < 60"
    using ws_loop_window [OF that, of 0 e w] L assms(2) by simp
  moreover have "fst (ws_loop e t 0 (replicate (nat L) (t + 59, raw) @ replicate (nat L) (t + 60, raw)) w) = None"
    if h: "handle_frame e raw w = (Continue, w)" and b: "int (length raw) \<le> ws_max_msg_bytes (e_settings e)"
  proof -
    obtain k where k: "nat L = Suc k" using L by (cases "nat L") auto
    have "ws_loop e t 0 (replicate (nat L) (t + 59, raw) @ replicate (nat L) (t + 60, raw)) w =
        ws_loop e t L (replicate (nat L) (t + 60, raw)) w"
      using ws_loop_replicate [OF h b, of "t + 59" t 0 "nat L"] L assms(2) by simp
    also have "\<dots> = ws_loop e (t + 60) 1 (replicate k (t + 60, raw)) w"
      unfolding k using h b L assms(2) by (simp add: Let_def)
    also have "\<dots> = (None, w)"
      using ws_loop_replicate [OF h b, of "t + 60" "t + 60" 1 k "[]"] L k assms(2) by simp
    finally show ?thesis by simp
  qed
  ultimately show ?thesis by blast
qed

theorem ws_rate_window_witness:
  "fst (ws_loop demo_session_env 0 0 (replicate 100 (0 + 59, ''zz'') @ replicate 100 (0 + 60, ''zz'')) demo_ws_world) = None"
proof -
  have "handle_frame demo_session_env ''zz'' demo_ws_world = (Continue, demo_ws_world)"
    by (simp add: handle_frame_def safe_loads_def demo_session_env_def)
  moreover have "e_settings demo_session_env = default_settings"
    by (simp add: demo_session_env_def demo_ws_env_def)
  moreover have "ws_max_msg_per_min default_settings = 100" "int (length ''zz'') \<le> ws_max_msg_bytes default_settings"
    by (simp_all add: default_settings_def)
  ultimately show ?thesis
    using ws_rate_window [where e = demo_session_env and L = 100 and msgs = "[]" and t = 0 and w = demo_ws_world and raw = "''zz''"]
      default_settings_ok
    by simp
qed

end
