(* ===== verification/Window.thy ===== *)
theory Window
  imports Prelude
begin

section \<open>The sliding-window contract\<close>

text \<open>
  Two components keep a sliding window per caller: the API rate limiter
  (\<open>rate_limit.py\<close>) and the throttle of the CSP report endpoint
  (\<open>self_defense/csp_violation_reporter.py\<close>).  Both drop old entries lazily and discard
  idle callers.  The abstract specification is a log of every accepted request: a request is
  accepted exactly when fewer than \<open>limit\<close> accepted requests of the same caller lie in
  the window that ends now.  The locale states what an implementation has to satisfy; in it,
  every implementation is shown to make the decisions of the log, and so to keep the bound
  in every window of that length.
\<close>

definition live :: "rat \<Rightarrow> rat \<Rightarrow> rat list \<Rightarrow> rat list" where
  "live window now hs = filter (\<lambda>h. now - window \<le> h) hs"

definition hist_ok :: "rat \<Rightarrow> rat list \<Rightarrow> bool" where
  "hist_ok now hs \<longleftrightarrow> sorted hs \<and> (\<forall>h \<in> set hs. h \<le> now)"

definition log_hits :: "('k \<times> rat) list \<Rightarrow> 'k \<Rightarrow> rat list" where
  "log_hits lg k = map snd (filter (\<lambda>e. fst e = k) lg)"

definition log_step :: "int \<Rightarrow> rat \<Rightarrow> 'k \<Rightarrow> rat \<Rightarrow> ('k \<times> rat) list \<Rightarrow> bool \<times> ('k \<times> rat) list" where
  "log_step limit window k now lg =
     (if int (length (live window now (log_hits lg k))) < limit then (True, lg @ [(k, now)])
      else (False, lg))"

fun decisions :: "('k \<Rightarrow> rat \<Rightarrow> 's \<Rightarrow> bool \<times> 's) \<Rightarrow> ('k \<times> rat) list \<Rightarrow> 's \<Rightarrow> bool list" where
  "decisions step [] s = []"
| "decisions step ((k, now) # reqs) s = fst (step k now s) # decisions step reqs (snd (step k now s))"

lemma decisions_Cons:
  "decisions step (r # reqs) s = fst (step (fst r) (snd r) s) # decisions step reqs (snd (step (fst r) (snd r) s))"
  by (cases r) simp

definition accepted :: "('k \<times> rat) list \<Rightarrow> bool list \<Rightarrow> ('k \<times> rat) list" where
  "accepted reqs ds = map fst (filter snd (zip reqs ds))"

lemma live_live: "now \<le> now' \<Longrightarrow> live w now' (live w now hs) = live w now' hs"
  by (induction hs) (auto simp: live_def)

lemma dropWhile_sorted_live: "sorted hs \<Longrightarrow> dropWhile (\<lambda>h. h < now - w) hs = live w now hs"
proof (induction hs)
  case (Cons h hs)
  show ?case
  proof (cases "h < now - w")
    case True
    with Cons show ?thesis by (simp add: live_def)
  next
    case False
    then have "\<forall>x \<in> set (h # hs). now - w \<le> x" using Cons.prems by fastforce
    then have "filter (\<lambda>h. now - w \<le> h) (h # hs) = h # hs" by (simp only: filter_True)
    with False show ?thesis unfolding live_def by simp
  qed
qed (simp add: live_def)

lemma length_live: "length (live w now hs) \<le> length hs"
  by (simp add: live_def)

lemma hist_ok_live: "hist_ok now hs \<Longrightarrow> hist_ok now (live w now hs)"
  by (auto simp: hist_ok_def live_def sorted_wrt_filter)

lemma hist_ok_later: "hist_ok now hs \<Longrightarrow> now \<le> now' \<Longrightarrow> hist_ok now' hs"
  by (auto simp: hist_ok_def)

lemma hist_ok_snoc: "hist_ok now hs \<Longrightarrow> hist_ok now (hs @ [now])"
  by (auto simp: hist_ok_def sorted_append)

lemma live_append: "live w now (hs @ ks) = live w now hs @ live w now ks"
  by (simp add: live_def)

lemma live_self: "0 \<le> w \<Longrightarrow> live w now [now] = [now]"
  by (simp add: live_def)

lemma log_hits_snoc: "log_hits (lg @ [(k, now)]) k' = log_hits lg k' @ (if k' = k then [now] else [])"
  by (auto simp: log_hits_def)

text \<open>The log keeps the bound: no closed window of the given length holds more than
  \<open>limit\<close> accepted requests of one caller.\<close>

definition window_count :: "rat \<Rightarrow> rat \<Rightarrow> rat list \<Rightarrow> nat" where
  "window_count window t hs = length (filter (\<lambda>h. t \<le> h \<and> h \<le> t + window) hs)"

definition log_bounded :: "int \<Rightarrow> rat \<Rightarrow> ('k \<times> rat) list \<Rightarrow> bool" where
  "log_bounded limit window lg \<longleftrightarrow> (\<forall>k t. int (window_count window t (log_hits lg k)) \<le> max 0 limit)"

lemma window_count_le_live:
  "t \<le> now \<Longrightarrow> now \<le> t + window \<Longrightarrow> window_count window t hs \<le> length (live window now hs)"
proof -
  assume "t \<le> now" "now \<le> t + window"
  then have "\<And>h. t \<le> h \<and> h \<le> t + window \<Longrightarrow> now - window \<le> h" by linarith
  then show ?thesis unfolding window_count_def live_def
    by (induction hs) auto
qed

lemma log_step_bounded:
  assumes "log_bounded limit window lg"
  shows "log_bounded limit window (snd (log_step limit window k now lg))"
proof (cases "int (length (live window now (log_hits lg k))) < limit")
  case True
  have "int (window_count window t (log_hits (lg @ [(k, now)]) k')) \<le> max 0 limit" for k' t
  proof (cases "k' = k \<and> t \<le> now \<and> now \<le> t + window")
    case inw: True
    then have "window_count window t (log_hits lg k) \<le> length (live window now (log_hits lg k))"
      by (simp add: window_count_le_live)
    then have "int (window_count window t (log_hits lg k)) + 1 \<le> limit" using True by linarith
    then show ?thesis using inw by (simp add: log_hits_snoc window_count_def)
  next
    case False
    then have "window_count window t (log_hits (lg @ [(k, now)]) k') = window_count window t (log_hits lg k')"
      by (auto simp: log_hits_snoc window_count_def)
    then show ?thesis using assms by (simp add: log_bounded_def)
  qed
  then show ?thesis using True by (simp add: log_step_def log_bounded_def)
next
  case False
  then show ?thesis using assms by (simp add: log_step_def)
qed

lemma accepted_simps [simp]:
  "accepted [] ds = []"
  "accepted (r # reqs) (b # ds) = (if b then r # accepted reqs ds else accepted reqs ds)"
  by (simp_all add: accepted_def)

lemma log_run_bounded:
  assumes "log_bounded limit window lg"
  shows "log_bounded limit window (lg @ accepted reqs (decisions (log_step limit window) reqs lg))"
  using assms
proof (induction reqs arbitrary: lg)
  case (Cons r reqs)
  obtain k now where r: "r = (k, now)" by (cases r)
  from Cons.IH [OF log_step_bounded [OF Cons.prems, of k now]]
  show ?case by (auto simp: r log_step_def split: if_split_asm)
qed simp

subsection \<open>The contract\<close>

locale window_limiter =
  fixes step :: "'k \<Rightarrow> rat \<Rightarrow> 's \<Rightarrow> bool \<times> 's" and hits :: "'s \<Rightarrow> 'k \<Rightarrow> rat list"
    and ok :: "'s \<Rightarrow> bool" and limit :: int and window :: rat
  assumes step_accept: "ok s \<Longrightarrow> (\<And>j. hist_ok now (hits s j)) \<Longrightarrow>
      fst (step k now s) = (int (length (live window now (hits s k))) < limit)"
    and step_live: "ok s \<Longrightarrow> (\<And>j. hist_ok now (hits s j)) \<Longrightarrow>
      live window now (hits (snd (step k now s)) j) =
        live window now (hits s j) @ (if j = k \<and> fst (step k now s) then [now] else [])"
    and step_hist: "ok s \<Longrightarrow> (\<And>j. hist_ok now (hits s j)) \<Longrightarrow> hist_ok now (hits (snd (step k now s)) j)"
    and step_ok: "ok s \<Longrightarrow> (\<And>j. hist_ok now (hits s j)) \<Longrightarrow> ok (snd (step k now s))"
    and window_nonneg: "0 \<le> window"
begin

definition refines :: "rat \<Rightarrow> 's \<Rightarrow> ('k \<times> rat) list \<Rightarrow> bool" where
  "refines now s lg \<longleftrightarrow> ok s \<and> (\<forall>k. hist_ok now (hits s k)) \<and>
     (\<forall>k. live window now (hits s k) = live window now (log_hits lg k))"

lemma refines_later: "refines now s lg \<Longrightarrow> now \<le> now' \<Longrightarrow> refines now' s lg"
  unfolding refines_def by (metis hist_ok_later live_live)

lemma refines_step:
  assumes "refines now s lg"
  shows "fst (step k now s) = fst (log_step limit window k now lg)"
    and "refines now (snd (step k now s)) (snd (log_step limit window k now lg))"
proof -
  from assms have s: "ok s" and h: "\<And>j. hist_ok now (hits s j)"
    and l: "\<And>j. live window now (hits s j) = live window now (log_hits lg j)"
    by (auto simp: refines_def)
  show eq: "fst (step k now s) = fst (log_step limit window k now lg)"
    using step_accept [OF s h] l by (simp add: log_step_def)
  have "live window now (hits (snd (step k now s)) j) =
      live window now (log_hits (snd (log_step limit window k now lg)) j)" for j
    using step_live [OF s h, of k j] l eq window_nonneg
    by (auto simp: log_step_def log_hits_snoc live_append live_self)
  then show "refines now (snd (step k now s)) (snd (log_step limit window k now lg))"
    using s h by (simp add: refines_def step_hist step_ok)
qed

lemma decisions_refine:
  assumes "refines now s lg" and "sorted (now # map snd reqs)"
  shows "decisions step reqs s = decisions (log_step limit window) reqs lg"
  using assms
proof (induction reqs arbitrary: now s lg)
  case (Cons r reqs)
  obtain k t where r: "r = (k, t)" by (cases r)
  have R: "refines t s lg" using Cons.prems refines_later by (simp add: r)
  show ?case
    using refines_step(1) [OF R, of k] Cons.IH [OF refines_step(2) [OF R, of k]] Cons.prems(2)
    by (simp add: r)
qed simp

theorem window_bound:
  assumes "refines now s []" and "sorted (now # map snd reqs)"
  shows "int (window_count window t (log_hits (accepted reqs (decisions step reqs s)) k)) \<le> max 0 limit"
proof -
  have "log_bounded limit window ([] :: ('k \<times> rat) list)"
    by (simp add: log_bounded_def log_hits_def window_count_def)
  from log_run_bounded [OF this, of reqs] show ?thesis
    using decisions_refine [OF assms] by (simp add: log_bounded_def)
qed

end

end
