(* ===== verification/Rate_Limit.thy ===== *)
theory Rate_Limit
  imports Window Config
begin

section \<open>The API rate limiter\<close>

text \<open>
  \<open>rate_limit.py\<close>: one bucket of accepted request times per caller, created on first
  use and discarded by a sweep every 256 requests.  A dispatch is the whole middleware call;
  the clock is its argument.  With a budget below one the code would index an empty deque
  (\<open>IndexError\<close>); the settings exclude that value.
\<close>

record bucket =
  b_hits :: "rat list"
  b_window_sec :: rat
  b_limit :: int

datatype index_error = IndexError

definition popleft_old :: "rat \<Rightarrow> rat list \<Rightarrow> rat list" where
  \<comment> \<open>\<open>while hits and hits[0] < cutoff: hits.popleft()\<close>\<close>
  "popleft_old cutoff hs = dropWhile (\<lambda>h. h < cutoff) hs"

definition bucket_allow :: "rat \<Rightarrow> bucket \<Rightarrow> (index_error + bool \<times> rat) \<times> bucket" where
  "bucket_allow now b =
     (let hs = popleft_old (now - b_window_sec b) (b_hits b)
      in if int (length hs) \<ge> b_limit b
         then (case hs of
                 [] \<Rightarrow> (Inl IndexError, b\<lparr>b_hits := hs\<rparr>)
               | h # _ \<Rightarrow> (Inr (False, max 0 (h + b_window_sec b - now)), b\<lparr>b_hits := hs\<rparr>))
         else (Inr (True, 0), b\<lparr>b_hits := hs @ [now]\<rparr>))"

record limiter =
  buckets :: "bucket str_dict"
  accepted_since_prune :: int
  rl_enabled :: bool
  rl_limit :: int

definition WINDOW_SEC :: rat where
  "WINDOW_SEC = 60"

definition PRUNE_EVERY :: int where
  "PRUNE_EVERY = 256"

definition new_limiter :: "settings \<Rightarrow> limiter" where
  "new_limiter s = \<lparr>buckets = [], accepted_since_prune = 0, rl_enabled = rate_limit_enabled s,
     rl_limit = rate_limit_per_min s\<rparr>"

definition prune :: "rat \<Rightarrow> bucket str_dict \<Rightarrow> bucket str_dict" where
  "prune now bs =
     filter (\<lambda>kb. b_hits (snd kb) \<noteq> [])
       (map (\<lambda>(k, b). (k, b\<lparr>b_hits := popleft_old (now - WINDOW_SEC) (b_hits b)\<rparr>)) bs)"

definition rate_check :: "rat \<Rightarrow> string \<Rightarrow> limiter \<Rightarrow> (index_error + bool \<times> rat) \<times> limiter" where
  \<comment> \<open>the block under \<open>self._lock\<close>\<close>
  "rate_check now key m =
     (let b = (case map_of (buckets m) key of
                 None \<Rightarrow> \<lparr>b_hits = [], b_window_sec = WINDOW_SEC, b_limit = rl_limit m\<rparr>
               | Some b \<Rightarrow> b)
      in case bucket_allow now b of
           (Inl e, b') \<Rightarrow> (Inl e, m\<lparr>buckets := dict_set key b' (buckets m)\<rparr>)
         | (Inr r, b') \<Rightarrow>
             let n = accepted_since_prune m + 1; bs = dict_set key b' (buckets m)
             in (Inr r, if n \<ge> PRUNE_EVERY
                        then m\<lparr>buckets := prune now bs, accepted_since_prune := 0\<rparr>
                        else m\<lparr>buckets := bs, accepted_since_prune := n\<rparr>))"

record http_request =
  req_path :: string
  req_method :: string
  req_headers :: "string str_dict"     \<comment> \<open>lower-case names\<close>
  req_client :: "string option"

definition header :: "http_request \<Rightarrow> string \<Rightarrow> string \<Rightarrow> string" where
  "header r h d = dict_get (req_headers r) h d"

definition is_excluded :: "string \<Rightarrow> bool" where
  "is_excluded path \<longleftrightarrow>
     path \<in> {''/'', ''/index.html''} \<or>
     list_ex (py_startswith path) [''/healthz'', ''/readyz'', ''/static/'']"

definition bucket_key :: "http_request \<Rightarrow> string" where
  "bucket_key r =
     (let presented = py_strip (header r ''x-api-key'' '''')
      in if presented \<noteq> [] then ''key:'' @ presented
         else case req_client r of
                Some h \<Rightarrow> if h \<noteq> [] then ''ip:'' @ h else ''anonymous''
              | None \<Rightarrow> ''anonymous'')"

datatype rl_response =
  Pass                     \<comment> \<open>\<open>call_next(request)\<close>\<close>
| TooManyRequests int int  \<comment> \<open>429 with \<open>limit_per_min\<close> and \<open>retry_after_sec\<close>\<close>
| Raised index_error

definition retry_seconds :: "rat \<Rightarrow> int" where
  "retry_seconds retry_after = max 1 \<lfloor>retry_after + 999 / 1000\<rfloor>"

definition rate_dispatch :: "rat \<Rightarrow> http_request \<Rightarrow> limiter \<Rightarrow> rl_response \<times> limiter" where
  "rate_dispatch now r m =
     (if \<not> rl_enabled m then (Pass, m)
      else if is_excluded (req_path r) then (Pass, m)
      else case rate_check now (bucket_key r) m of
             (Inl e, m') \<Rightarrow> (Raised e, m')
           | (Inr (True, _), m') \<Rightarrow> (Pass, m')
           | (Inr (False, retry_after), m') \<Rightarrow>
               (TooManyRequests (rl_limit m) (retry_seconds retry_after), m'))"

subsection \<open>The limiter meets the sliding-window contract\<close>

definition bucket_hits :: "limiter \<Rightarrow> string \<Rightarrow> rat list" where
  "bucket_hits m k = (case map_of (buckets m) k of None \<Rightarrow> [] | Some b \<Rightarrow> b_hits b)"

definition limiter_ok :: "int \<Rightarrow> limiter \<Rightarrow> bool" where
  "limiter_ok L m \<longleftrightarrow> rl_limit m = L \<and> distinct (map fst (buckets m)) \<and>
     (\<forall>b \<in> snd ` set (buckets m). b_window_sec b = WINDOW_SEC \<and> b_limit b = L \<and>
        int (length (b_hits b)) \<le> max 0 L)"

definition check_passes :: "string \<Rightarrow> rat \<Rightarrow> limiter \<Rightarrow> bool \<times> limiter" where
  "check_passes k now m = (case rate_check now k m of
     (Inr (True, _), m') \<Rightarrow> (True, m') | (_, m') \<Rightarrow> (False, m'))"

lemma popleft_old_live: "hist_ok now hs \<Longrightarrow> popleft_old (now - w) hs = live w now hs"
  by (simp add: popleft_old_def dropWhile_sorted_live hist_ok_def)

lemma bucket_allow_hist:
  assumes "hist_ok now (b_hits b)"
  shows "bucket_allow now b =
    (let hs = live (b_window_sec b) now (b_hits b) in
      (if int (length hs) < b_limit b then Inr (True, 0)
       else case hs of [] \<Rightarrow> Inl IndexError | h # _ \<Rightarrow> Inr (False, h + b_window_sec b - now),
       b\<lparr>b_hits := (if int (length hs) < b_limit b then hs @ [now] else hs)\<rparr>))"
proof -
  have "0 \<le> h + b_window_sec b - now" if "live (b_window_sec b) now (b_hits b) = h # hs" for h hs
  proof -
    have "h \<in> set (live (b_window_sec b) now (b_hits b))" by (simp add: that)
    then show ?thesis by (simp add: live_def)
  qed
  then show ?thesis
    by (auto simp: bucket_allow_def popleft_old_live [OF assms] Let_def max_def not_le split: list.split)
qed

lemma map_of_prune:
  "distinct (map fst bs) \<Longrightarrow> map_of (prune now bs) k =
     (case map_of bs k of None \<Rightarrow> None
      | Some b \<Rightarrow> let hs = popleft_old (now - WINDOW_SEC) (b_hits b)
                 in if hs = [] then None else Some (b\<lparr>b_hits := hs\<rparr>))"
proof (induction bs)
  case (Cons e bs)
  obtain j b where e: "e = (j, b)" by (cases e)
  have "map_of bs j = None" using Cons.prems by (simp add: e map_of_eq_None_iff)
  with Cons show ?case by (auto simp: prune_def e Let_def)
qed (simp add: prune_def)

lemma limiter_ok_prune: "limiter_ok L m \<Longrightarrow> limiter_ok L (m\<lparr>buckets := prune now (buckets m), accepted_since_prune := n\<rparr>)"
proof -
  assume ok: "limiter_ok L m"
  have "map fst (prune now bs) = map fst (filter (\<lambda>kb. popleft_old (now - WINDOW_SEC) (b_hits (snd kb)) \<noteq> []) bs)" for bs
    by (induction bs) (auto simp: prune_def)
  then have "distinct (map fst (prune now (buckets m)))"
    using ok by (simp add: limiter_ok_def distinct_map_filter)
  moreover have "int (length (popleft_old c hs)) \<le> max 0 L" if "int (length hs) \<le> max 0 L" for c hs
    using that length_dropWhile_le [of "\<lambda>h. h < c" hs] by (simp add: popleft_old_def)
  ultimately show ?thesis using ok by (fastforce simp: limiter_ok_def prune_def)
qed

lemma limiter_ok_set:
  "limiter_ok L m \<Longrightarrow> b_window_sec b = WINDOW_SEC \<Longrightarrow> b_limit b = L \<Longrightarrow>
   int (length (b_hits b)) \<le> max 0 L \<Longrightarrow>
   limiter_ok L (m\<lparr>buckets := dict_set k b (buckets m), accepted_since_prune := n\<rparr>)"
  using set_dict_set_subset [of k b "buckets m"]
  by (auto simp: limiter_ok_def distinct_dict_set)

definition bucket_of :: "limiter \<Rightarrow> string \<Rightarrow> bucket" where
  "bucket_of m k = (case map_of (buckets m) k of
     None \<Rightarrow> \<lparr>b_hits = [], b_window_sec = WINDOW_SEC, b_limit = rl_limit m\<rparr> | Some b \<Rightarrow> b)"

lemma bucket_of_ok:
  assumes "limiter_ok L m"
  shows "b_hits (bucket_of m k) = bucket_hits m k" "b_window_sec (bucket_of m k) = WINDOW_SEC"
    "b_limit (bucket_of m k) = L"
proof -
  have "b_window_sec b = WINDOW_SEC \<and> b_limit b = L" if "map_of (buckets m) k = Some b" for b
    using assms map_of_SomeD [OF that] by (force simp: limiter_ok_def)
  then show "b_hits (bucket_of m k) = bucket_hits m k" "b_window_sec (bucket_of m k) = WINDOW_SEC"
    "b_limit (bucket_of m k) = L"
    using assms by (auto simp: bucket_of_def bucket_hits_def limiter_ok_def split: option.split)
qed

lemma rate_check_result:
  assumes "limiter_ok L m" and "hist_ok now (bucket_hits m k)"
  shows "fst (rate_check now k m) =
    (let hs = live WINDOW_SEC now (bucket_hits m k) in
      if int (length hs) < L then Inr (True, 0)
      else case hs of [] \<Rightarrow> Inl IndexError | h # _ \<Rightarrow> Inr (False, h + WINDOW_SEC - now))"
proof -
  have "fst (rate_check now k m) = fst (bucket_allow now (bucket_of m k))"
    by (auto simp: rate_check_def bucket_of_def Let_def split: prod.split sum.split)
  then show ?thesis
    using bucket_allow_hist [of now "bucket_of m k"] assms(2) bucket_of_ok [OF assms(1), of k]
    by (auto simp: Let_def split: list.split)
qed

lemma rate_check_state:
  assumes "limiter_ok L m" and "hist_ok now (bucket_hits m k)"
  shows "\<exists>b n bs. snd (rate_check now k m) = m\<lparr>buckets := bs, accepted_since_prune := n\<rparr> \<and>
    b_window_sec b = WINDOW_SEC \<and> b_limit b = L \<and>
    b_hits b = live WINDOW_SEC now (bucket_hits m k) @
      (if int (length (live WINDOW_SEC now (bucket_hits m k))) < L then [now] else []) \<and>
    (bs = dict_set k b (buckets m) \<or> bs = prune now (dict_set k b (buckets m)))"
proof -
  let ?b = "snd (bucket_allow now (bucket_of m k))"
  have f: "b_window_sec ?b = WINDOW_SEC" "b_limit ?b = L"
    "b_hits ?b = live WINDOW_SEC now (bucket_hits m k) @
      (if int (length (live WINDOW_SEC now (bucket_hits m k))) < L then [now] else [])"
    using bucket_allow_hist [of now "bucket_of m k"] assms(2) bucket_of_ok [OF assms(1)]
    by (simp_all add: Let_def)
  have "\<exists>n bs. snd (rate_check now k m) = m\<lparr>buckets := bs, accepted_since_prune := n\<rparr> \<and>
    (bs = dict_set k ?b (buckets m) \<or> bs = prune now (dict_set k ?b (buckets m)))"
  proof (cases "bucket_allow now (bucket_of m k)")
    case (Pair r b')
    then have eq: "snd (rate_check now k m) = (case r of
        Inl e \<Rightarrow> m\<lparr>buckets := dict_set k b' (buckets m)\<rparr>
      | Inr _ \<Rightarrow> if accepted_since_prune m + 1 \<ge> PRUNE_EVERY
          then m\<lparr>buckets := prune now (dict_set k b' (buckets m)), accepted_since_prune := 0\<rparr>
          else m\<lparr>buckets := dict_set k b' (buckets m), accepted_since_prune := accepted_since_prune m + 1\<rparr>)"
      by (auto simp: rate_check_def bucket_of_def Let_def split: option.splits sum.split)
    show ?thesis
    proof (cases r)
      case (Inl e)
      then have "snd (rate_check now k m) = m\<lparr>buckets := dict_set k b' (buckets m), accepted_since_prune := accepted_since_prune m\<rparr>"
        by (simp add: eq)
      then show ?thesis unfolding Pair snd_conv by blast
    next
      case (Inr x)
      then show ?thesis by (auto simp: eq Pair)
    qed
  qed
  with f show ?thesis by metis
qed

lemma bucket_hits_set:
  "bucket_hits (m\<lparr>buckets := dict_set k b bs, accepted_since_prune := n\<rparr>) j =
     (if j = k then b_hits b else bucket_hits (m\<lparr>buckets := bs\<rparr>) j)"
  by (simp add: bucket_hits_def)

lemma bucket_hits_prune:
  "distinct (map fst bs) \<Longrightarrow> hist_ok now (bucket_hits (m\<lparr>buckets := bs, accepted_since_prune := n\<rparr>) j) \<Longrightarrow>
   bucket_hits (m\<lparr>buckets := prune now bs, accepted_since_prune := n\<rparr>) j =
     live WINDOW_SEC now (bucket_hits (m\<lparr>buckets := bs, accepted_since_prune := n\<rparr>) j)"
  by (cases "map_of bs j") (simp_all add: bucket_hits_def map_of_prune popleft_old_live Let_def, simp add: live_def)

lemma check_passes_fst:
  "fst (check_passes k now m) \<longleftrightarrow> (\<exists>r. fst (rate_check now k m) = Inr (True, r))"
  by (auto simp: check_passes_def split: prod.split sum.split bool.split)

lemma check_passes_snd: "snd (check_passes k now m) = snd (rate_check now k m)"
  by (auto simp: check_passes_def split: prod.split sum.split bool.split)

lemma check_passes_accept:
  "limiter_ok L m \<Longrightarrow> hist_ok now (bucket_hits m k) \<Longrightarrow>
   fst (check_passes k now m) \<longleftrightarrow> int (length (live WINDOW_SEC now (bucket_hits m k))) < L"
  by (simp add: check_passes_fst rate_check_result Let_def split: list.split)

lemma check_passes_hits:
  assumes m: "limiter_ok L m" and h: "\<And>j. hist_ok now (bucket_hits m j)"
  shows "limiter_ok L (snd (check_passes k now m))"
    and "hist_ok now (bucket_hits (snd (check_passes k now m)) j)"
    and "live WINDOW_SEC now (bucket_hits (snd (check_passes k now m)) j) =
      live WINDOW_SEC now (bucket_hits m j) @ (if j = k \<and> fst (check_passes k now m) then [now] else [])"
proof -
  let ?hs = "live WINDOW_SEC now (bucket_hits m k) @
      (if int (length (live WINDOW_SEC now (bucket_hits m k))) < L then [now] else [])"
  from rate_check_state [OF m h] obtain b n bs where
    s: "snd (rate_check now k m) = m\<lparr>buckets := bs, accepted_since_prune := n\<rparr>" and
    b: "b_window_sec b = WINDOW_SEC" "b_limit b = L" "b_hits b = ?hs" and
    bs: "bs = dict_set k b (buckets m) \<or> bs = prune now (dict_set k b (buckets m))" by blast
  let ?m1 = "m\<lparr>buckets := dict_set k b (buckets m), accepted_since_prune := n\<rparr>"
  have "int (length (bucket_hits m k)) \<le> max 0 L"
    using m by (auto simp: limiter_ok_def bucket_hits_def split: option.split dest!: map_of_SomeD)
  then have "int (length (b_hits b)) \<le> max 0 L"
    using length_live [of WINDOW_SEC now "bucket_hits m k"] by (auto simp: b(3))
  then have ok1: "limiter_ok L ?m1" using limiter_ok_set [OF m b(1,2)] by simp
  have hist: "hist_ok now ?hs" using h hist_ok_live hist_ok_snoc by auto
  have hits1: "bucket_hits ?m1 j = (if j = k then ?hs else bucket_hits m j)" for j
    using b(3) by (simp add: bucket_hits_set)
  have h1: "hist_ok now (bucket_hits ?m1 j)" for j using hist h by (simp add: hits1)
  have d: "distinct (map fst (dict_set k b (buckets m)))" using ok1 by (simp add: limiter_ok_def)
  have w: "0 \<le> WINDOW_SEC" by (simp add: WINDOW_SEC_def)
  have l1: "live WINDOW_SEC now (bucket_hits ?m1 j) =
      live WINDOW_SEC now (bucket_hits m j) @ (if j = k \<and> fst (check_passes k now m) then [now] else [])" for j
    using check_passes_accept [OF m h, of k]
    by (auto simp: hits1 live_append live_live live_self [OF w])
  show "limiter_ok L (snd (check_passes k now m))"
    using bs ok1 limiter_ok_prune [OF ok1, where now = now and n = n] by (auto simp: check_passes_snd s)
  have sel: "bucket_hits (snd (check_passes k now m)) j =
      (if bs = dict_set k b (buckets m) then bucket_hits ?m1 j else live WINDOW_SEC now (bucket_hits ?m1 j))" for j
    using bs bucket_hits_prune [OF d h1] by (auto simp: check_passes_snd s)
  show "hist_ok now (bucket_hits (snd (check_passes k now m)) j)"
    using h1 hist_ok_live by (simp add: sel)
  show "live WINDOW_SEC now (bucket_hits (snd (check_passes k now m)) j) =
      live WINDOW_SEC now (bucket_hits m j) @ (if j = k \<and> fst (check_passes k now m) then [now] else [])"
    unfolding l1 [symmetric] sel by (simp add: live_live)
qed

interpretation limiter: window_limiter check_passes bucket_hits "limiter_ok L" L WINDOW_SEC for L
proof unfold_locales
  show "0 \<le> WINDOW_SEC" by (simp add: WINDOW_SEC_def)
  fix s now k j
  assume ok: "limiter_ok L s" and h: "\<And>j. hist_ok now (bucket_hits s j)"
  show "fst (check_passes k now s) = (int (length (live WINDOW_SEC now (bucket_hits s k))) < L)"
    using ok h by (rule check_passes_accept)
  show "hist_ok now (bucket_hits (snd (check_passes k now s)) j)"
    using ok h by (rule check_passes_hits)
  show "live WINDOW_SEC now (bucket_hits (snd (check_passes k now s)) j) =
      live WINDOW_SEC now (bucket_hits s j) @ (if j = k \<and> fst (check_passes k now s) then [now] else [])"
    using ok h by (rule check_passes_hits)
  show "limiter_ok L (snd (check_passes k now s))"
    using ok h by (rule check_passes_hits)
qed

subsection \<open>Runs of the middleware\<close>

fun rate_run :: "(rat \<times> http_request) list \<Rightarrow> limiter \<Rightarrow> ((rat \<times> http_request) \<times> rl_response) list" where
  "rate_run [] m = []"
| "rate_run ((now, r) # reqs) m =
     ((now, r), fst (rate_dispatch now r m)) # rate_run reqs (snd (rate_dispatch now r m))"

fun rate_state :: "(rat \<times> http_request) list \<Rightarrow> limiter \<Rightarrow> limiter" where
  "rate_state [] m = m"
| "rate_state ((now, r) # reqs) m = rate_state reqs (snd (rate_dispatch now r m))"

definition counted :: "rat \<times> http_request \<Rightarrow> bool" where
  "counted r \<longleftrightarrow> \<not> is_excluded (req_path (snd r))"

definition rate_key :: "rat \<times> http_request \<Rightarrow> string \<times> rat" where
  "rate_key r = (bucket_key (snd r), fst r)"

lemma rate_dispatch_excluded: "\<not> counted (now, r) \<Longrightarrow> rate_dispatch now r m = (Pass, m)"
  by (simp add: rate_dispatch_def counted_def)

lemma rate_dispatch_counted:
  assumes "counted (now, r)" and "rl_enabled m"
  shows "snd (rate_dispatch now r m) = snd (check_passes (bucket_key r) now m)"
    and "fst (rate_dispatch now r m) = Pass \<longleftrightarrow> fst (check_passes (bucket_key r) now m)"
  using assms
  by (auto simp: rate_dispatch_def counted_def check_passes_def split: prod.split sum.split bool.split)

lemma rate_run_counted: "filter (\<lambda>e. counted (fst e)) (rate_run reqs m) = rate_run (filter counted reqs) m"
  by (induction reqs m rule: rate_run.induct) (auto simp: rate_dispatch_excluded)

lemma rate_run_excluded: "e \<in> set (rate_run reqs m) \<Longrightarrow> \<not> counted (fst e) \<Longrightarrow> snd e = Pass"
  by (induction reqs m rule: rate_run.induct) (auto simp: rate_dispatch_excluded)

lemma rl_enabled_check: "rl_enabled (snd (check_passes k now m)) = rl_enabled m"
  by (auto simp: check_passes_snd rate_check_def Let_def split: prod.split sum.split)

lemma not_raised:
  assumes "limiter.refines L now m lg" and "1 \<le> L"
  shows "fst (rate_dispatch now r m) \<noteq> Raised e"
proof -
  have "\<forall>x. fst (rate_check now (bucket_key r) m) \<noteq> Inl x"
    using assms rate_check_result [of L m now "bucket_key r"]
    by (auto simp: limiter.refines_def Let_def split: list.split)
  then show ?thesis
    by (auto simp: rate_dispatch_def split: prod.split sum.split bool.split)
qed

lemma rate_run_spec:
  assumes "limiter.refines L now m lg" and "rl_enabled m" and "1 \<le> L"
    and "sorted (now # map fst reqs)" and "list_all counted reqs"
  shows "map (\<lambda>e. snd e = Pass) (rate_run reqs m) = decisions (log_step L WINDOW_SEC) (map rate_key reqs) lg \<and>
    (\<forall>e x. e \<in> set (rate_run reqs m) \<longrightarrow> snd e \<noteq> Raised x)"
  using assms
proof (induction reqs arbitrary: now m lg)
  case (Cons q reqs)
  obtain t r where q: "q = (t, r)" by (cases q)
  have R: "limiter.refines L t m lg" using Cons.prems(1,4) limiter.refines_later by (simp add: q)
  have c: "counted (t, r)" using Cons.prems(5) by (simp add: q)
  note d = rate_dispatch_counted [OF c Cons.prems(2)]
  note st = limiter.refines_step [OF R, of "bucket_key r"]
  have "sorted (t # map fst reqs)" "list_all counted reqs" using Cons.prems(4,5) by (simp_all add: q)
  from Cons.IH [OF st(2) _ Cons.prems(3) this] d(1) Cons.prems(2)
  show ?case using d st(1) not_raised [OF R Cons.prems(3), of r] by (simp add: q rate_key_def rl_enabled_check)
qed simp

lemma rate_state_refines:
  assumes "limiter.refines L now m lg" and "rl_enabled m" and "sorted (now # map fst reqs @ [t])"
  shows "\<exists>lg'. limiter.refines L t (rate_state reqs m) lg'"
  using assms
proof (induction reqs arbitrary: now m lg)
  case Nil
  then have "limiter.refines L t m lg" by (auto intro: limiter.refines_later)
  then show ?case by auto
next
  case (Cons q reqs)
  obtain s r where q: "q = (s, r)" by (cases q)
  have R: "limiter.refines L s m lg" using Cons.prems(1,3) limiter.refines_later by (simp add: q)
  have srt: "sorted (s # map fst reqs @ [t])" using Cons.prems(3) by (simp add: q)
  show ?case
  proof (cases "counted (s, r)")
    case True
    from Cons.IH [OF limiter.refines_step(2) [OF R, of "bucket_key r"] _ srt]
    show ?thesis using rate_dispatch_counted(1) [OF True Cons.prems(2)] Cons.prems(2)
      by (simp add: q rl_enabled_check)
  next
    case False
    then show ?thesis using Cons.IH [OF R Cons.prems(2) srt] by (simp add: q rate_dispatch_excluded)
  qed
qed

lemma new_limiter_refines: "limiter.refines (rate_limit_per_min st) t (new_limiter st) []"
  by (auto simp: limiter.refines_def limiter_ok_def new_limiter_def bucket_hits_def hist_ok_def live_def log_hits_def)

lemma accepted_passed:
  "accepted (map rate_key reqs) (map (\<lambda>e. snd e = Pass) (rate_run reqs m)) =
   map (rate_key \<circ> fst) (filter (\<lambda>e. snd e = Pass) (rate_run reqs m))"
  by (induction reqs m rule: rate_run.induct) auto

text \<open>
  C17: Over any sequence of requests in time order, probes and static files always pass
  and never touch a bucket; every other request is decided exactly as by a complete log of
  the accepted requests (fewer than the budget from the same caller in the last 60
  seconds), in spite of lazy expiry and of the sweep that throws idle buckets away; no
  closed 60-second window holds more passed requests of one caller than the budget; and the
  middleware never raises.
\<close>

theorem rate_limiter_exact:
  assumes "settings_ok st" and "rate_limit_enabled st" and "sorted (map fst reqs)"
  defines "res \<equiv> rate_run reqs (new_limiter st)"
    and "sub \<equiv> filter counted reqs"
  shows "(\<forall>e \<in> set res. \<not> counted (fst e) \<longrightarrow> snd e = Pass) \<and>
    (\<forall>e \<in> set res. \<forall>x. snd e \<noteq> Raised x) \<and>
    map (\<lambda>e. snd e = Pass) (filter (\<lambda>e. counted (fst e)) res) =
      decisions (log_step (rate_limit_per_min st) 60) (map rate_key sub) [] \<and>
    (\<forall>k t. int (window_count 60 t (log_hits (map (rate_key \<circ> fst)
        (filter (\<lambda>e. counted (fst e) \<and> snd e = Pass) res)) k)) \<le> rate_limit_per_min st)"
proof -
  let ?L = "rate_limit_per_min st" and ?m = "new_limiter st"
  have L: "1 \<le> ?L" using assms(1) by (simp add: settings_ok_def)
  have en: "rl_enabled ?m" using assms(2) by (simp add: new_limiter_def)
  define t where "t = (case reqs of [] \<Rightarrow> 0 | q # _ \<Rightarrow> fst q)"
  have srt: "sorted (t # map fst sub)"
  proof -
    have "\<forall>q \<in> set reqs. t \<le> fst q" using assms(3) by (cases reqs) (auto simp: t_def)
    moreover have "sorted (map fst sub)" using assms(3) by (simp add: sub_def sorted_filter)
    ultimately show ?thesis by (auto simp: sub_def)
  qed
  have spec: "map (\<lambda>e. snd e = Pass) (rate_run sub ?m) = decisions (log_step ?L WINDOW_SEC) (map rate_key sub) []"
    and nr: "\<forall>e x. e \<in> set (rate_run sub ?m) \<longrightarrow> snd e \<noteq> Raised x"
    using rate_run_spec [OF new_limiter_refines en L srt] by (auto simp: sub_def list_all_iff)
  have dec: "decisions check_passes (map rate_key sub) ?m = decisions (log_step ?L WINDOW_SEC) (map rate_key sub) []"
    using limiter.decisions_refine [OF new_limiter_refines, where reqs = "map rate_key sub" and now = t] srt
    by (simp add: rate_key_def comp_def)
  have "int (window_count WINDOW_SEC u (log_hits (accepted (map rate_key sub)
      (decisions check_passes (map rate_key sub) ?m)) k)) \<le> max 0 ?L" for u k
    using limiter.window_bound [OF new_limiter_refines, where reqs = "map rate_key sub" and t = u and k = k and now = t] srt
    by (simp add: rate_key_def comp_def)
  then have b: "int (window_count 60 u (log_hits (map (rate_key \<circ> fst)
      (filter (\<lambda>e. snd e = Pass) (rate_run sub ?m))) k)) \<le> ?L" for u k
    using L accepted_passed [of sub ?m] by (simp add: dec spec WINDOW_SEC_def)
  have sub: "filter (\<lambda>e. counted (fst e)) res = rate_run sub ?m"
    by (simp add: res_def sub_def rate_run_counted)
  have f: "filter (\<lambda>e. counted (fst e) \<and> snd e = Pass) res = filter (\<lambda>e. snd e = Pass) (rate_run sub ?m)"
    by (simp add: sub [symmetric] conj_commute)
  have "snd e \<noteq> Raised x" if "e \<in> set res" for e x
  proof (cases "counted (fst e)")
    case True
    then have "e \<in> set (rate_run sub ?m)" using that unfolding sub [symmetric] by simp
    then show ?thesis using nr by blast
  next
    case False
    then show ?thesis using that rate_run_excluded [of e reqs ?m] by (simp add: res_def)
  qed
  then show ?thesis
    using rate_run_excluded [of _ reqs ?m] spec b unfolding f sub by (auto simp: res_def WINDOW_SEC_def)
qed

definition demo_request :: "string \<Rightarrow> http_request" where
  "demo_request path = \<lparr>req_path = path, req_method = ''GET'', req_headers = [(''x-api-key'', ''k1'')],
     req_client = None\<rparr>"

definition demo_limits :: settings where
  "demo_limits = default_settings\<lparr>rate_limit_per_min := 2\<rparr>"

definition demo_requests :: "(rat \<times> http_request) list" where
  "demo_requests = [(0, demo_request ''/api''), (1, demo_request ''/healthz''), (2, demo_request ''/api''),
     (3, demo_request ''/api''), (61, demo_request ''/api'')]"

lemma demo_rate_run: "map snd (rate_run demo_requests (new_limiter demo_limits)) =
    [Pass, Pass, Pass, TooManyRequests 2 57, Pass]"
  by code_simp

theorem rate_limiter_exact_witness:
  "map snd (rate_run demo_requests (new_limiter demo_limits)) = [Pass, Pass, Pass, TooManyRequests 2 57, Pass] \<and>
   int (window_count 60 0 (log_hits (map (rate_key \<circ> fst)
      (filter (\<lambda>e. counted (fst e) \<and> snd e = Pass) (rate_run demo_requests (new_limiter demo_limits)))) ''key:k1'')) \<le> 2"
proof -
  have "settings_ok demo_limits" "rate_limit_enabled demo_limits" "rate_limit_per_min demo_limits = 2"
    using default_settings_ok by (simp_all add: demo_limits_def settings_ok_def default_settings_def)
  moreover have "sorted (map fst demo_requests)" by (simp add: demo_requests_def)
  ultimately show ?thesis
    using rate_limiter_exact [of demo_limits demo_requests] demo_rate_run by presburger
qed

text \<open>
  The wait a rejected caller is told is the exact one: in every state the middleware
  can reach, after a rejection with \<open>retry_after\<close> \<open>r\<close> a next request of the same
  caller at a later time passes if and only if strictly more than \<open>r\<close> seconds have gone
  by.  The header value is at least one second and at most a millisecond short of \<open>r\<close>,
  so a client that waits exactly the announced whole number of seconds may be refused
  once more.
\<close>

theorem retry_after_tight:
  assumes "settings_ok st" and "rate_limit_enabled st" and "sorted (map fst reqs @ [now, t])"
    and "fst (rate_check now k (rate_state reqs (new_limiter st))) = Inr (False, r)"
  shows "(fst (check_passes k t (snd (rate_check now k (rate_state reqs (new_limiter st))))) \<longleftrightarrow> now + r < t) \<and>
    1 \<le> retry_seconds r \<and> r - 1 / 1000 < of_int (retry_seconds r)"
proof -
  let ?L = "rate_limit_per_min st" and ?m = "rate_state reqs (new_limiter st)"
  let ?m1 = "snd (check_passes k now ?m)"
  have L: "1 \<le> ?L" using assms(1) by (simp add: settings_ok_def)
  define u where "u = (case reqs of [] \<Rightarrow> now | q # _ \<Rightarrow> fst q)"
  have "sorted (u # map fst reqs @ [now])" using assms(3) by (cases reqs) (auto simp: u_def sorted_append)
  then obtain lg where R: "limiter.refines ?L now ?m lg"
    using rate_state_refines [OF new_limiter_refines] assms(2) by (fastforce simp: new_limiter_def)
  from R have ok: "limiter_ok ?L ?m" and h: "\<And>j. hist_ok now (bucket_hits ?m j)"
    by (auto simp: limiter.refines_def)
  obtain x hs where live: "live WINDOW_SEC now (bucket_hits ?m k) = x # hs"
    and full: "\<not> int (length (x # hs)) < ?L" and r: "r = x + WINDOW_SEC - now"
    using assms(4) rate_check_result [OF ok h, of k]
    by (auto simp: Let_def split: if_split_asm list.split_asm)
  have le: "now \<le> t" using assms(3) by (simp add: sorted_append)
  have ok1: "limiter_ok ?L ?m1" and h1: "\<And>j. hist_ok t (bucket_hits ?m1 j)"
    using check_passes_hits(1,2) [OF ok h] hist_ok_later [OF _ le] by blast+
  have rej: "\<not> fst (check_passes k now ?m)" using check_passes_accept [OF ok h] live full by simp
  have l1: "live WINDOW_SEC now (bucket_hits ?m1 k) = x # hs"
    using check_passes_hits(3) [OF ok h, of k k] live rej by simp
  then have lt: "live WINDOW_SEC t (bucket_hits ?m1 k) = live WINDOW_SEC t (x # hs)"
    using live_live [OF le, of WINDOW_SEC "bucket_hits ?m1 k"] by simp
  have len: "int (length (x # hs)) \<le> ?L"
  proof -
    have "int (length (bucket_hits ?m k)) \<le> max 0 ?L"
      using ok by (auto simp: limiter_ok_def bucket_hits_def split: option.split dest!: map_of_SomeD)
    then show ?thesis
      using L length_live [of WINDOW_SEC now "bucket_hits ?m k"] live by simp
  qed
  have sx: "\<forall>y \<in> set hs. x \<le> y"
    using hist_ok_live [OF h, of WINDOW_SEC k] live by (simp add: hist_ok_def)
  have "int (length (live WINDOW_SEC t (x # hs))) < ?L \<longleftrightarrow> now + r < t"
  proof (cases "now + r < t")
    case True
    then have "live WINDOW_SEC t (x # hs) = live WINDOW_SEC t hs" by (simp add: r live_def)
    moreover have "length (live WINDOW_SEC t hs) \<le> length hs" by (simp add: live_def)
    ultimately show ?thesis using True len by simp
  next
    case False
    then have "\<forall>y \<in> set (x # hs). t - WINDOW_SEC \<le> y" using sx by (auto simp: r)
    then have "live WINDOW_SEC t (x # hs) = x # hs" unfolding live_def by (simp only: filter_True)
    then show ?thesis using False full by simp
  qed
  then have "fst (check_passes k t ?m1) \<longleftrightarrow> now + r < t"
    using check_passes_accept [OF ok1 h1] by (simp add: lt)
  moreover have "r - 1 / 1000 < of_int (retry_seconds r)"
    unfolding retry_seconds_def by linarith
  ultimately show ?thesis by (simp add: check_passes_snd retry_seconds_def)
qed

theorem retry_after_tight_witness:
  "fst (rate_check 3 ''key:k1'' (rate_state (take 3 demo_requests) (new_limiter demo_limits))) = Inr (False, 57) \<and>
   \<not> fst (check_passes ''key:k1'' 60 (snd (rate_check 3 ''key:k1'' (rate_state (take 3 demo_requests) (new_limiter demo_limits)))))"
proof -
  have "settings_ok demo_limits" "rate_limit_enabled demo_limits"
    using default_settings_ok by (simp_all add: demo_limits_def settings_ok_def default_settings_def)
  moreover have "sorted (map fst (take 3 demo_requests) @ [3, 60])" by (simp add: demo_requests_def)
  moreover have "fst (rate_check 3 ''key:k1'' (rate_state (take 3 demo_requests) (new_limiter demo_limits))) = Inr (False, 57)"
    by code_simp
  ultimately show ?thesis
    using retry_after_tight [of demo_limits "take 3 demo_requests" 3 60 "''key:k1''" 57] by simp
qed

end
