(* ===== verification/Auth.thy ===== *)
theory Auth
  imports Rate_Limit
begin

section \<open>Role-based authentication\<close>

text \<open>
  \<open>auth.py\<close>: the three roles, the key table built from the settings, the constant-time
  key lookup (\<open>hmac.compare_digest\<close> is equality of the texts) and the dependency
  \<open>require_role\<close> in front of every API router.  A raised \<open>HTTPException\<close> is
  \<open>Inl\<close> with its status code; the returned role is also what the code stores in
  \<open>request.state.role\<close>.  The flag \<open>_unauth_warned\<close> only limits a log line.
\<close>

datatype role = READ | WRITE | INGEST

datatype http_error = HTTPException int string

definition role_value :: "role \<Rightarrow> string" where
  "role_value r = (case r of READ \<Rightarrow> ''read'' | WRITE \<Rightarrow> ''write'' | INGEST \<Rightarrow> ''ingest'')"

type_synonym role_keys = "(role \<times> string) list"

definition roles_from_settings :: "settings \<Rightarrow> role_keys" where
  "roles_from_settings s =
     (let out0 = (if api_key_read s \<noteq> [] then dict_set READ (api_key_read s) [] else []);
          out1 = (if api_key_write s \<noteq> [] then dict_set WRITE (api_key_write s) out0 else out0);
          out2 = (if api_key_ingest s \<noteq> [] then dict_set INGEST (api_key_ingest s) out1 else out1)
      in if api_key s \<noteq> [] \<and> api_key s \<notin> snd ` set out2
         then dict_set WRITE (api_key s) out2 else out2)"

definition lookup_role :: "string \<Rightarrow> role_keys \<Rightarrow> role option" where
  "lookup_role presented role_keys =
     (if presented = [] then None
      else find (\<lambda>r. map_of role_keys r = Some presented) [READ, WRITE, INGEST])"

definition allow_method_for_role :: "role \<Rightarrow> string \<Rightarrow> bool" where
  "allow_method_for_role r method =
     (let method = py_upper method
      in case r of
           WRITE \<Rightarrow> True
         | READ \<Rightarrow> method \<in> {''GET'', ''HEAD'', ''OPTIONS''}
         | INGEST \<Rightarrow> method = ''POST'')"

definition require_role :: "settings \<Rightarrow> http_request \<Rightarrow> string option \<Rightarrow> http_error + role" where
  "require_role st req x_api_key =
     (let role_keys = roles_from_settings st
      in if role_keys = [] then
           (if allow_unauthenticated st then Inr WRITE
            else Inl (HTTPException 503 ''API authentication is not configured''))
         else case x_api_key of
           None \<Rightarrow> Inl (HTTPException 401 ''X-API-Key header missing'')
         | Some k \<Rightarrow>
             if k = [] then Inl (HTTPException 401 ''X-API-Key header missing'')
             else case lookup_role k role_keys of
               None \<Rightarrow> Inl (HTTPException 401 ''X-API-Key invalid'')
             | Some r \<Rightarrow>
                 if req_path req = ''/api/v1/auth/whoami'' then Inr r
                 else if \<not> allow_method_for_role r (req_method req)
                 then Inl (HTTPException 403
                        (''role '' @ [CHR 0x27] @ role_value r @ [CHR 0x27] @ '' may not '' @ req_method req))
                 else Inr r)"

subsection \<open>Facts\<close>

definition configured_key :: "settings \<Rightarrow> role \<Rightarrow> string option" where
  \<comment> \<open>the key a role ends up with, read off the settings\<close>
  "configured_key s r =
     (let nonempty = (\<lambda>k. if k = [] then None else Some k)
      in case r of
           READ \<Rightarrow> nonempty (api_key_read s)
         | INGEST \<Rightarrow> nonempty (api_key_ingest s)
         | WRITE \<Rightarrow>
             if api_key s \<noteq> [] \<and> api_key s \<notin> {api_key_read s, api_key_write s, api_key_ingest s}
             then Some (api_key s) else nonempty (api_key_write s))"

lemma map_of_roles: "map_of (roles_from_settings s) r = configured_key s r"
  by (cases r; cases "api_key_read s = []"; cases "api_key_write s = []"; cases "api_key_ingest s = []")
     (auto simp: roles_from_settings_def configured_key_def Let_def)

lemma roles_empty_iff:
  "roles_from_settings s = [] \<longleftrightarrow>
     api_key s = [] \<and> api_key_read s = [] \<and> api_key_write s = [] \<and> api_key_ingest s = []"
  by (auto simp: roles_from_settings_def Let_def)

lemma lookup_role_Some:
  "lookup_role k keys = Some r \<Longrightarrow> k \<noteq> [] \<and> map_of keys r = Some k"
  by (auto simp: lookup_role_def split: if_split_asm)

lemma lookup_role_None:
  "lookup_role k keys = None \<Longrightarrow> k \<noteq> [] \<Longrightarrow> map_of keys r \<noteq> Some k"
  by (cases r) (auto simp: lookup_role_def split: if_split_asm)



text \<open>
  A leftover legacy key displaces the write key: when \<open>api_key\<close> is set to a text
  that is none of the three role keys, the configured \<open>api_key_write\<close> no longer grants
  the write role (unless it is also the read or ingest key it is simply invalid), and the
  legacy key alone does.
\<close>

theorem legacy_key_displaces_write_key:
  assumes "api_key st \<noteq> []" and "api_key st \<notin> {api_key_read st, api_key_write st, api_key_ingest st}"
    and "api_key_write st \<noteq> []" and "api_key_write st \<notin> {api_key_read st, api_key_ingest st}"
  shows "require_role st req (Some (api_key_write st)) = Inl (HTTPException 401 ''X-API-Key invalid'') \<and>
    require_role st req (Some (api_key st)) = Inr WRITE"
proof -
  have ne: "roles_from_settings st \<noteq> []" using assms(1) by (simp add: roles_empty_iff)
  have c: "configured_key st WRITE = Some (api_key st)" using assms by (simp add: configured_key_def)
  have "lookup_role (api_key_write st) (roles_from_settings st) = None"
    using assms c by (auto simp: lookup_role_def map_of_roles configured_key_def)
  moreover have "lookup_role (api_key st) (roles_from_settings st) = Some WRITE"
    using assms c by (auto simp: lookup_role_def map_of_roles configured_key_def)
  ultimately show ?thesis
    using ne assms(1,3) by (simp add: require_role_def allow_method_for_role_def Let_def)
qed

theorem legacy_key_displaces_write_key_witness:
  "require_role (default_settings\<lparr>api_key := ''old'', api_key_write := ''w''\<rparr>) (demo_request ''/api'') (Some ''w'') =
     Inl (HTTPException 401 ''X-API-Key invalid'')"
  using legacy_key_displaces_write_key [of "default_settings\<lparr>api_key := ''old'', api_key_write := ''w''\<rparr>" "demo_request ''/api''"]
  by (simp add: default_settings_def)

end
