(* ===== verification/Http_Stack.thy ===== *)
theory Http_Stack
  imports Auth Json
begin

section \<open>The HTTP middleware stack\<close>

text \<open>
  \<open>request_id.py\<close>, \<open>security.py\<close>, \<open>cors.py\<close>, \<open>error_envelope.py\<close> and
  their order in \<open>main.create_app\<close> (for the default of no CORS origins).  A response is
  its status, its headers (names in lower case, as Starlette compares them) and its body.
  Starlette's two response constructors are parameters; \<open>starlette_ok\<close> states what the
  code relies on: the given status and body are used, headers passed in are kept, and only
  \<open>content-type\<close> and \<open>content-length\<close> are added.  The handler behind the stack is a
  function of the request; an exception that leaves it is not modelled.
\<close>

record http_response =
  resp_status :: int
  resp_headers :: "string str_dict"
  resp_body :: string

record starlette =
  s_json :: "int \<Rightarrow> json \<Rightarrow> string str_dict \<Rightarrow> http_response"
  s_response :: "string \<Rightarrow> int \<Rightarrow> string \<Rightarrow> string str_dict \<Rightarrow> http_response"

definition keeps_headers :: "string str_dict \<Rightarrow> string str_dict \<Rightarrow> bool" where
  "keeps_headers hs hs' \<longleftrightarrow>
     (\<forall>h v. map_of hs h = Some v \<longrightarrow> map_of hs' h = Some v) \<and>
     fst ` set hs' \<subseteq> fst ` set hs \<union> {''content-type'', ''content-length''}"

definition starlette_ok :: "starlette \<Rightarrow> bool" where
  "starlette_ok S \<longleftrightarrow>
     (\<forall>st c hs. resp_status (s_json S st c hs) = st \<and> keeps_headers hs (resp_headers (s_json S st c hs))) \<and>
     (\<forall>b st mt hs. resp_status (s_response S b st mt hs) = st \<and> resp_body (s_response S b st mt hs) = b \<and>
        keeps_headers hs (resp_headers (s_response S b st mt hs)))"

definition resp_header :: "http_response \<Rightarrow> string \<Rightarrow> string" where
  "resp_header r h = dict_get (resp_headers r) h ''''"

subsection \<open>Request ids\<close>

definition safe_id_char :: "char \<Rightarrow> bool" where
  "safe_id_char c \<longleftrightarrow> py_isalnum c \<or> c \<in> {CHR ''.'', CHR ''_'', CHR ''-''}"

definition resolve_request_id :: "string \<Rightarrow> http_request \<Rightarrow> string" where
  \<comment> \<open>\<open>fresh\<close> is \<open>uuid4().hex\<close>\<close>
  "resolve_request_id fresh req =
     (let raw = py_strip (header req ''x-request-id'' '''')
      in if raw \<noteq> [] \<and> int (length raw) \<le> 64 \<and> list_all safe_id_char raw then raw
         else take 16 fresh)"

definition request_id_dispatch :: "string \<Rightarrow> http_request \<Rightarrow> http_response \<Rightarrow> http_response" where
  "request_id_dispatch fresh req response =
     response\<lparr>resp_headers := dict_set ''x-request-id'' (resolve_request_id fresh req) (resp_headers response)\<rparr>"

subsection \<open>Security headers\<close>

definition q :: "string \<Rightarrow> string" where
  \<comment> \<open>a text in single quotes\<close>
  "q s = CHR 0x27 # s @ [CHR 0x27]"

definition CSP_BASE :: string where
  "CSP_BASE = ''default-src '' @ q ''self'' @ ''; '' @ ''script-src '' @ q ''self'' @ ''; '' @
     ''style-src '' @ q ''self'' @ ''; '' @ ''img-src '' @ q ''self'' @ '' data:; '' @
     ''connect-src '' @ q ''self'' @ ''; '' @ ''frame-ancestors '' @ q ''none'' @ ''; '' @
     ''base-uri '' @ q ''self'' @ ''; '' @ ''form-action '' @ q ''self''"

definition csp_with_nonce :: "string \<Rightarrow> string" where
  "csp_with_nonce nonce = ''default-src '' @ q ''self'' @ ''; '' @
     ''script-src '' @ q ''self'' @ '' '' @ q (''nonce-'' @ nonce) @ ''; '' @
     ''style-src '' @ q ''self'' @ '' '' @ q (''nonce-'' @ nonce) @ ''; '' @
     ''img-src '' @ q ''self'' @ '' data:; '' @
     ''connect-src '' @ q ''self'' @ ''; '' @ ''frame-ancestors '' @ q ''none'' @ ''; '' @
     ''base-uri '' @ q ''self'' @ ''; '' @ ''form-action '' @ q ''self''"

definition header_setdefault :: "string \<Rightarrow> string \<Rightarrow> string str_dict \<Rightarrow> string str_dict" where
  "header_setdefault h v hs = (if map_of hs h = None then dict_set h v hs else hs)"

definition security_headers_dispatch :: "string \<Rightarrow> http_response \<Rightarrow> http_response" where
  "security_headers_dispatch nonce response =
     (let csp = (if py_startswith (resp_header response ''content-type'') ''text/html''
                 then csp_with_nonce nonce else CSP_BASE)
      in response\<lparr>resp_headers :=
           header_setdefault ''permissions-policy'' ''camera=(), microphone=(), geolocation=(), payment=()''
             (header_setdefault ''referrer-policy'' ''no-referrer''
               (header_setdefault ''x-frame-options'' ''DENY''
                 (header_setdefault ''x-content-type-options'' ''nosniff''
                   (header_setdefault ''content-security-policy'' csp (resp_headers response)))))\<rparr>)"

definition security_header_names :: "string list" where
  "security_header_names = [''content-security-policy'', ''x-content-type-options'',
     ''x-frame-options'', ''referrer-policy'', ''permissions-policy'']"

subsection \<open>CORS origins\<close>

definition parse_origins :: "string \<Rightarrow> string list" where
  "parse_origins raw = filter (\<lambda>w. w \<noteq> []) (map py_strip (py_split (CHR '','') raw))"

record cors_policy =
  cors_enabled :: bool
  allow_origins :: "string list"
  allow_methods :: "string list"
  allow_headers :: "string list"
  allow_credentials :: bool

definition describe_cors_policy :: "settings \<Rightarrow> cors_policy" where
  "describe_cors_policy st =
     (let origins = parse_origins (cors_origins st)
      in \<lparr>cors_enabled = (origins \<noteq> []), allow_origins = origins,
          allow_methods = [''GET'', ''POST'', ''PUT'', ''DELETE''],
          allow_headers = [''X-ZaQorin-Key'', ''Content-Type''], allow_credentials = False\<rparr>)"

definition build_cors_middleware :: "settings \<Rightarrow> cors_policy option" where
  "build_cors_middleware st =
     (let p = describe_cors_policy st in if allow_origins p = [] then None else Some p)"

subsection \<open>Error envelope\<close>

definition envelope_excluded :: "string \<Rightarrow> bool" where
  "envelope_excluded path \<longleftrightarrow> path = ''/'' \<or>
     list_ex (py_startswith path)
       [''/healthz'', ''/readyz'', ''/api/v1/healthcheck'', ''/api/v1/ingest/cloudflare'',
        ''/api/v1/ingest/webhook'', ''/api/v1/security'', ''/api/v1/stats'', ''/api/v1/kanban'', ''/static'']"

definition STATUS_CODE_TO_ERROR_CODE :: "(int \<times> string) list" where
  "STATUS_CODE_TO_ERROR_CODE =
     [(400, ''bad_request''), (401, ''unauthorized''), (403, ''forbidden''), (404, ''not_found''),
      (405, ''method_not_allowed''), (406, ''not_acceptable''), (409, ''conflict''),
      (413, ''payload_too_large''), (415, ''unsupported_media_type''), (422, ''unprocessable_entity''),
      (429, ''rate_limited''), (500, ''internal_error''), (501, ''not_implemented''),
      (502, ''bad_gateway''), (503, ''service_unavailable''), (504, ''gateway_timeout'')]"

definition HTTP_STATUS_TEXT :: "(int \<times> string) list" where
  "HTTP_STATUS_TEXT =
     [(400, ''Bad Request''), (401, ''Unauthorized''), (403, ''Forbidden''), (404, ''Not Found''),
      (405, ''Method Not Allowed''), (406, ''Not Acceptable''), (409, ''Conflict''),
      (413, ''Payload Too Large''), (415, ''Unsupported Media Type''), (422, ''Unprocessable Entity''),
      (429, ''Too Many Requests''), (500, ''Internal Server Error''), (501, ''Not Implemented''),
      (502, ''Bad Gateway''), (503, ''Service Unavailable''), (504, ''Gateway Timeout'')]"

definition error_code_for :: "int \<Rightarrow> string" where
  "error_code_for status = dict_get STATUS_CODE_TO_ERROR_CODE status ''http_error''"

definition is_envelope_enabled :: "(string \<rightharpoonup> string) \<Rightarrow> bool" where
  "is_envelope_enabled env \<longleftrightarrow>
     py_lower (py_strip (case env ''ZAQORIN_ERROR_ENVELOPE'' of None \<Rightarrow> '''' | Some v \<Rightarrow> v))
       \<in> {''1'', ''true'', ''yes''}"

definition extract_detail :: "(string \<Rightarrow> json option) \<Rightarrow> string \<Rightarrow> string \<Rightarrow> string" where
  "extract_detail loads body content_type =
     (if body = [] then []
      else if py_contains (py_lower content_type) ''json'' then
        (case safe_loads loads body of
           Inr (JObj kvs) \<Rightarrow>
             (case map_of kvs ''detail'' of
                Some (JStr d) \<Rightarrow> d
              | None \<Rightarrow> body
              | Some JNull \<Rightarrow> body
              | Some v \<Rightarrow> dumps_compact v)
         | _ \<Rightarrow> body)
      else body)"

definition envelope :: "int \<Rightarrow> string \<Rightarrow> string option \<Rightarrow> json" where
  "envelope status detail rid =
     JObj [(''error'', JObj [(''code'', JStr (error_code_for status)), (''message'', JStr detail),
              (''request_id'', case rid of None \<Rightarrow> JNull | Some i \<Rightarrow> JStr i)]),
           (''detail'', JStr detail)]"

definition envelope_detail :: "(string \<Rightarrow> json option) \<Rightarrow> http_response \<Rightarrow> string" where
  "envelope_detail loads r =
     (let detail = extract_detail loads (resp_body r) (resp_header r ''content-type'')
      in if detail \<noteq> [] then detail
         else dict_get HTTP_STATUS_TEXT (resp_status r) (''HTTP '' @ py_str_int (resp_status r)))"

definition response_request_id :: "string option \<Rightarrow> http_response \<Rightarrow> string option" where
  "response_request_id ctx r =
     (case map_of (resp_headers r) ''x-request-id'' of
        Some i \<Rightarrow> if i \<noteq> [] then Some i else ctx
      | None \<Rightarrow> ctx)"

definition error_envelope_dispatch ::
  "starlette \<Rightarrow> (string \<rightharpoonup> string) \<Rightarrow> (string \<Rightarrow> json option) \<Rightarrow> string option \<Rightarrow> http_request \<Rightarrow>
   http_response \<Rightarrow> http_response" where
  \<comment> \<open>\<open>ctx\<close> is the request id structlog's context variables hold at this point\<close>
  "error_envelope_dispatch S env loads ctx req r =
     (if \<not> is_envelope_enabled env then r
      else if resp_status r < 400 then r
      else if envelope_excluded (req_path req) then r
      else if resp_body r = [] then r
      else s_response S (dumps (envelope (resp_status r) (envelope_detail loads r) (response_request_id ctx r)))
             (resp_status r) ''application/json'' (resp_headers r))"

subsection \<open>The stack of \<open>create_app\<close>\<close>

definition too_many_requests :: "starlette \<Rightarrow> int \<Rightarrow> int \<Rightarrow> http_response" where
  "too_many_requests S l retry =
     s_json S 429 (JObj [(''detail'', JStr ''rate limit exceeded''), (''limit_per_min'', JInt l),
                         (''retry_after_sec'', JInt retry)]) [(''retry-after'', py_str_int retry)]"

record stack_env =
  k_starlette :: starlette
  k_env :: "string \<rightharpoonup> string"
  k_loads :: "string \<Rightarrow> json option"

definition app_stack ::
  "stack_env \<Rightarrow> string \<Rightarrow> string \<Rightarrow> rat \<Rightarrow> (http_request \<Rightarrow> http_response) \<Rightarrow> http_request \<Rightarrow> limiter \<Rightarrow>
   http_response option \<times> limiter" where
  \<comment> \<open>\<open>None\<close> is an exception of the rate limiter\<close>
  "app_stack K fresh nonce now handler req m =
     (let outer = (\<lambda>r. error_envelope_dispatch (k_starlette K) (k_env K) (k_loads K) None req
                         (request_id_dispatch fresh req r))
      in case rate_dispatch now req m of
           (Pass, m') \<Rightarrow> (Some (outer (security_headers_dispatch nonce (handler req))), m')
         | (TooManyRequests l retry, m') \<Rightarrow> (Some (outer (too_many_requests (k_starlette K) l retry)), m')
         | (Raised e, m') \<Rightarrow> (None, m'))"

subsection \<open>Facts\<close>

lemma resolve_request_id_safe:
  assumes "list_all safe_id_char fresh" and "length fresh = 32"
  shows "list_all safe_id_char (resolve_request_id fresh req)"
    "resolve_request_id fresh req \<noteq> []" "int (length (resolve_request_id fresh req)) \<le> 64"
proof -
  have "list_all safe_id_char (take 16 fresh)" using assms(1) by (auto simp: list_all_iff dest: in_set_takeD)
  moreover have "fresh \<noteq> []" using assms(2) by auto
  ultimately show "list_all safe_id_char (resolve_request_id fresh req)"
    "resolve_request_id fresh req \<noteq> []" "int (length (resolve_request_id fresh req)) \<le> 64"
    using assms(2) by (auto simp: resolve_request_id_def Let_def)
qed

lemma map_of_setdefault: "map_of (header_setdefault h v hs) h' = (if h' = h \<and> map_of hs h = None then Some v else map_of hs h')"
  by (simp add: header_setdefault_def)

lemma security_headers_set:
  "h \<in> set security_header_names \<Longrightarrow> map_of (resp_headers (security_headers_dispatch nonce r)) h \<noteq> None"
  by (auto simp: security_headers_dispatch_def Let_def map_of_setdefault security_header_names_def)

lemma envelope_keeps:
  assumes "starlette_ok S"
  shows "resp_status (error_envelope_dispatch S env loads ctx req r) = resp_status r"
    and "map_of (resp_headers r) h = Some v \<Longrightarrow>
      map_of (resp_headers (error_envelope_dispatch S env loads ctx req r)) h = Some v"
    and "h \<notin> {''content-type'', ''content-length''} \<Longrightarrow> map_of (resp_headers r) h = None \<Longrightarrow>
      map_of (resp_headers (error_envelope_dispatch S env loads ctx req r)) h = None"
proof -
  have k: "keeps_headers hs (resp_headers (s_response S b st mt hs))" for b st mt hs
    using assms by (simp add: starlette_ok_def)
  show "resp_status (error_envelope_dispatch S env loads ctx req r) = resp_status r"
    using assms by (simp add: error_envelope_dispatch_def starlette_ok_def)
  show "map_of (resp_headers (error_envelope_dispatch S env loads ctx req r)) h = Some v"
    if "map_of (resp_headers r) h = Some v"
    using that k by (simp add: error_envelope_dispatch_def keeps_headers_def)
  show "map_of (resp_headers (error_envelope_dispatch S env loads ctx req r)) h = None"
    if "h \<notin> {''content-type'', ''content-length''}" "map_of (resp_headers r) h = None"
    using that k unfolding error_envelope_dispatch_def keeps_headers_def map_of_eq_None_iff
    by (simp split: if_split) blast
qed

subsection \<open>Properties\<close>


definition demo_starlette :: starlette where
  "demo_starlette =
     \<lparr>s_json = (\<lambda>st c hs. \<lparr>resp_status = st, resp_headers = hs, resp_body = dumps c\<rparr>),
      s_response = (\<lambda>b st mt hs. \<lparr>resp_status = st, resp_headers = hs, resp_body = b\<rparr>)\<rparr>"

lemma demo_starlette_ok: "starlette_ok demo_starlette"
  by (auto simp: starlette_ok_def keeps_headers_def demo_starlette_def)

definition demo_stack :: stack_env where
  "demo_stack = \<lparr>k_starlette = demo_starlette, k_env = [''ZAQORIN_ERROR_ENVELOPE'' \<mapsto> ''1''],
     k_loads = (\<lambda>s. if s = ''{}'' then Some (JObj []) else None)\<rparr>"

definition demo_handler :: "http_request \<Rightarrow> http_response" where
  "demo_handler req = \<lparr>resp_status = 200, resp_headers = [(''content-type'', ''application/json'')], resp_body = ''{}''\<rparr>"

definition demo_full :: limiter where
  "demo_full = (new_limiter demo_limits)\<lparr>buckets :=
     [(''key:k1'', \<lparr>b_hits = [0, 1], b_window_sec = 60, b_limit = 2\<rparr>)]\<rparr>"


lemma wf_envelope: "wf_json (envelope st d rid)" and depth_envelope: "json_depth (envelope st d rid) = 2"
  by (cases rid; simp add: envelope_def)+

lemma safe_loads_envelope:
  assumes "loads (dumps (envelope st d rid)) = Some (envelope st d rid)"
  shows "safe_loads loads (dumps (envelope st d rid)) = Inr (envelope st d rid)"
proof -
  have "check_depth MAX_JSON_DEPTH 0 False False (dumps (envelope st d rid))"
    using scans_as_dumps [OF wf_envelope, unfolded scans_as_def, rule_format, of 0 MAX_JSON_DEPTH st d rid "[]"]
    by (simp add: depth_envelope MAX_JSON_DEPTH_def)
  then show ?thesis using assms by (simp add: safe_loads_def)
qed

lemma dumps_envelope_nonempty: "dumps (envelope st d rid) \<noteq> []"
  by (simp add: envelope_def)

text \<open>
  The error envelope leaves successes, excluded routes, empty bodies and everything
  when it is switched off untouched.  An error response it wraps keeps its status and every
  header it had, its \<open>detail\<close> is never empty and equals the original's when that had one,
  and, for JSON responses, wrapping an already wrapped response gives the same body again.
\<close>

theorem error_envelope_contract:
  fixes env :: "string \<rightharpoonup> string" and loads :: "string \<Rightarrow> json option" and ctx :: "string option"
    and req :: http_request and r :: http_response
  defines "e \<equiv> envelope (resp_status r) (envelope_detail loads r) (response_request_id ctx r)"
  assumes S: "starlette_ok S" and rt: "loads (dumps e) = Some e"
  defines "w \<equiv> error_envelope_dispatch S env loads ctx req"
  defines "wraps \<equiv> (\<lambda>r. is_envelope_enabled env \<and> 400 \<le> resp_status r \<and>
      \<not> envelope_excluded (req_path req) \<and> resp_body r \<noteq> [])"
  shows "(\<not> wraps r \<longrightarrow> w r = r) \<and>
    (wraps r \<longrightarrow> resp_status (w r) = resp_status r \<and>
resp_body (w r) = dumps e \<and> envelope_detail loads r \<noteq> []) \<and>
    (\<forall>kvs d. py_contains (py_lower (resp_header r ''content-type'')) ''json'' \<longrightarrow>
       safe_loads loads (resp_body r) = Inr (JObj kvs) \<longrightarrow> map_of kvs ''detail'' = Some (JStr d) \<longrightarrow> d \<noteq> [] \<longrightarrow>
       resp_body r \<noteq> [] \<longrightarrow> envelope_detail loads r = d) \<and>
    (map_of (resp_headers r) ''content-type'' = Some ''application/json'' \<longrightarrow>
       resp_body (w (w r)) = resp_body (w r))"
proof -
  have texts: "v \<noteq> []" if "(k, v) \<in> set HTTP_STATUS_TEXT" for k v
    using that by (auto simp: HTTP_STATUS_TEXT_def)
  have ne: "envelope_detail loads x \<noteq> []" for x
    using texts by (auto simp: envelope_detail_def Let_def dict_get_def split: option.split dest!: map_of_SomeD)
  have off: "w r = r" if "\<not> wraps r" for r
    using that by (auto simp: w_def wraps_def error_envelope_dispatch_def)
  have on: "resp_status (w r) = resp_status r"
    "resp_body (w r) = dumps (envelope (resp_status r) (envelope_detail loads r) (response_request_id ctx r))"
    if "wraps r" for r
    using that S by (auto simp: w_def wraps_def error_envelope_dispatch_def starlette_ok_def)
  have detail: "envelope_detail loads r = d"
    if "py_contains (py_lower (resp_header r ''content-type'')) ''json''" "resp_body r \<noteq> []"
      "safe_loads loads (resp_body r) = Inr (JObj kvs)" "map_of kvs ''detail'' = Some (JStr d)" "d \<noteq> []" for r kvs d
    using that by (simp add: envelope_detail_def extract_detail_def)
  have again: "resp_body (w (w r)) = resp_body (w r)" if ct: "map_of (resp_headers r) ''content-type'' = Some ''application/json''"
  proof (cases "wraps r")
    case False
    then show ?thesis using off by simp
  next
    case True
    let ?d = "envelope_detail loads r" and ?i = "response_request_id ctx r"
    have b: "resp_body (w r) = dumps (envelope (resp_status r) ?d ?i)" using on(2) [OF True] .
    have wr: "wraps (w r)" using True on(1) [OF True] b dumps_envelope_nonempty by (simp add: wraps_def)
    have ct': "resp_header (w r) ''content-type'' = ''application/json''"
      using envelope_keeps(2) [OF S ct] by (simp add: w_def resp_header_def dict_get_def)
    have "envelope_detail loads (w r) = ?d"
    proof (rule detail)
      show "py_contains (py_lower (resp_header (w r) ''content-type'')) ''json''" unfolding ct' by code_simp
      show "resp_body (w r) \<noteq> []" using b dumps_envelope_nonempty by simp
      show "safe_loads loads (resp_body (w r)) =
          Inr (JObj [(''error'', JObj [(''code'', JStr (error_code_for (resp_status r))), (''message'', JStr ?d),
              (''request_id'', case ?i of None \<Rightarrow> JNull | Some i \<Rightarrow> JStr i)]), (''detail'', JStr ?d)])"
        using safe_loads_envelope [of loads "resp_status r" ?d ?i] rt [unfolded e_def] b by (simp add: envelope_def)
    qed (simp_all add: ne)
    moreover have "response_request_id ctx (w r) = ?i"
      using envelope_keeps(2,3) [OF S, where r = r and h = "''x-request-id''" and env = env and loads = loads and ctx = ctx and req = req]
      by (cases "map_of (resp_headers r) ''x-request-id''") (auto simp: response_request_id_def w_def)
    ultimately show ?thesis using on [OF wr] b on(1) [OF True] by simp
  qed
  show ?thesis using off on ne detail again unfolding e_def by blast
qed

definition demo_error :: http_response where
  "demo_error = \<lparr>resp_status = 404, resp_headers = [(''content-type'', ''application/json''), (''content-length'', ''16'')],
     resp_body = ''B''\<rparr>"

definition demo_loads :: "string \<Rightarrow> json option" where
  "demo_loads s = (if s = ''B'' then Some (JObj [(''detail'', JStr ''nope'')])
     else Some (envelope 404 ''nope'' None))"

lemma demo_error_detail: "envelope_detail demo_loads demo_error = ''nope''"
  by (simp add: envelope_detail_def extract_detail_def demo_error_def demo_loads_def safe_loads_def
      resp_header_def dict_get_def py_lower_def py_lower_char_def ord_def)

theorem error_envelope_contract_witness:
  "let w = error_envelope_dispatch demo_starlette [''ZAQORIN_ERROR_ENVELOPE'' \<mapsto> ''1''] demo_loads None (demo_request ''/api'')
   in resp_status (w demo_error) = 404 \<and> resp_body (w demo_error) = dumps (envelope 404 ''nope'' None) \<and>
      resp_body (w (w demo_error)) = resp_body (w demo_error)"
proof -
  have "is_envelope_enabled [''ZAQORIN_ERROR_ENVELOPE'' \<mapsto> ''1'']" by code_simp
  moreover have "\<not> envelope_excluded (req_path (demo_request ''/api''))" by code_simp
  moreover have "response_request_id None demo_error = None" by code_simp
  moreover have "demo_loads (dumps (envelope 404 ''nope'' None)) = Some (envelope 404 ''nope'' None)"
    by (simp add: demo_loads_def envelope_def)
  moreover have "resp_status demo_error = 404" "resp_body demo_error \<noteq> []"
    "map_of (resp_headers demo_error) ''content-type'' = Some ''application/json''"
    by (simp_all add: demo_error_def)
  ultimately show ?thesis
    using error_envelope_contract [where S = demo_starlette and r = demo_error and ctx = None and loads = demo_loads
        and env = "[''ZAQORIN_ERROR_ENVELOPE'' \<mapsto> ''1'']" and req = "demo_request ''/api''"]
      demo_starlette_ok demo_error_detail
    unfolding Let_def by simp
qed

text \<open>
  The wrapped response keeps the \<open>Content-Length\<close> of the body it replaced: the
  headers of the original are passed to the new response, which uses them as they are, so
  whenever the new body has another length the announced length is wrong.
\<close>

theorem envelope_stale_content_length:
  fixes loads :: "string \<Rightarrow> json option" and ctx :: "string option"
  assumes "starlette_ok S" and "is_envelope_enabled env" and "400 \<le> resp_status r"
    and "\<not> envelope_excluded (req_path req)" and "resp_body r \<noteq> []"
    and "map_of (resp_headers r) ''content-length'' = Some (py_str_int (int (length (resp_body r))))"
  defines "w \<equiv> error_envelope_dispatch S env loads ctx req r"
  shows "map_of (resp_headers w) ''content-length'' = Some (py_str_int (int (length (resp_body r)))) \<and>
    (length (resp_body w) \<noteq> length (resp_body r) \<longrightarrow>
       map_of (resp_headers w) ''content-length'' \<noteq> Some (py_str_int (int (length (resp_body w)))))"
proof -
  have h: "map_of (resp_headers w) ''content-length'' = Some (py_str_int (int (length (resp_body r))))"
    unfolding w_def using envelope_keeps(2) [OF assms(1,6)] .
  moreover have "py_str_int i \<noteq> py_str_int j" if "i \<noteq> j" for i j
    using that py_int_str_int [of i] py_int_str_int [of j] by auto
  ultimately show ?thesis by auto
qed

definition demo_sized_error :: http_response where
  "demo_sized_error = demo_error\<lparr>resp_headers := [(''content-type'', ''application/json''), (''content-length'', ''1'')]\<rparr>"

theorem envelope_stale_content_length_witness:
  "let w = error_envelope_dispatch demo_starlette [''ZAQORIN_ERROR_ENVELOPE'' \<mapsto> ''1''] demo_loads None
       (demo_request ''/api'') demo_sized_error
   in map_of (resp_headers w) ''content-length'' = Some ''1'' \<and> 30 < length (resp_body w)"
proof -
  let ?w = "error_envelope_dispatch demo_starlette [''ZAQORIN_ERROR_ENVELOPE'' \<mapsto> ''1''] demo_loads None
       (demo_request ''/api'') demo_sized_error"
  have en: "is_envelope_enabled [''ZAQORIN_ERROR_ENVELOPE'' \<mapsto> ''1'']" by code_simp
  have ex: "\<not> envelope_excluded (req_path (demo_request ''/api''))" by code_simp
  have one: "py_str_int 1 = ''1''" by code_simp
  have f: "resp_status demo_sized_error = 404" "resp_body demo_sized_error = ''B''"
    "map_of (resp_headers demo_sized_error) ''content-length'' = Some ''1''"
    by (simp_all add: demo_sized_error_def demo_error_def)
  have "map_of (resp_headers ?w) ''content-length'' = Some ''1''"
    using envelope_stale_content_length [OF demo_starlette_ok en, where r = demo_sized_error and req = "demo_request ''/api''"
        and loads = demo_loads and ctx = None] ex f one by simp
  moreover have "30 < length (resp_body ?w)"
    using en ex f by (simp add: error_envelope_dispatch_def demo_starlette_def envelope_def json_str_def)
  ultimately show ?thesis by (simp add: Let_def)
qed

end
