(* ===== verification/Evidence.thy ===== *)
theory Evidence
  imports Command_Crypto Json
begin

section \<open>The evidence locker\<close>

text \<open>
  \<open>evidence.py\<close> and the import-time key check of \<open>api/v1/evidence.py\<close>.  The disk is
  a list of files, each with its path, content and mode, and a list of directory modes; the
  resolution of symbolic links (\<open>Path.resolve\<close>), SHA-256, HMAC, base64 and the JSON
  decoder are parameters.  A submission is the whole method: hash check, directory, three
  files, permissions.
\<close>

subsection \<open>Indented JSON with sorted keys\<close>

fun str_less :: "string \<Rightarrow> string \<Rightarrow> bool" where
  "str_less [] t = (t \<noteq> [])"
| "str_less s [] = False"
| "str_less (c # s) (d # t) = (ord c < ord d \<or> (c = d \<and> str_less s t))"

fun insert_item :: "string \<times> 'a \<Rightarrow> 'a str_dict \<Rightarrow> 'a str_dict" where
  "insert_item e [] = [e]"
| "insert_item e (f # fs) = (if str_less (fst f) (fst e) then f # insert_item e fs else e # f # fs)"

definition sort_items :: "'a str_dict \<Rightarrow> 'a str_dict" where
  "sort_items kvs = foldr insert_item kvs []"

fun sort_json :: "json \<Rightarrow> json" where
  "sort_json (JArr vs) = JArr (map sort_json vs)"
| "sort_json (JObj kvs) = JObj (sort_items (map (\<lambda>(k, v). (k, sort_json v)) kvs))"
| "sort_json v = v"

definition newline :: "nat \<Rightarrow> string" where
  "newline n = CHR 0x0A # replicate n (CHR '' '')"

fun dumps_indent :: "nat \<Rightarrow> json \<Rightarrow> string" where
  \<comment> \<open>\<open>json.dumps(v, indent=2)\<close> at indentation \<open>n\<close>\<close>
  "dumps_indent n (JArr vs) =
     (if vs = [] then ''[]''
      else ''['' @ (newline (n + 2) @ py_join ('','' @ newline (n + 2)) (map (dumps_indent (n + 2)) vs) @ newline n) @ '']'')"
| "dumps_indent n (JObj kvs) =
     (if kvs = [] then ''{}''
      else ''{'' @ (newline (n + 2) @ py_join ('','' @ newline (n + 2))
             (map (\<lambda>(k, v). json_str k @ '': '' @ dumps_indent (n + 2) v) kvs) @ newline n) @ ''}'')"
| "dumps_indent n v = dumps v"

definition dumps_sorted_indent :: "json \<Rightarrow> string" where
  "dumps_sorted_indent v = dumps_indent 0 (sort_json v)"

subsection \<open>Keys\<close>

datatype evidence_error =
  ValueError string | KeyError | RuntimeError | AttributeError | TypeError

definition PROD_PLACEHOLDER :: string where
  "PROD_PLACEHOLDER = ''zaqorincore-dev-evidence-key-change-me''"

definition evidence_signing_key :: "(string \<rightharpoonup> string) \<Rightarrow> evidence_error + string" where
  "evidence_signing_key env =
     (let env_key = (case env ''ZAQORIN_EVIDENCE_KEY'' of None \<Rightarrow> '''' | Some k \<Rightarrow> k);
          is_dev = ((case env ''ZAQORIN_ENV'' of None \<Rightarrow> ''production'' | Some v \<Rightarrow> v) \<noteq> ''production'')
      in if env_key = [] then (if is_dev then Inr PROD_PLACEHOLDER else Inl RuntimeError)
         else if env_key = PROD_PLACEHOLDER \<and> \<not> is_dev then Inl RuntimeError
         else Inr env_key)"

record evidence_store =
  base_dir :: string
  signing_key :: string
  store_keys :: "string str_dict"

definition new_store :: "string \<Rightarrow> string \<Rightarrow> string str_dict \<Rightarrow> evidence_store" where
  \<comment> \<open>the dataclass constructor with \<open>__post_init__\<close>\<close>
  "new_store base key keys =
     \<lparr>base_dir = base, signing_key = key,
      store_keys = (if keys = [] then [(''current'', key)]
                    else if map_of keys ''current'' = None then dict_set ''current'' key keys else keys)\<rparr>"

definition rotate_key :: "string \<Rightarrow> string \<Rightarrow> evidence_store \<Rightarrow> evidence_store" where
  \<comment> \<open>\<open>new_id\<close> is the fresh uuid, \<open>new_key\<close> the given or generated key\<close>
  "rotate_key new_id new_key st =
     (let old = dict_get (store_keys st) ''current'' (signing_key st)
      in st\<lparr>store_keys := dict_set ''current'' new_key
                            (dict_set ''previous'' old (dict_set new_id new_key [])),
            signing_key := new_key\<rparr>)"

subsection \<open>Files\<close>

record efile =
  f_content :: string
  f_mode :: int

record disk =
  files :: "(string \<times> efile) list"
  dir_modes :: "(string \<times> int) list"

record evidence_env =
  v_resolve :: "string \<Rightarrow> string"
  v_sha256 :: "string \<Rightarrow> nat list"
  v_mac :: mac_fun
  v_b64decode :: "string \<Rightarrow> string option"
  v_loads :: "string \<Rightarrow> json option"

definition alert_dir :: "(string \<Rightarrow> string) \<Rightarrow> string \<Rightarrow> string \<Rightarrow> evidence_error + string" where
  "alert_dir resolve base alert_id =
     (if alert_id = [] then Inl (ValueError ''alert_id must be non-empty'')
      else if CHR 0x00 \<in> set alert_id then Inl (ValueError ''alert_id must not contain NUL bytes'')
      else if alert_id \<in> {''.'', ''..''} then Inl (ValueError ''alert_id must not be dot or dotdot'')
      else if CHR ''/'' \<in> set alert_id \<or> CHR 0x5C \<in> set alert_id
      then Inl (ValueError ''alert_id must not contain path separators'')
      else if py_startswith alert_id ''/'' then Inl (ValueError ''alert_id must be relative'')
      else if py_startswith alert_id ''.'' then Inl (ValueError ''alert_id must not start with a dot'')
      else let joined = resolve (base @ ''/'' @ alert_id)
           in if \<not> py_startswith joined (resolve base @ ''/'')
              then Inl (ValueError ''alert_id escapes base_dir'') else Inr joined)"

definition write_file :: "string \<Rightarrow> string \<Rightarrow> disk \<Rightarrow> disk" where
  \<comment> \<open>a new file gets mode \<open>0o644\<close>, an existing one keeps its mode\<close>
  "write_file p c d =
     d\<lparr>files := dict_set p (case map_of (files d) p of
                              None \<Rightarrow> \<lparr>f_content = c, f_mode = 420\<rparr> | Some f \<Rightarrow> f\<lparr>f_content := c\<rparr>) (files d)\<rparr>"

definition chmod_file :: "string \<Rightarrow> int \<Rightarrow> disk \<Rightarrow> disk" where
  "chmod_file p m d =
     (case map_of (files d) p of
        None \<Rightarrow> d
      | Some f \<Rightarrow> d\<lparr>files := dict_set p (f\<lparr>f_mode := m\<rparr>) (files d)\<rparr>)"

definition mkdir :: "string \<Rightarrow> disk \<Rightarrow> disk" where
  "mkdir p d = (if map_of (dir_modes d) p = None then d\<lparr>dir_modes := dict_set p 493 (dir_modes d)\<rparr> else d)"

definition read_file :: "disk \<Rightarrow> string \<Rightarrow> string option" where
  "read_file d p = map_option f_content (map_of (files d) p)"

subsection \<open>Submission and verification\<close>

record evidence_submit =
  sub_alert_id :: string
  sub_host_id :: string
  sub_captured_at :: string     \<comment> \<open>its UTC ISO text\<close>
  sub_captured_by :: string
  sub_bundle_sha256 :: string
  sub_source_hashes :: "string str_dict"
  sub_tarball_b64 :: string
  sub_tarball :: "string option"

definition as_tarball :: "(string \<Rightarrow> string option) \<Rightarrow> evidence_submit \<Rightarrow> evidence_error + string" where
  "as_tarball b64 p =
     (case sub_tarball p of
        Some t \<Rightarrow> Inr t
      | None \<Rightarrow> (case b64 (sub_tarball_b64 p) of
                   None \<Rightarrow> Inl (ValueError ''base64'') | Some t \<Rightarrow> Inr t))"

definition sidecar :: "evidence_submit \<Rightarrow> string \<Rightarrow> json" where
  "sidecar p key_id = JObj
     [(''alert_id'', JStr (sub_alert_id p)), (''host_id'', JStr (sub_host_id p)),
      (''captured_at'', JStr (sub_captured_at p)), (''captured_by'', JStr (sub_captured_by p)),
      (''bundle_sha256'', JStr (sub_bundle_sha256 p)),
      (''source_hashes'', JObj (map (\<lambda>(k, v). (k, JStr v)) (sub_source_hashes p))),
      (''key_id'', JStr key_id)]"

definition bundle_path :: "string \<Rightarrow> string" where "bundle_path d = d @ ''/bundle.tar.gz''"
definition sidecar_path :: "string \<Rightarrow> string" where "sidecar_path d = d @ ''/bundle.coc.json''"
definition sig_path :: "string \<Rightarrow> string" where "sig_path d = d @ ''/bundle.coc.sig''"

definition submit_evidence ::
  "evidence_env \<Rightarrow> evidence_store \<Rightarrow> evidence_submit \<Rightarrow> disk \<Rightarrow> (evidence_error + string) \<times> disk" where
  \<comment> \<open>the result is the sidecar signature of the returned record\<close>
  "submit_evidence E st p d =
     (case as_tarball (v_b64decode E) p of
        Inl e \<Rightarrow> (Inl e, d)
      | Inr tarball \<Rightarrow>
          if hexdigest (v_sha256 E tarball) \<noteq> sub_bundle_sha256 p
          then (Inl (ValueError ''bundle_sha256 mismatch''), d)
          else case alert_dir (v_resolve E) (base_dir st) (sub_alert_id p) of
            Inl e \<Rightarrow> (Inl e, d)
          | Inr out_dir \<Rightarrow>
              let d1 = write_file (bundle_path out_dir) tarball (mkdir out_dir d)
              in case map_of (store_keys st) ''current'' of
                   None \<Rightarrow> (Inl KeyError, d1)
                 | Some key \<Rightarrow>
                     let sidecar_bytes = dumps_sorted_indent (sidecar p ''current'');
                         sig = hexdigest (v_mac E key sidecar_bytes);
                         d2 = write_file (sig_path out_dir) sig
                                (write_file (sidecar_path out_dir) sidecar_bytes d1);
                         d3 = chmod_file (sig_path out_dir) 384
                                (chmod_file (sidecar_path out_dir) 384
                                  (chmod_file (bundle_path out_dir) 384 d2))
                     in (Inr sig, d3\<lparr>dir_modes := dict_set out_dir 448 (dir_modes d3)\<rparr>))"

definition signed_with :: "evidence_env \<Rightarrow> string \<Rightarrow> string \<Rightarrow> string \<Rightarrow> bool" where
  "signed_with E sidecar_bytes sig key \<longleftrightarrow> hexdigest (v_mac E key sidecar_bytes) = sig"

datatype key_ref = Key_id string | Not_a_key | Unhashable

definition key_ref :: "json str_dict \<Rightarrow> key_ref" where
  \<comment> \<open>\<open>sidecar.get("key_id", "current")\<close> as a dictionary key\<close>
  "key_ref kvs =
     (case map_of kvs ''key_id'' of
        None \<Rightarrow> Key_id ''current''
      | Some (JStr i) \<Rightarrow> Key_id i
      | Some (JArr _) \<Rightarrow> Unhashable
      | Some (JObj _) \<Rightarrow> Unhashable
      | _ \<Rightarrow> Not_a_key)"

definition verify_evidence ::
  "evidence_env \<Rightarrow> evidence_store \<Rightarrow> disk \<Rightarrow> string \<Rightarrow> evidence_error + bool" where
  "verify_evidence E st d alert_id =
     (case alert_dir (v_resolve E) (base_dir st) alert_id of
        Inl e \<Rightarrow> Inl e
      | Inr out_dir \<Rightarrow>
          (case (read_file d (sidecar_path out_dir), read_file d (sig_path out_dir)) of
             (Some sidecar_bytes, Some sig) \<Rightarrow>
               let fallback = Inr (list_ex (signed_with E sidecar_bytes sig) (map snd (store_keys st)))
               in (case safe_loads (v_loads E) sidecar_bytes of
                     Inl JSONDecodeError \<Rightarrow> fallback
                   | Inl Depth_ValueError \<Rightarrow> Inl (ValueError ''depth'')
                   | Inr (JObj kvs) \<Rightarrow>
                       (case key_ref kvs of
                          Unhashable \<Rightarrow> Inl TypeError
                        | Not_a_key \<Rightarrow> fallback
                        | Key_id i \<Rightarrow>
                            (case map_of (store_keys st) i of
                               None \<Rightarrow> fallback
                             | Some key \<Rightarrow> if signed_with E sidecar_bytes sig key then Inr True else fallback))
                   | Inr _ \<Rightarrow> Inl AttributeError)
           | _ \<Rightarrow> Inr False))"

subsection \<open>Depth of the sidecar text\<close>

lemma plain_newline: "list_all plain_char (newline n)"
  by (simp add: newline_def plain_char_def list_all_iff)

lemma scans_as_newlines:
  assumes "scans_as t n"
  shows "scans_as (newline a @ t @ newline b) n"
proof -
  have "scans_as (t @ newline b) n"
    using scans_as_append [OF assms scans_as_0 [OF plain_newline [of b]]] by simp
  from scans_as_append [OF scans_as_0 [OF plain_newline [of a]] this] show ?thesis by simp
qed

lemma scans_as_item:
  assumes "scans_as t n"
  shows "scans_as (json_str k @ '': '' @ t) n"
proof -
  have "scans_as ('': '' @ t) (max 0 n)"
    by (intro scans_as_append scans_as_0 assms) (simp add: plain_char_def)
  then show ?thesis using scans_as_append [OF scans_as_str_0 [of k]] by fastforce
qed

lemma scans_as_indent: "wf_json v \<Longrightarrow> scans_as (dumps_indent n v) (json_depth v)"
proof (induction v arbitrary: n)
  case (JArr vs)
  show ?case
  proof (cases "vs = []")
    case True
    then show ?thesis using scans_as_bracket [of "[]" 0 "CHR ''[''" "CHR '']''"] by (simp add: scans_as_def)
  next
    case False
    have "list_all2 scans_as (map (dumps_indent (n + 2)) vs) (map json_depth vs)"
      using JArr by (auto simp: list_all2_conv_all_nth list_all_length)
    then have "scans_as (py_join ('','' @ newline (n + 2)) (map (dumps_indent (n + 2)) vs)) (fold max (map json_depth vs) 0)"
      by (rule scans_as_join [rotated]) (use plain_newline in \<open>simp add: plain_char_def\<close>)
    from scans_as_bracket [OF scans_as_newlines [OF this, of "n + 2" n], of "CHR ''[''" "CHR '']''"] False
    show ?thesis by simp
  qed
next
  case (JObj kvs)
  show ?case
  proof (cases "kvs = []")
    case True
    then show ?thesis using scans_as_bracket [of "[]" 0 "CHR ''{''" "CHR ''}''"] by (simp add: scans_as_def)
  next
    case False
    have "scans_as (json_str k @ '': '' @ dumps_indent (n + 2) v) (json_depth v)" if "(k, v) \<in> set kvs" for k v
      using JObj.IH [OF that, of v] JObj.prems that by (intro scans_as_item) (auto simp: list_all_iff)
    then have "list_all2 scans_as (map (\<lambda>(k, v). json_str k @ '': '' @ dumps_indent (n + 2) v) kvs)
        (map (\<lambda>(k, v). json_depth v) kvs)"
      by (auto simp: list_all2_conv_all_nth split_beta)
    then have "scans_as (py_join ('','' @ newline (n + 2)) (map (\<lambda>(k, v). json_str k @ '': '' @ dumps_indent (n + 2) v) kvs))
        (fold max (map (\<lambda>(k, v). json_depth v) kvs) 0)"
      by (rule scans_as_join [rotated]) (use plain_newline in \<open>simp add: plain_char_def\<close>)
    from scans_as_bracket [OF scans_as_newlines [OF this, of "n + 2" n], of "CHR ''{''" "CHR ''}''"] False
    show ?thesis by simp
  qed
qed (simp_all add: scans_as_0 scans_as_str_0 plain_number plain_char_def)

lemma set_sort_items: "set (sort_items kvs) = set kvs"
proof -
  have "set (insert_item e d) = insert e (set d)" for e and d :: "'a str_dict"
    by (induction d) auto
  then show ?thesis by (induction kvs) (simp_all add: sort_items_def)
qed

lemma json_depth_JObj_le:
  assumes "\<And>k v. (k, v) \<in> set kvs \<Longrightarrow> json_depth v \<le> n"
  shows "json_depth (JObj kvs) \<le> Suc n"
proof -
  have "fold max (map (\<lambda>(k, v). json_depth v) kvs) m \<le> max m n" for m
    using assms
  proof (induction kvs arbitrary: m)
    case (Cons e kvs)
    obtain k v where e: "e = (k, v)" by (cases e)
    have "json_depth v \<le> n" using Cons.prems [of k v] by (simp add: e)
    moreover have "fold max (map (\<lambda>(k, v). json_depth v) kvs) (max (json_depth v) m) \<le> max (max (json_depth v) m) n"
      by (rule Cons.IH) (use Cons.prems in auto)
    ultimately show ?case by (simp add: e)
  qed simp
  from this [of 0] show ?thesis by simp
qed

definition sidecar_text :: "evidence_submit \<Rightarrow> string" where
  "sidecar_text p = dumps_sorted_indent (sidecar p ''current'')"

lemma sidecar_depth_ok: "check_depth MAX_JSON_DEPTH 0 False False (sidecar_text p)"
proof -
  let ?h = "sort_json (JObj (map (\<lambda>(k, v). (k, JStr v)) (sub_source_hashes p)))"
  have h: "wf_json ?h \<and> json_depth ?h \<le> 1"
  proof -
    have "json_depth ?h \<le> Suc 0"
      unfolding sort_json.simps by (rule json_depth_JObj_le) (auto simp: set_sort_items)
    then show ?thesis by (auto simp: list_all_iff set_sort_items)
  qed
  obtain kvs where j: "sort_json (sidecar p ''current'') = JObj kvs" by (simp add: sidecar_def)
  have v: "wf_json v \<and> json_depth v \<le> 1" if "(k, v) \<in> set kvs" for k v
  proof -
    have "v = ?h \<or> (\<exists>t. v = JStr t)" using that j [symmetric] by (auto simp: sidecar_def set_sort_items)
    then show ?thesis using h by auto
  qed
  have "json_depth (JObj kvs) \<le> 2" using json_depth_JObj_le [of kvs 1] v by (simp add: numeral_2_eq_2)
  moreover have "wf_json (JObj kvs)" using v by (auto simp: list_all_iff)
  ultimately show ?thesis
    using scans_as_indent [of "JObj kvs" 0, unfolded scans_as_def, rule_format, of 0 MAX_JSON_DEPTH "[]"]
    by (simp add: sidecar_text_def dumps_sorted_indent_def j MAX_JSON_DEPTH_def del: json_depth.simps)
qed

subsection \<open>Effect of a submission on the disk\<close>

definition file_mode :: "disk \<Rightarrow> string \<Rightarrow> int option" where
  "file_mode d p = map_option f_mode (map_of (files d) p)"

lemma read_write [simp]: "read_file (write_file p c d) r = (if r = p then Some c else read_file d r)"
  by (auto simp: read_file_def write_file_def split: option.split)

lemma mode_write [simp]: "r \<noteq> p \<Longrightarrow> file_mode (write_file p c d) r = file_mode d r"
  by (auto simp: file_mode_def write_file_def)

lemma read_chmod [simp]: "read_file (chmod_file p m d) r = read_file d r"
  by (auto simp: read_file_def chmod_file_def split: option.split)

lemma mode_chmod [simp]:
  "file_mode (chmod_file p m d) r = (if r = p \<and> read_file d p \<noteq> None then Some m else file_mode d r)"
  by (auto simp: file_mode_def read_file_def chmod_file_def split: option.split)

lemma read_mkdir [simp]: "read_file (mkdir p d) r = read_file d r" "file_mode (mkdir p d) r = file_mode d r"
  by (auto simp: read_file_def mkdir_def file_mode_def)

lemma read_dir_modes [simp]: "read_file (d\<lparr>dir_modes := x\<rparr>) r = read_file d r" "file_mode (d\<lparr>dir_modes := x\<rparr>) r = file_mode d r"
  by (simp_all add: read_file_def file_mode_def)

lemma paths_distinct [simp]:
  "bundle_path o1 \<noteq> sidecar_path o1" "sidecar_path o1 \<noteq> bundle_path o1" "bundle_path o1 \<noteq> sig_path o1"
  "sig_path o1 \<noteq> bundle_path o1" "sidecar_path o1 \<noteq> sig_path o1" "sig_path o1 \<noteq> sidecar_path o1"
  by (simp_all add: bundle_path_def sidecar_path_def sig_path_def)

lemma submit_evidence_Inr:
  assumes "submit_evidence E st p d = (Inr sig, d')"
  shows "\<exists>tarball out key. as_tarball (v_b64decode E) p = Inr tarball \<and>
    hexdigest (v_sha256 E tarball) = sub_bundle_sha256 p \<and>
    alert_dir (v_resolve E) (base_dir st) (sub_alert_id p) = Inr out \<and>
    map_of (store_keys st) ''current'' = Some key \<and> sig = hexdigest (v_mac E key (sidecar_text p)) \<and>
    (\<forall>r. read_file d' r = (if r = bundle_path out then Some tarball
       else if r = sidecar_path out then Some (sidecar_text p)
       else if r = sig_path out then Some sig else read_file d r)) \<and>
    (\<forall>r. file_mode d' r = (if r \<in> {bundle_path out, sidecar_path out, sig_path out} then Some 384 else file_mode d r)) \<and>
    map_of (dir_modes d') out = Some 448"
proof -
  from assms obtain tarball out key where
    t: "as_tarball (v_b64decode E) p = Inr tarball" and
    h: "hexdigest (v_sha256 E tarball) = sub_bundle_sha256 p" and
    a: "alert_dir (v_resolve E) (base_dir st) (sub_alert_id p) = Inr out" and
    k: "map_of (store_keys st) ''current'' = Some key"
    by (auto simp: submit_evidence_def Let_def split: sum.split_asm if_split_asm option.split_asm)
  let ?txt = "sidecar_text p" and ?sig = "hexdigest (v_mac E key (sidecar_text p))"
  let ?d2 = "write_file (sig_path out) ?sig (write_file (sidecar_path out) ?txt
      (write_file (bundle_path out) tarball (mkdir out d)))"
  let ?d3 = "chmod_file (sig_path out) 384 (chmod_file (sidecar_path out) 384 (chmod_file (bundle_path out) 384 ?d2))"
  have eq: "sig = ?sig" "d' = ?d3\<lparr>dir_modes := dict_set out 448 (dir_modes ?d3)\<rparr>"
    using assms t h a k by (auto simp: submit_evidence_def Let_def sidecar_text_def)
  have "read_file d' r = (if r = bundle_path out then Some tarball
       else if r = sidecar_path out then Some ?txt else if r = sig_path out then Some ?sig else read_file d r)" for r
    by (simp add: eq(2))
  moreover have "file_mode d' r = (if r \<in> {bundle_path out, sidecar_path out, sig_path out} then Some 384 else file_mode d r)" for r
    by (simp add: eq(2))
  moreover have "map_of (dir_modes d') out = Some 448" by (simp add: eq(2))
  ultimately show ?thesis using t h a k eq(1) by blast
qed

lemma verify_known_text:
  assumes "alert_dir (v_resolve E) (base_dir st) a = Inr out"
    and "read_file d (sidecar_path out) = Some (sidecar_text p)" and "read_file d (sig_path out) = Some sig"
    and "v_loads E (sidecar_text p) = Some (sort_json (sidecar p ''current''))"
  shows "verify_evidence E st d a = Inr (list_ex (signed_with E (sidecar_text p) sig) (map snd (store_keys st)))"
proof -
  let ?F = "list_ex (signed_with E (sidecar_text p) sig) (map snd (store_keys st))"
  obtain kvs where j: "sort_json (sidecar p ''current'') = JObj kvs" by (simp add: sidecar_def)
  have key: "?F" if "map_of (store_keys st) i = Some key" "signed_with E (sidecar_text p) sig key" for i key
    using that map_of_SomeD [OF that(1)] by (force simp: list_ex_iff)
  have "(''key_id'', JStr ''current'') \<in> set kvs" and vals: "\<forall>(k, v) \<in> set kvs. k = ''key_id'' \<longrightarrow> v = JStr ''current''"
    using j [symmetric] by (auto simp: sidecar_def set_sort_items)
  then have "map_of kvs ''key_id'' = Some (JStr ''current'')"
    using map_of_SomeD [of kvs "''key_id''"] by (cases "map_of kvs ''key_id''") (auto simp: map_of_eq_None_iff image_iff)
  then have "key_ref kvs = Key_id ''current''" by (simp add: key_ref_def)
  then show ?thesis
    using assms sidecar_depth_ok [of p] key
    by (auto simp: verify_evidence_def safe_loads_def j Let_def split: option.split)
qed

subsection \<open>Properties\<close>

lemma base_dir_rotate [simp]: "base_dir (rotate_key i k st) = base_dir st"
  by (simp add: rotate_key_def Let_def)

lemma alert_dir_inside:
  "alert_dir resolve base a = Inr out \<Longrightarrow>
     prefix (resolve base @ ''/'') out \<and> a \<noteq> [] \<and> CHR ''/'' \<notin> set a \<and> \<not> prefix ''.'' a \<and>
     out = resolve (base @ ''/'' @ a)"
  by (auto simp: alert_dir_def Let_def py_startswith_def split: if_split_asm)

text \<open>
  C25: A submission that is refused for its hash, its encoding or its id leaves the disk as
  it was.  An accepted one writes exactly three files, all in the resolved directory of an
  id without separators that lies strictly inside the base directory; the stored bundle has
  the announced SHA-256, all three files end with mode 0600 and the directory with 0700; and
  every other file keeps its content and mode.
\<close>

theorem evidence_submit_confined:
  "(\<forall>m d'. submit_evidence E st p d = (Inl (ValueError m), d') \<longrightarrow> d' = d) \<and>
   (\<forall>sig d'. submit_evidence E st p d = (Inr sig, d') \<longrightarrow>
      (\<exists>out tarball. out = v_resolve E (base_dir st @ ''/'' @ sub_alert_id p) \<and>
         prefix (v_resolve E (base_dir st) @ ''/'') out \<and> CHR ''/'' \<notin> set (sub_alert_id p) \<and>
         read_file d' (bundle_path out) = Some tarball \<and>
         hexdigest (v_sha256 E tarball) = sub_bundle_sha256 p \<and>
         (\<forall>r \<in> {bundle_path out, sidecar_path out, sig_path out}. file_mode d' r = Some 384) \<and>
         map_of (dir_modes d') out = Some 448 \<and>
         (\<forall>r. r \<notin> {bundle_path out, sidecar_path out, sig_path out} \<longrightarrow>
            read_file d' r = read_file d r \<and> file_mode d' r = file_mode d r)))"
proof (intro conjI allI impI)
  fix m d'
  assume "submit_evidence E st p d = (Inl (ValueError m), d')"
  then show "d' = d"
    by (auto simp: submit_evidence_def Let_def split: sum.split_asm if_split_asm option.split_asm)
next
  fix sig d'
  assume s: "submit_evidence E st p d = (Inr sig, d')"
  from submit_evidence_Inr [OF s] obtain tarball out key where f:
    "hexdigest (v_sha256 E tarball) = sub_bundle_sha256 p"
    "alert_dir (v_resolve E) (base_dir st) (sub_alert_id p) = Inr out"
    "\<forall>r. read_file d' r = (if r = bundle_path out then Some tarball
       else if r = sidecar_path out then Some (sidecar_text p)
       else if r = sig_path out then Some sig else read_file d r)"
    "\<forall>r. file_mode d' r = (if r \<in> {bundle_path out, sidecar_path out, sig_path out} then Some 384 else file_mode d r)"
    "map_of (dir_modes d') out = Some 448"
    by blast
  show "\<exists>out tarball. out = v_resolve E (base_dir st @ ''/'' @ sub_alert_id p) \<and>
         prefix (v_resolve E (base_dir st) @ ''/'') out \<and> CHR ''/'' \<notin> set (sub_alert_id p) \<and>
         read_file d' (bundle_path out) = Some tarball \<and>
         hexdigest (v_sha256 E tarball) = sub_bundle_sha256 p \<and>
         (\<forall>r \<in> {bundle_path out, sidecar_path out, sig_path out}. file_mode d' r = Some 384) \<and>
         map_of (dir_modes d') out = Some 448 \<and>
         (\<forall>r. r \<notin> {bundle_path out, sidecar_path out, sig_path out} \<longrightarrow>
            read_file d' r = read_file d r \<and> file_mode d' r = file_mode d r)"
  proof (rule exI [of _ out], rule exI [of _ tarball], intro conjI)
    show "out = v_resolve E (base_dir st @ ''/'' @ sub_alert_id p)"
      "prefix (v_resolve E (base_dir st) @ ''/'') out" "CHR ''/'' \<notin> set (sub_alert_id p)"
      using alert_dir_inside [OF f(2)] by blast+
  qed (simp_all add: f(1,3-5))
qed

definition demo_submit :: evidence_submit where
  "demo_submit = \<lparr>sub_alert_id = ''a1'', sub_host_id = ''h1'', sub_captured_at = ''t'', sub_captured_by = ''op'',
     sub_bundle_sha256 = hexdigest [7], sub_source_hashes = [(''auth.log'', ''ab'')], sub_tarball_b64 = ''x'',
     sub_tarball = None\<rparr>"

definition demo_evidence_env :: evidence_env where
  "demo_evidence_env = \<lparr>v_resolve = (\<lambda>p. p), v_sha256 = (\<lambda>t. [length t + 6]), v_mac = (\<lambda>k m. map of_char k),
     v_b64decode = Some, v_loads = (\<lambda>s. Some (sort_json (sidecar demo_submit ''current'')))\<rparr>"

definition demo_store :: evidence_store where
  "demo_store = new_store ''/ev'' ''k0'' []"

definition demo_disk :: disk where
  "demo_disk = snd (submit_evidence demo_evidence_env demo_store demo_submit \<lparr>files = [], dir_modes = []\<rparr>)"

lemma demo_submitted:
  "submit_evidence demo_evidence_env demo_store demo_submit \<lparr>files = [], dir_modes = []\<rparr> =
     (Inr (hexdigest (map of_char ''k0'')), demo_disk)"
proof -
  have "fst (submit_evidence demo_evidence_env demo_store demo_submit \<lparr>files = [], dir_modes = []\<rparr>) =
      Inr (hexdigest (map of_char ''k0''))"
    by code_simp
  then show ?thesis unfolding demo_disk_def by (metis prod.collapse)
qed

theorem evidence_submit_confined_witness:
  "\<exists>out tarball. out = ''/ev/a1'' \<and> read_file demo_disk (bundle_path out) = Some tarball \<and>
     file_mode demo_disk (sig_path out) = Some 384"
  using evidence_submit_confined [of demo_evidence_env demo_store demo_submit "\<lparr>files = [], dir_modes = []\<rparr>",
      THEN conjunct2, rule_format, OF demo_submitted]
  by (auto simp: demo_evidence_env_def demo_store_def demo_submit_def new_store_def)

text \<open>
  C27: What was submitted verifies, under the store that signed it and still after one key
  rotation.  After a second rotation the key that signed it is gone from the store (its two
  later keys are the only ones left), and verification fails unless one of them happens to
  produce the same tag.
\<close>

theorem evidence_rotation:
  assumes "submit_evidence E st p d = (Inr sig, d')"
    and "v_loads E (sidecar_text p) = Some (sort_json (sidecar p ''current''))"
    and "i1 \<notin> {''previous'', ''current''}" and "i2 \<notin> {''previous'', ''current''}"
  shows "verify_evidence E st d' (sub_alert_id p) = Inr True \<and>
    verify_evidence E (rotate_key i1 k1 st) d' (sub_alert_id p) = Inr True \<and>
    (hexdigest (v_mac E k1 (sidecar_text p)) \<noteq> sig \<longrightarrow> hexdigest (v_mac E k2 (sidecar_text p)) \<noteq> sig \<longrightarrow>
      verify_evidence E (rotate_key i2 k2 (rotate_key i1 k1 st)) d' (sub_alert_id p) = Inr False)"
proof -
  from submit_evidence_Inr [OF assms(1)] obtain out key tarball where
    a: "alert_dir (v_resolve E) (base_dir st) (sub_alert_id p) = Inr out" and
    k: "map_of (store_keys st) ''current'' = Some key" and s: "sig = hexdigest (v_mac E key (sidecar_text p))" and
    r: "\<forall>r. read_file d' r = (if r = bundle_path out then Some tarball
       else if r = sidecar_path out then Some (sidecar_text p)
       else if r = sig_path out then Some sig else read_file d r)" by blast
  have files: "read_file d' (sidecar_path out) = Some (sidecar_text p)" "read_file d' (sig_path out) = Some sig"
    using r by simp_all
  have v: "verify_evidence E st2 d' (sub_alert_id p) =
      Inr (list_ex (signed_with E (sidecar_text p) sig) (map snd (store_keys st2)))"
    if "base_dir st2 = base_dir st" for st2
    using verify_known_text [OF _ files assms(2), of st2 "sub_alert_id p"] a that by simp
  have own: "signed_with E (sidecar_text p) sig key" by (simp add: signed_with_def s)
  have "list_ex (signed_with E (sidecar_text p) sig) (map snd (store_keys st))"
    using own map_of_SomeD [OF k] by (force simp: list_ex_iff)
  moreover have keys1: "store_keys (rotate_key i1 k1 st) = [(i1, k1), (''previous'', key), (''current'', k1)]"
    using assms(3) k by (auto simp: rotate_key_def dict_get_def)
  moreover have "store_keys (rotate_key i2 k2 (rotate_key i1 k1 st)) =
      [(i2, k2), (''previous'', k1), (''current'', k2)]"
    using assms(4) by (auto simp: rotate_key_def [of i2] dict_get_def keys1)
  ultimately show ?thesis
    using v [of st] v [of "rotate_key i1 k1 st"] v [of "rotate_key i2 k2 (rotate_key i1 k1 st)"] own
    by (auto simp: signed_with_def)
qed

theorem evidence_rotation_witness:
  "verify_evidence demo_evidence_env (rotate_key ''u1'' ''k1'' demo_store) demo_disk ''a1'' = Inr True \<and>
   verify_evidence demo_evidence_env (rotate_key ''u2'' ''k2'' (rotate_key ''u1'' ''k1'' demo_store)) demo_disk ''a1'' = Inr False"
proof -
  have l: "v_loads demo_evidence_env (sidecar_text demo_submit) = Some (sort_json (sidecar demo_submit ''current''))"
    by (simp add: demo_evidence_env_def)
  have n: "hexdigest (map of_char ''k1'') \<noteq> hexdigest (map of_char ''k0'')"
    "hexdigest (map of_char ''k2'') \<noteq> hexdigest (map of_char ''k0'')" by code_simp+
  show ?thesis
    using evidence_rotation [OF demo_submitted l, of "''u1''" "''u2''" "''k1''" "''k2''"] n
    by (simp add: demo_evidence_env_def demo_submit_def)
qed

text \<open>
  Verification accepts only a sidecar whose stored signature is the MAC of its exact
  bytes under one of the store's keys.  It never reads the bundle: replacing the stored
  tarball by any bytes leaves the verdict as it was.
\<close>

theorem evidence_verify_ignores_bundle:
  "(verify_evidence E st d a = Inr True \<longrightarrow>
      (\<exists>out bs sig key. alert_dir (v_resolve E) (base_dir st) a = Inr out \<and> read_file d (sidecar_path out) = Some bs \<and>
         read_file d (sig_path out) = Some sig \<and> key \<in> snd ` set (store_keys st) \<and> sig = hexdigest (v_mac E key bs))) \<and>
   (\<forall>out junk. alert_dir (v_resolve E) (base_dir st) a = Inr out \<longrightarrow>
      verify_evidence E st (write_file (bundle_path out) junk d) a = verify_evidence E st d a)"
proof (intro conjI impI allI)
  assume v: "verify_evidence E st d a = Inr True"
  then obtain out bs sig where f: "alert_dir (v_resolve E) (base_dir st) a = Inr out"
    "read_file d (sidecar_path out) = Some bs" "read_file d (sig_path out) = Some sig"
    by (auto simp: verify_evidence_def split: sum.split_asm option.split_asm)
  have m: "key \<in> snd ` set (store_keys st)" if "map_of (store_keys st) i = Some key" for i key
    using map_of_SomeD [OF that] by force
  have "\<exists>key \<in> snd ` set (store_keys st). signed_with E bs sig key"
    using v f m
    by (auto simp: verify_evidence_def Let_def list_ex_iff
        split: sum.split_asm loads_error.split_asm json.split_asm key_ref.split_asm option.split_asm if_split_asm)
  then show "\<exists>out bs sig key. alert_dir (v_resolve E) (base_dir st) a = Inr out \<and> read_file d (sidecar_path out) = Some bs \<and>
         read_file d (sig_path out) = Some sig \<and> key \<in> snd ` set (store_keys st) \<and> sig = hexdigest (v_mac E key bs)"
    using f by (auto simp: signed_with_def)
next
  fix out junk
  assume "alert_dir (v_resolve E) (base_dir st) a = Inr out"
  then show "verify_evidence E st (write_file (bundle_path out) junk d) a = verify_evidence E st d a"
    by (simp add: verify_evidence_def)
qed

theorem evidence_verify_ignores_bundle_witness:
  "verify_evidence demo_evidence_env demo_store (write_file (bundle_path ''/ev/a1'') ''junk'' demo_disk) ''a1'' =
   verify_evidence demo_evidence_env demo_store demo_disk ''a1''"
proof -
  have "alert_dir (v_resolve demo_evidence_env) (base_dir demo_store) ''a1'' = Inr ''/ev/a1''" by code_simp
  then show ?thesis
    using evidence_verify_ignores_bundle [of demo_evidence_env demo_store demo_disk "''a1''"] by blast
qed

end
