(* ===== verification/Audit_Log.thy ===== *)
theory Audit_Log
  imports Json
begin

section \<open>The audit log\<close>

text \<open>
  \<open>audit.py\<close>: a bounded in-memory log and a best-effort daily file.  The state holds the
  module's globals; the files written so far are an association list from paths to the JSON
  objects appended to them, one per line.  Opening a file and writing a line may fail
  (\<open>OSError\<close>), which the two flags of the environment say; the day and the time stamp
  are its other fields.
\<close>

subsection \<open>Bounded buffers\<close>

text \<open>
  A deque with \<open>maxlen\<close>: when it is full the oldest entry makes room.  Its clients, the
  audit log here and the self-defense event stream, rely on the law below; the content after
  any number of appends follows in the locale.
\<close>

definition deque_append :: "nat \<Rightarrow> 'a \<Rightarrow> 'a list \<Rightarrow> 'a list" where
  "deque_append maxlen x b = (let b' = b @ [x] in drop (length b' - maxlen) b')"

locale bounded_buffer =
  fixes push :: "'a \<Rightarrow> 'a list \<Rightarrow> 'a list" and cap :: nat
  assumes push_law: "length b \<le> cap \<Longrightarrow> push x b = (if length b < cap then b @ [x] else tl b @ [x])"
    and cap_pos: "0 < cap"
begin

lemma push_length: "length b \<le> cap \<Longrightarrow> length (push x b) \<le> cap"
  using cap_pos by (simp add: push_law)

lemma pushes: "fold push xs [] = drop (length xs - cap) xs"
proof (induction xs rule: rev_induct)
  case (snoc x xs)
  let ?b = "drop (length xs - cap) xs"
  have len: "length ?b = min cap (length xs)" by simp
  have "push x ?b = (if length ?b < cap then ?b @ [x] else tl ?b @ [x])"
    using push_law [of ?b x] by simp
  also have "\<dots> = drop (length (xs @ [x]) - cap) (xs @ [x])"
  proof (cases "length xs < cap")
    case True
    then show ?thesis by simp
  next
    case False
    then show ?thesis using cap_pos by (simp add: tl_drop drop_Suc Suc_diff_le)
  qed
  finally show ?case using snoc by simp
qed simp

lemma pushes_length: "length (fold push xs []) \<le> cap"
  by (simp add: pushes)

end

lemma deque_append_law:
  "length b \<le> cap \<Longrightarrow> 0 < cap \<Longrightarrow>
   deque_append cap x b = (if length b < cap then b @ [x] else tl b @ [x])"
  by (cases b) (auto simp: deque_append_def Let_def Suc_diff_le)

subsection \<open>The module\<close>

definition AUDIT_MAX :: nat where
  "AUDIT_MAX = 1024"

datatype audit_val = Ts string | Val json

type_synonym audit_item = "audit_val str_dict"

record audit_state =
  audit_log :: "audit_item list"
  persist_dir :: "string option"
  persist_handle :: "string option"     \<comment> \<open>the path the handle is open for\<close>
  persist_file :: "string option"
  persist_date :: "string option"
  persist_warned :: bool
  audit_files :: "(string \<times> json list) list"

record audit_env =
  a_today :: string
  a_now_iso :: string
  a_open_ok :: bool
  a_write_ok :: bool

datatype audit_error = Isoformat_AttributeError

interpretation audit_ring: bounded_buffer "deque_append AUDIT_MAX" AUDIT_MAX
  by unfold_locales (simp_all add: deque_append_law AUDIT_MAX_def)

definition ensure_persist_open :: "audit_env \<Rightarrow> audit_state \<Rightarrow> string option \<times> audit_state" where
  "ensure_persist_open e s =
     (case persist_dir s of
        None \<Rightarrow> (None, s)
      | Some dir \<Rightarrow>
          if persist_warned s then (None, s)
          else if persist_handle s \<noteq> None \<and> persist_date s = Some (a_today e)
          then (persist_handle s, s)
          else let target = dir @ ''/audit-'' @ a_today e @ ''.jsonl''
               in if a_open_ok e
                  then (Some target, s\<lparr>persist_handle := Some target, persist_file := Some target,
                                       persist_date := Some (a_today e)\<rparr>)
                  else (None, s\<lparr>persist_warned := True, persist_handle := None\<rparr>))"

definition audit_json :: "audit_item \<Rightarrow> json" where
  "audit_json it = JObj (map (\<lambda>(k, v). (k, case v of Ts t \<Rightarrow> JStr t | Val j \<Rightarrow> j)) it)"

definition make_item ::
  "audit_env \<Rightarrow> string \<Rightarrow> string \<Rightarrow> string \<Rightarrow> int option \<Rightarrow> json str_dict \<Rightarrow> audit_item" where
  "make_item e actor action target status extra =
     (let item = [(''ts'', Ts (a_now_iso e)), (''actor'', Val (JStr actor)),
                  (''action'', Val (JStr action)), (''target'', Val (JStr target))];
          item = (case status of None \<Rightarrow> item | Some n \<Rightarrow> dict_set ''status'' (Val (JInt n)) item)
      in fold (\<lambda>(k, v). dict_set k (Val v)) extra item)"

definition append_line :: "string \<Rightarrow> json \<Rightarrow> (string \<times> json list) list \<Rightarrow> (string \<times> json list) list" where
  "append_line p j fs = dict_set p (dict_get fs p [] @ [j]) fs"

definition audit_record ::
  "audit_env \<Rightarrow> string \<Rightarrow> string \<Rightarrow> string \<Rightarrow> int option \<Rightarrow> json str_dict \<Rightarrow> audit_state \<Rightarrow>
   (audit_error + audit_item) \<times> audit_state" where
  "audit_record e actor action target status extra s =
     (let item = make_item e actor action target status extra;
          s1 = s\<lparr>audit_log := deque_append AUDIT_MAX item (audit_log s)\<rparr>
      in case ensure_persist_open e s1 of
           (None, s2) \<Rightarrow> (Inr item, s2)
         | (Some path, s2) \<Rightarrow>
             (case map_of item ''ts'' of
                Some (Ts t) \<Rightarrow>
                  if a_write_ok e
                  then (Inr item, s2\<lparr>audit_files := append_line path (audit_json item) (audit_files s2)\<rparr>)
                  else (Inr item, s2)
              | _ \<Rightarrow> (Inl Isoformat_AttributeError, s2)))"

definition audit_snapshot :: "int \<Rightarrow> audit_state \<Rightarrow> json list" where
  "audit_snapshot limit s =
     (if limit < 1 then []
      else map audit_json (rev (drop (length (audit_log s) - nat limit) (audit_log s))))"

definition audit_reset :: "audit_state \<Rightarrow> audit_state" where
  "audit_reset s = s\<lparr>audit_log := [], persist_file := None, persist_date := None\<rparr>"

subsection \<open>Runs\<close>

record audit_call =
  c_env :: audit_env
  c_actor :: string
  c_action :: string
  c_target :: string
  c_status :: "int option"
  c_extra :: "json str_dict"

definition call_item :: "audit_call \<Rightarrow> audit_item" where
  "call_item c = make_item (c_env c) (c_actor c) (c_action c) (c_target c) (c_status c) (c_extra c)"

definition do_record :: "audit_call \<Rightarrow> audit_state \<Rightarrow> (audit_error + audit_item) \<times> audit_state" where
  "do_record c s = audit_record (c_env c) (c_actor c) (c_action c) (c_target c) (c_status c) (c_extra c) s"

definition audit_run :: "audit_call list \<Rightarrow> audit_state \<Rightarrow> audit_state" where
  "audit_run cs s = fold (\<lambda>c s. snd (do_record c s)) cs s"

definition lines_of :: "audit_state \<Rightarrow> json list" where
  "lines_of s = concat (map snd (audit_files s))"

lemma ensure_open_log [simp]:
  "audit_log (snd (ensure_persist_open e s)) = audit_log s"
  "audit_files (snd (ensure_persist_open e s)) = audit_files s"
  by (auto simp: ensure_persist_open_def Let_def split: option.split)

lemma do_record_log: "audit_log (snd (do_record c s)) = deque_append AUDIT_MAX (call_item c) (audit_log s)"
proof -
  let ?s1 = "s\<lparr>audit_log := deque_append AUDIT_MAX (call_item c) (audit_log s)\<rparr>"
  obtain h s2 where o2: "ensure_persist_open (c_env c) ?s1 = (h, s2)" by (cases "ensure_persist_open (c_env c) ?s1")
  have "audit_log s2 = audit_log ?s1" using ensure_open_log(1) [of "c_env c" ?s1] by (simp add: o2)
  with o2 show ?thesis
    by (cases h) (auto simp: do_record_def audit_record_def call_item_def Let_def split: option.split audit_val.split)
qed

lemma audit_run_log: "audit_log (audit_run cs s) = fold (deque_append AUDIT_MAX) (map call_item cs) (audit_log s)"
  by (induction cs arbitrary: s) (simp_all add: audit_run_def do_record_log)

lemma make_item_ts: "''ts'' \<notin> fst ` set extra \<Longrightarrow> map_of (make_item e a b t st extra) ''ts'' = Some (Ts (a_now_iso e))"
proof -
  assume ts: "''ts'' \<notin> fst ` set extra"
  have "map_of (fold (\<lambda>(k, v). dict_set k (Val v)) extra it) ''ts'' = map_of it ''ts''" for it
    using ts by (induction extra arbitrary: it) auto
  then show ?thesis by (simp add: make_item_def Let_def split: option.split)
qed


definition demo_audit :: audit_state where
  "demo_audit = \<lparr>audit_log = [], persist_dir = Some ''/var/audit'', persist_handle = None, persist_file = None,
     persist_date = None, persist_warned = False, audit_files = []\<rparr>"

definition demo_call :: "string \<Rightarrow> json str_dict \<Rightarrow> audit_call" where
  "demo_call a extra = \<lparr>c_env = \<lparr>a_today = ''2026-01-01'', a_now_iso = ''t'', a_open_ok = True, a_write_ok = True\<rparr>,
     c_actor = a, c_action = ''GET'', c_target = ''-'', c_status = Some 200, c_extra = extra\<rparr>"


text \<open>
  The promise that \<open>record\<close> never raises has one gap: with the file tier open, extra
  fields that carry their own \<open>ts\<close> make it raise after the entry went into memory, and
  the line is not written.
\<close>

theorem audit_extra_ts_raises:
  assumes "persist_dir s = Some dir" and "\<not> persist_warned s" and "a_open_ok (c_env c)"
    and "(''ts'', v) \<in> set (c_extra c)"
  shows "fst (do_record c s) = Inl Isoformat_AttributeError \<and>
    audit_log (snd (do_record c s)) = deque_append AUDIT_MAX (call_item c) (audit_log s) \<and>
    audit_files (snd (do_record c s)) = audit_files s"
proof -
  have "\<exists>j. map_of (fold (\<lambda>(k, v). dict_set k (Val v)) extra it) ''ts'' = Some (Val j)"
    if "(''ts'', v) \<in> set extra \<or> (\<exists>j. map_of it ''ts'' = Some (Val j))" for extra it
    using that by (induction extra arbitrary: it) auto
  then obtain j where j: "map_of (call_item c) ''ts'' = Some (Val j)"
    using assms(4) by (force simp: call_item_def make_item_def Let_def)
  let ?s1 = "s\<lparr>audit_log := deque_append AUDIT_MAX (call_item c) (audit_log s)\<rparr>"
  have "fst (ensure_persist_open (c_env c) ?s1) \<noteq> None"
    using assms(1-3) by (auto simp: ensure_persist_open_def Let_def)
  then obtain h s2 where o2: "ensure_persist_open (c_env c) ?s1 = (Some h, s2)"
    by (cases "ensure_persist_open (c_env c) ?s1") auto
  have "audit_files s2 = audit_files s" using ensure_open_log(2) [of "c_env c" ?s1] by (simp add: o2)
  then show ?thesis
    using do_record_log [of c s] o2 j by (simp add: do_record_def audit_record_def call_item_def Let_def)
qed

theorem audit_extra_ts_raises_witness:
  "fst (do_record (demo_call ''a'' [(''ts'', JStr ''x'')]) demo_audit) = Inl Isoformat_AttributeError"
  using audit_extra_ts_raises [of demo_audit "''/var/audit''" "demo_call ''a'' [(''ts'', JStr ''x'')]" "JStr ''x''"]
  by (simp add: demo_audit_def demo_call_def)

end
