(* ===== verification/Self_Defense.thy ===== *)
theory Self_Defense
  imports Audit_Log Rate_Limit
begin

section \<open>The self-defense pack\<close>

text \<open>
  \<open>self_defense/__init__.py\<close> (the bounded event stream), \<open>event_normalizer.py\<close> (the
  projection of records and CSP reports to events) and \<open>csp_violation_reporter.py\<close> (the
  report endpoint with its throttle).  The clock is an argument; the texts Python's
  \<open>str()\<close> gives for containers and the integer part of a float are parameters of the
  normaliser.  The lock makes each throttle call atomic, so a run is a sequence of calls.
\<close>

subsection \<open>Events\<close>

record zaqorin_event =
  ze_ts :: string
  ze_event_type :: string
  ze_src_ip :: "string option"
  ze_route :: "string option"
  ze_status :: "int option"
  ze_auth_method :: "string option"
  ze_key_id :: "string option"
  ze_agent_id :: "string option"
  ze_message_size_bytes :: "int option"
  ze_jsonl_persistence_enabled :: "bool option"
  ze_violated_directive :: "string option"
  ze_trigger :: "string option"
  ze_target_table :: "string option"
  ze_target_chain :: "string option"
  ze_cmdline :: "string option"

definition opt_entry :: "string \<Rightarrow> ('a \<Rightarrow> json) \<Rightarrow> 'a option \<Rightarrow> json str_dict" where
  \<comment> \<open>\<open>if self.x is not None: md["x"] = self.x\<close>\<close>
  "opt_entry k f v = (case v of None \<Rightarrow> [] | Some x \<Rightarrow> [(k, f x)])"

definition to_metadata :: "zaqorin_event \<Rightarrow> json str_dict" where
  "to_metadata e =
     [(''event_type'', JStr (ze_event_type e)),
      (''src_ip'', case ze_src_ip e of None \<Rightarrow> JNull | Some s \<Rightarrow> JStr s)] @
     opt_entry ''route'' JStr (ze_route e) @ opt_entry ''status'' JInt (ze_status e) @
     opt_entry ''auth_method'' JStr (ze_auth_method e) @ opt_entry ''key_id'' JStr (ze_key_id e) @
     opt_entry ''agent_id'' JStr (ze_agent_id e) @
     opt_entry ''message_size_bytes'' JInt (ze_message_size_bytes e) @
     opt_entry ''jsonl_persistence_enabled'' JBool (ze_jsonl_persistence_enabled e) @
     opt_entry ''violated_directive'' JStr (ze_violated_directive e) @
     opt_entry ''trigger'' JStr (ze_trigger e) @ opt_entry ''target_table'' JStr (ze_target_table e) @
     opt_entry ''target_chain'' JStr (ze_target_chain e) @ opt_entry ''cmdline'' JStr (ze_cmdline e)"

definition opt_int :: "py_texts \<Rightarrow> json str_dict \<Rightarrow> string \<Rightarrow> int option" where
  "opt_int T rec key = (case map_of rec key of None \<Rightarrow> None | Some JNull \<Rightarrow> None | Some v \<Rightarrow> py_int_of T v)"

definition opt_bool :: "json str_dict \<Rightarrow> string \<Rightarrow> bool option" where
  "opt_bool rec key = (case map_of rec key of
      Some (JBool b) \<Rightarrow> Some b
    | Some (JStr s) \<Rightarrow>
        (let lo = py_lower (py_strip s)
         in if lo \<in> {''true'', ''1'', ''yes''} then Some True
            else if lo \<in> {''false'', ''0'', ''no''} then Some False else None)
    | _ \<Rightarrow> None)"

definition opt_str :: "json str_dict \<Rightarrow> string \<Rightarrow> string option" where
  "opt_str rec key = (case map_of rec key of Some (JStr s) \<Rightarrow> Some s | _ \<Rightarrow> None)"

definition from_log_record :: "py_texts \<Rightarrow> string \<Rightarrow> json str_dict \<Rightarrow> zaqorin_event" where
  "from_log_record T now_iso rec =
     \<lparr>ze_ts = now_iso,
      ze_event_type = (case map_of rec ''event_type'' of
                         Some v \<Rightarrow> if py_truthy T v then py_str T v else '''' | None \<Rightarrow> ''''),
      ze_src_ip = opt_str rec ''src_ip'', ze_route = opt_str rec ''route'',
      ze_status = opt_int T rec ''status'', ze_auth_method = opt_str rec ''auth_method'',
      ze_key_id = opt_str rec ''key_id'', ze_agent_id = opt_str rec ''agent_id'',
      ze_message_size_bytes = opt_int T rec ''message_size_bytes'',
      ze_jsonl_persistence_enabled = opt_bool rec ''jsonl_persistence_enabled'',
      ze_violated_directive = opt_str rec ''violated_directive'', ze_trigger = opt_str rec ''trigger'',
      ze_target_table = opt_str rec ''target_table'', ze_target_chain = opt_str rec ''target_chain'',
      ze_cmdline = opt_str rec ''cmdline''\<rparr>"

definition bare_directive :: "string \<Rightarrow> string" where
  "bare_directive v =
     (let v1 = py_strip (hd (py_split (CHR '';'') v))
      in if CHR '' '' \<in> set v1 then py_strip (hd (py_split (CHR '' '') v1)) else v1)"

definition from_csp_report :: "py_texts \<Rightarrow> string \<Rightarrow> json str_dict \<Rightarrow> string option \<Rightarrow> int option \<Rightarrow> zaqorin_event" where
  "from_csp_report T now_iso body src_ip status =
     (let inner = (case map_of body ''csp-report'' of Some (JObj kvs) \<Rightarrow> kvs | _ \<Rightarrow> body);
          violated = (case map_of inner ''violated-directive'' of
                        Some v \<Rightarrow> if py_truthy T v then Some v else map_of inner ''effective-directive''
                      | None \<Rightarrow> map_of inner ''effective-directive'');
          text = bare_directive (case violated of Some (JStr s) \<Rightarrow> s | _ \<Rightarrow> '''')
      in \<lparr>ze_ts = now_iso, ze_event_type = ''csp.violation'', ze_src_ip = src_ip,
          ze_route = Some ''/api/v1/_csp-report'', ze_status = status, ze_auth_method = None,
          ze_key_id = None, ze_agent_id = None, ze_message_size_bytes = None,
          ze_jsonl_persistence_enabled = None,
          ze_violated_directive = (if text = [] then None else Some text), ze_trigger = None,
          ze_target_table = None, ze_target_chain = None, ze_cmdline = None\<rparr>)"

subsection \<open>The stream\<close>

definition STREAM_MAX :: nat where
  "STREAM_MAX = 4096"

definition emit :: "zaqorin_event \<Rightarrow> zaqorin_event list \<Rightarrow> zaqorin_event list" where
  "emit ev stream = deque_append STREAM_MAX ev stream"

definition drain :: "nat \<Rightarrow> zaqorin_event list \<Rightarrow> zaqorin_event list" where
  \<comment> \<open>\<open>list(_STREAM)[-max_items:]\<close>; with 0 the slice is the whole list\<close>
  "drain max_items stream = (if max_items = 0 then stream else drop (length stream - max_items) stream)"

interpretation stream_ring: bounded_buffer emit STREAM_MAX
  by unfold_locales (simp_all add: emit_def deque_append_law STREAM_MAX_def)

subsection \<open>The report endpoint\<close>

definition THROTTLE_WINDOW_SEC :: rat where
  "THROTTLE_WINDOW_SEC = 60"

definition THROTTLE_BUDGET :: int where
  "THROTTLE_BUDGET = 10"

definition MAX_BODY_BYTES :: int where
  "MAX_BODY_BYTES = 16 * 1024"

type_synonym recent = "(string \<times> rat list) list"

definition evict_stale :: "rat \<Rightarrow> recent \<Rightarrow> recent" where
  "evict_stale now rec =
     filter (\<lambda>(ip, b). \<not> (b = [] \<or> last b < now - THROTTLE_WINDOW_SEC)) rec"

definition throttle_allowed :: "string \<Rightarrow> rat \<Rightarrow> recent \<Rightarrow> bool \<times> recent" where
  "throttle_allowed src_ip now rec =
     (let rec1 = evict_stale now rec;
          bucket = popleft_old (now - THROTTLE_WINDOW_SEC) (dict_get rec1 src_ip [])
      in if int (length bucket) \<ge> THROTTLE_BUDGET then (False, dict_set src_ip bucket rec1)
         else (True, dict_set src_ip (bucket @ [now]) rec1))"

definition resolve_src_ip :: "(string \<rightharpoonup> string) \<Rightarrow> http_request \<Rightarrow> string" where
  "resolve_src_ip env r =
     (let configured = py_strip (case env ''ZAQORIN_SRC_IP_HEADER'' of None \<Rightarrow> '''' | Some v \<Rightarrow> v);
          raw = (if configured \<noteq> [] then header r (py_lower configured) '''' else '''');
          host = (case req_client r of Some h \<Rightarrow> if h \<noteq> [] then h else ''<unknown>'' | None \<Rightarrow> ''<unknown>'')
      in if raw \<noteq> [] then
           (let first = py_strip (hd (py_split (CHR '','') raw)) in if first \<noteq> [] then first else ''<unknown>'')
         else host)"

record csp_state =
  csp_recent :: recent
  csp_stream :: "zaqorin_event list"

definition receive_csp_report ::
  "py_texts \<Rightarrow> (string \<rightharpoonup> string) \<Rightarrow> string \<Rightarrow> rat \<Rightarrow> json str_dict \<Rightarrow> http_request \<Rightarrow> csp_state \<Rightarrow> int \<times> csp_state" where
  \<comment> \<open>the status code of the response\<close>
  "receive_csp_report T env now_iso now payload r s =
     (if list_ex (\<lambda>h. py_contains (py_lower (header r h '''')) ''chunked'')
           [''transfer-encoding'', ''te'', ''x-transfer-encoding''] then (411, s)
      else case (case map_of (req_headers r) ''content-length'' of
                   None \<Rightarrow> None
                 | Some cl \<Rightarrow> (case py_int cl of None \<Rightarrow> Some 400
                               | Some n \<Rightarrow> if n > MAX_BODY_BYTES then Some 413 else None)) of
        Some code \<Rightarrow> (code, s)
      | None \<Rightarrow>
          let src_ip = resolve_src_ip env r;
              (ok, rec') = throttle_allowed src_ip now (csp_recent s)
          in if \<not> ok then (429, s\<lparr>csp_recent := rec'\<rparr>)
             else (204, s\<lparr>csp_recent := rec',
                          csp_stream := emit (from_csp_report T now_iso payload (Some src_ip) (Some 204)) (csp_stream s)\<rparr>))"

subsection \<open>The throttle meets the sliding-window contract\<close>

definition recent_hits :: "recent \<Rightarrow> string \<Rightarrow> rat list" where
  "recent_hits rec ip = dict_get rec ip []"

lemma map_of_evict:
  "distinct (map fst rec) \<Longrightarrow> map_of (evict_stale now rec) ip =
     (case map_of rec ip of None \<Rightarrow> None
      | Some b \<Rightarrow> if b = [] \<or> last b < now - THROTTLE_WINDOW_SEC then None else Some b)"
proof (induction rec)
  case (Cons e rec)
  obtain j b where e: "e = (j, b)" by (cases e)
  have "map_of rec j = None" using Cons.prems by (simp add: e map_of_eq_None_iff)
  with Cons show ?case by (auto simp: evict_stale_def e)
qed (simp add: evict_stale_def)

lemma live_last_old:
  "hist_ok now b \<Longrightarrow> b \<noteq> [] \<Longrightarrow> last b < now - w \<Longrightarrow> live w now b = []"
proof -
  assume h: "hist_ok now b" and ne: "b \<noteq> []" and l: "last b < now - w"
  have "x \<le> last b" if "x \<in> set b" for x
    using h that ne by (cases b rule: rev_cases) (auto simp: hist_ok_def sorted_append)
  then show ?thesis using l by (fastforce simp: live_def filter_empty_conv)
qed

lemma recent_hits_evict:
  assumes "distinct (map fst rec)" and "hist_ok now (recent_hits rec ip)"
  shows "live THROTTLE_WINDOW_SEC now (recent_hits (evict_stale now rec) ip) =
      live THROTTLE_WINDOW_SEC now (recent_hits rec ip)"
    and "hist_ok now (recent_hits (evict_stale now rec) ip)"
proof -
  have "recent_hits (evict_stale now rec) ip = recent_hits rec ip \<or>
      (recent_hits (evict_stale now rec) ip = [] \<and> live THROTTLE_WINDOW_SEC now (recent_hits rec ip) = [])"
  proof (cases "map_of rec ip")
    case None
    then show ?thesis using assms(1) by (simp add: recent_hits_def dict_get_def map_of_evict)
  next
    case (Some b)
    then have "hist_ok now b" using assms(2) by (simp add: recent_hits_def dict_get_def)
    then have "live THROTTLE_WINDOW_SEC now b = []" if "b = [] \<or> last b < now - THROTTLE_WINDOW_SEC"
      using that live_last_old by (cases "b = []") (auto simp: live_def)
    then show ?thesis using Some assms(1) by (auto simp: recent_hits_def dict_get_def map_of_evict)
  qed
  then show "live THROTTLE_WINDOW_SEC now (recent_hits (evict_stale now rec) ip) =
      live THROTTLE_WINDOW_SEC now (recent_hits rec ip)"
    and "hist_ok now (recent_hits (evict_stale now rec) ip)"
    using assms(2) by (auto simp: live_def hist_ok_def)
qed

lemma distinct_evict: "distinct (map fst rec) \<Longrightarrow> distinct (map fst (evict_stale now rec))"
  by (simp add: evict_stale_def distinct_map_filter)

lemma throttle_step:
  assumes d: "distinct (map fst rec)" and h: "\<And>j. hist_ok now (recent_hits rec j)"
  shows "fst (throttle_allowed ip now rec) \<longleftrightarrow>
      int (length (live THROTTLE_WINDOW_SEC now (recent_hits rec ip))) < THROTTLE_BUDGET"
    and "live THROTTLE_WINDOW_SEC now (recent_hits (snd (throttle_allowed ip now rec)) j) =
      live THROTTLE_WINDOW_SEC now (recent_hits rec j) @ (if j = ip \<and> fst (throttle_allowed ip now rec) then [now] else [])"
    and "hist_ok now (recent_hits (snd (throttle_allowed ip now rec)) j)"
    and "distinct (map fst (snd (throttle_allowed ip now rec)))"
proof -
  let ?r = "evict_stale now rec"
  let ?l = "live THROTTLE_WINDOW_SEC now (recent_hits rec ip)"
  have b: "popleft_old (now - THROTTLE_WINDOW_SEC) (dict_get ?r ip []) = ?l"
    using popleft_old_live [OF recent_hits_evict(2) [OF d h, of ip]] recent_hits_evict(1) [OF d h, of ip]
    by (simp add: recent_hits_def)
  show f: "fst (throttle_allowed ip now rec) \<longleftrightarrow> int (length ?l) < THROTTLE_BUDGET"
    by (simp add: throttle_allowed_def Let_def b)
  have s: "snd (throttle_allowed ip now rec) =
      dict_set ip (?l @ (if fst (throttle_allowed ip now rec) then [now] else [])) ?r"
    by (simp add: throttle_allowed_def Let_def b)
  have hits: "recent_hits (snd (throttle_allowed ip now rec)) j =
      (if j = ip then ?l @ (if fst (throttle_allowed ip now rec) then [now] else []) else recent_hits ?r j)" for j
    unfolding s by (simp add: recent_hits_def dict_get_def)
  have w: "0 \<le> THROTTLE_WINDOW_SEC" by (simp add: THROTTLE_WINDOW_SEC_def)
  show "live THROTTLE_WINDOW_SEC now (recent_hits (snd (throttle_allowed ip now rec)) j) =
      live THROTTLE_WINDOW_SEC now (recent_hits rec j) @ (if j = ip \<and> fst (throttle_allowed ip now rec) then [now] else [])"
    using recent_hits_evict(1) [OF d h, of j] by (auto simp: hits live_append live_live live_self [OF w])
  show "hist_ok now (recent_hits (snd (throttle_allowed ip now rec)) j)"
    using hist_ok_live [OF h] hist_ok_snoc recent_hits_evict(2) [OF d h, of j] by (auto simp: hits)
  show "distinct (map fst (snd (throttle_allowed ip now rec)))"
    unfolding s by (rule distinct_dict_set [OF distinct_evict [OF d]])
qed

interpretation throttle: window_limiter throttle_allowed recent_hits "\<lambda>r. distinct (map fst r)" THROTTLE_BUDGET THROTTLE_WINDOW_SEC
proof unfold_locales
  show "0 \<le> THROTTLE_WINDOW_SEC" by (simp add: THROTTLE_WINDOW_SEC_def)
  fix s now k j
  assume d: "distinct (map fst s)" and h: "\<And>j. hist_ok now (recent_hits s j)"
  show "fst (throttle_allowed k now s) = (int (length (live THROTTLE_WINDOW_SEC now (recent_hits s k))) < THROTTLE_BUDGET)"
    using d h by (rule throttle_step)
  show "live THROTTLE_WINDOW_SEC now (recent_hits (snd (throttle_allowed k now s)) j) =
      live THROTTLE_WINDOW_SEC now (recent_hits s j) @ (if j = k \<and> fst (throttle_allowed k now s) then [now] else [])"
    using d h by (rule throttle_step)
  show "hist_ok now (recent_hits (snd (throttle_allowed k now s)) j)"
    using d h by (rule throttle_step)
  show "distinct (map fst (snd (throttle_allowed k now s)))"
    using d h by (rule throttle_step)
qed

subsection \<open>Runs of the endpoint\<close>

record csp_call =
  n_iso :: string
  n_now :: rat
  n_payload :: "json str_dict"
  n_req :: http_request

definition csp_do :: "py_texts \<Rightarrow> (string \<rightharpoonup> string) \<Rightarrow> csp_call \<Rightarrow> csp_state \<Rightarrow> int \<times> csp_state" where
  "csp_do T env c s = receive_csp_report T env (n_iso c) (n_now c) (n_payload c) (n_req c) s"

fun csp_run :: "py_texts \<Rightarrow> (string \<rightharpoonup> string) \<Rightarrow> csp_call list \<Rightarrow> csp_state \<Rightarrow> (csp_call \<times> int) list" where
  "csp_run T env [] s = []"
| "csp_run T env (c # cs) s = (c, fst (csp_do T env c s)) # csp_run T env cs (snd (csp_do T env c s))"

fun csp_final :: "py_texts \<Rightarrow> (string \<rightharpoonup> string) \<Rightarrow> csp_call list \<Rightarrow> csp_state \<Rightarrow> csp_state" where
  "csp_final T env [] s = s"
| "csp_final T env (c # cs) s = csp_final T env cs (snd (csp_do T env c s))"

definition csp_key :: "(string \<rightharpoonup> string) \<Rightarrow> csp_call \<Rightarrow> string \<times> rat" where
  "csp_key env c = (resolve_src_ip env (n_req c), n_now c)"

definition csp_event :: "py_texts \<Rightarrow> (string \<rightharpoonup> string) \<Rightarrow> csp_call \<Rightarrow> zaqorin_event" where
  "csp_event T env c = from_csp_report T (n_iso c) (n_payload c) (Some (resolve_src_ip env (n_req c))) (Some 204)"

definition te_chunked :: "http_request \<Rightarrow> bool" where
  "te_chunked r \<longleftrightarrow> list_ex (\<lambda>h. py_contains (py_lower (header r h '''')) ''chunked'')
     [''transfer-encoding'', ''te'', ''x-transfer-encoding'']"

definition length_refusal :: "http_request \<Rightarrow> int option" where
  "length_refusal r = (case map_of (req_headers r) ''content-length'' of None \<Rightarrow> None
     | Some cl \<Rightarrow> (case py_int cl of None \<Rightarrow> Some 400 | Some n \<Rightarrow> if n > MAX_BODY_BYTES then Some 413 else None))"

lemma csp_do_eq:
  "csp_do T env c s =
     (if te_chunked (n_req c) then (411, s)
      else case length_refusal (n_req c) of
        Some code \<Rightarrow> (code, s)
      | None \<Rightarrow>
         (let t = throttle_allowed (fst (csp_key env c)) (n_now c) (csp_recent s)
          in if fst t then (204, s\<lparr>csp_recent := snd t, csp_stream := emit (csp_event T env c) (csp_stream s)\<rparr>)
             else (429, s\<lparr>csp_recent := snd t\<rparr>)))"
  by (simp add: csp_do_def receive_csp_report_def te_chunked_def length_refusal_def csp_key_def csp_event_def
      split_beta Let_def split: option.split)

lemma length_refusal_codes: "length_refusal r = Some code \<Longrightarrow> code \<in> {400, 413}"
  by (auto simp: length_refusal_def split: option.split_asm if_split_asm)

definition csp_checked :: "csp_call \<times> int \<Rightarrow> bool" where
  "csp_checked e \<longleftrightarrow> snd e \<in> {204, 429}"

lemma csp_run_spec:
  assumes "throttle.refines now (csp_recent s) lg" and "sorted (now # map n_now cs)"
  shows "map (\<lambda>e. snd e = 204) (filter csp_checked (csp_run T env cs s)) =
      decisions (log_step THROTTLE_BUDGET THROTTLE_WINDOW_SEC)
        (map (csp_key env \<circ> fst) (filter csp_checked (csp_run T env cs s))) lg \<and>
    csp_stream (csp_final T env cs s) =
      fold emit (map (csp_event T env \<circ> fst) (filter (\<lambda>e. snd e = 204) (csp_run T env cs s))) (csp_stream s)"
  using assms
proof (induction cs arbitrary: now s lg)
  case (Cons c cs)
  have R: "throttle.refines (n_now c) (csp_recent s) lg"
    using Cons.prems throttle.refines_later [of now "csp_recent s" lg "n_now c"] by simp
  have srt: "sorted (n_now c # map n_now cs)" using Cons.prems(2) by simp
  show ?case
  proof (cases "te_chunked (n_req c) \<or> length_refusal (n_req c) \<noteq> None")
    case True
    then have "snd (csp_do T env c s) = s \<and> fst (csp_do T env c s) \<in> {411, 400, 413}"
      using length_refusal_codes [of "n_req c"] by (auto simp: csp_do_eq)
    then obtain code where c: "csp_do T env c s = (code, s)" and "code \<in> {411, 400, 413}"
      by (metis prod.collapse)
    then show ?thesis using Cons.IH [OF R srt] by (auto simp: csp_checked_def)
  next
    case False
    let ?k = "fst (csp_key env c)"
    let ?t = "throttle_allowed ?k (n_now c) (csp_recent s)"
    note st = throttle.refines_step [OF R, of ?k]
    have k: "snd (csp_key env c) = n_now c" by (simp add: csp_key_def)
    have do_c: "csp_do T env c s = (if fst ?t then (204, s\<lparr>csp_recent := snd ?t, csp_stream := emit (csp_event T env c) (csp_stream s)\<rparr>)
          else (429, s\<lparr>csp_recent := snd ?t\<rparr>))"
      using False by (simp add: csp_do_eq Let_def)
    have "throttle.refines (n_now c) (csp_recent (snd (csp_do T env c s))) (snd (log_step THROTTLE_BUDGET THROTTLE_WINDOW_SEC ?k (n_now c) lg))"
      using st(2) by (simp add: do_c)
    from Cons.IH [OF this srt] show ?thesis
      using st(1) k by (cases "fst ?t") (simp_all add: do_c csp_checked_def decisions_Cons)
  qed
qed simp

lemma accepted_filter:
  "accepted (map f (filter P xs)) (map d (filter P xs)) = map f (filter (\<lambda>x. P x \<and> d x) xs)"
  by (induction xs) auto

text \<open>
  C31: However many reports arrive, in time order: at most ten per source address are
  accepted in any 60-second window, and the event stream holds exactly the events of the
  accepted reports (the latest 4096, in order), so refused, oversized, chunked and throttled
  requests leave no event.
\<close>

theorem csp_reports_bounded:
  fixes T :: py_texts and env :: "string \<rightharpoonup> string"
  assumes "sorted (map n_now cs)"
  defines "s0 \<equiv> \<lparr>csp_recent = [], csp_stream = []\<rparr>"
  defines "ok \<equiv> filter (\<lambda>e. snd e = 204) (csp_run T env cs s0)"
  shows "(\<forall>ip t. int (window_count 60 t (log_hits (map (csp_key env \<circ> fst) ok) ip)) \<le> 10) \<and>
    csp_stream (csp_final T env cs s0) =
      drop (length ok - 4096) (map (csp_event T env \<circ> fst) ok)"
proof -
  define now where "now = (case cs of [] \<Rightarrow> 0 | c # _ \<Rightarrow> n_now c)"
  have srt: "sorted (now # map n_now cs)" using assms(1) by (cases cs) (auto simp: now_def)
  have R: "throttle.refines now (csp_recent s0) []"
    by (auto simp: throttle.refines_def s0_def recent_hits_def dict_get_def hist_ok_def live_def log_hits_def)
  let ?chk = "filter csp_checked (csp_run T env cs s0)"
  let ?sub = "map (csp_key env \<circ> fst) ?chk"
  have d: "map (\<lambda>e. snd e = 204) ?chk = decisions (log_step THROTTLE_BUDGET THROTTLE_WINDOW_SEC) ?sub []"
    and st: "csp_stream (csp_final T env cs s0) = fold emit (map (csp_event T env \<circ> fst) ok) (csp_stream s0)"
    using csp_run_spec [OF R srt, of T env] unfolding ok_def by blast+
  have "log_bounded THROTTLE_BUDGET THROTTLE_WINDOW_SEC ([] :: (string \<times> rat) list)"
    by (simp add: log_bounded_def log_hits_def window_count_def)
  from log_run_bounded [OF this, of ?sub]
  have "log_bounded THROTTLE_BUDGET THROTTLE_WINDOW_SEC (accepted ?sub (map (\<lambda>e. snd e = 204) ?chk))"
    unfolding d by simp
  moreover have "filter (\<lambda>e. csp_checked e \<and> snd e = 204) (csp_run T env cs s0) = ok"
    unfolding ok_def by (rule filter_cong) (auto simp: csp_checked_def)
  ultimately have "log_bounded THROTTLE_BUDGET THROTTLE_WINDOW_SEC (map (csp_key env \<circ> fst) ok)"
    by (simp add: accepted_filter)
  moreover have "csp_stream s0 = []" by (simp add: s0_def)
  ultimately show ?thesis
    using st stream_ring.pushes [of "map (csp_event T env \<circ> fst) ok"]
    by (simp add: log_bounded_def THROTTLE_BUDGET_def THROTTLE_WINDOW_SEC_def STREAM_MAX_def)
qed

definition demo_texts :: py_texts where
  "demo_texts = \<lparr>t_float_int = (\<lambda>_. None), t_float_zero = (\<lambda>_. False), t_repr = (\<lambda>_. '''')\<rparr>"

definition demo_csp_call :: "rat \<Rightarrow> csp_call" where
  "demo_csp_call t = \<lparr>n_iso = ''t'', n_now = t, n_payload = [(''violated-directive'', JStr ''script-src none; x'')],
     n_req = demo_request ''/api/v1/_csp-report''\<rparr>"

lemma demo_csp_run:
  "map (\<lambda>e. snd e) (csp_run demo_texts Map.empty [demo_csp_call 0, demo_csp_call 1] \<lparr>csp_recent = [], csp_stream = []\<rparr>) =
     [204, 204]"
proof -
  have t: "\<not> te_chunked (n_req (demo_csp_call t))" for t
    by (simp add: te_chunked_def demo_csp_call_def demo_request_def header_def dict_get_def py_lower_def)
  have l: "length_refusal (n_req (demo_csp_call t)) = None" for t
    by (simp add: length_refusal_def demo_csp_call_def demo_request_def)
  have n: "n_now (demo_csp_call t) = t" for t by (simp add: demo_csp_call_def)
  show ?thesis
    by (simp add: csp_do_eq t l n Let_def throttle_allowed_def evict_stale_def dict_get_def popleft_old_def THROTTLE_BUDGET_def
        THROTTLE_WINDOW_SEC_def csp_key_def)
qed

theorem csp_reports_bounded_witness:
  "csp_stream (csp_final demo_texts Map.empty [demo_csp_call 0, demo_csp_call 1] \<lparr>csp_recent = [], csp_stream = []\<rparr>) =
     [csp_event demo_texts Map.empty (demo_csp_call 0), csp_event demo_texts Map.empty (demo_csp_call 1)]"
proof -
  have ok: "filter (\<lambda>e. snd e = 204) (csp_run demo_texts Map.empty [demo_csp_call 0, demo_csp_call 1] \<lparr>csp_recent = [], csp_stream = []\<rparr>) =
      [(demo_csp_call 0, 204), (demo_csp_call 1, 204)]" using demo_csp_run by simp
  have srt: "sorted (map n_now [demo_csp_call 0, demo_csp_call 1])" by (simp add: demo_csp_call_def)
  show ?thesis
    using csp_reports_bounded [OF srt, of Map.empty demo_texts, THEN conjunct2] unfolding ok by simp
qed

lemma set_strip: "set (py_strip s) \<subseteq> set s"
proof -
  have "set (dropWhile P xs) \<subseteq> set xs" for P :: "char \<Rightarrow> bool" and xs by (auto dest: set_dropWhileD)
  from this [of py_isspace "rev (dropWhile py_isspace s)"] this [of py_isspace s]
  show ?thesis by (auto simp: py_strip_def py_rstrip_def py_lstrip_def)
qed

lemma hd_split: "sep \<notin> set (hd (py_split sep s))"
  using py_split_no_sep [of "hd (py_split sep s)" sep s] by simp

lemma set_hd_split: "set (hd (py_split sep s)) \<subseteq> set s"
proof (induction s)
  case (Cons c s)
  then show ?case by (cases "py_split sep s") auto
qed simp

lemma opt_entry_distinct: "distinct (map fst (opt_entry k f x))"
  by (simp add: opt_entry_def split: option.split)

lemma opt_entry_key: "j \<in> fst ` set (opt_entry k f x) \<longleftrightarrow> j = k \<and> x \<noteq> None"
  by (auto simp: opt_entry_def split: option.split)

lemma opt_entry_disjoint:
  "k \<noteq> k' \<Longrightarrow> fst ` set (opt_entry k f x) \<inter> fst ` set (opt_entry k' g y) = {}"
  by (auto simp: opt_entry_def split: option.split)

lemma opt_entry_null: "(\<And>y. f y \<noteq> JNull) \<Longrightarrow> (j, JNull) \<notin> set (opt_entry k f x)"
  by (cases x) (simp_all add: opt_entry_def, metis)

lemmas opt_entry_facts = opt_entry_distinct opt_entry_key opt_entry_disjoint opt_entry_null

lemma bare_directive_clean: "CHR '';'' \<notin> set (bare_directive v)" "CHR '' '' \<notin> set (bare_directive v)"
proof -
  let ?v1 = "py_strip (hd (py_split (CHR '';'') v))"
  have v1: "CHR '';'' \<notin> set ?v1" using set_strip hd_split by blast
  have w: "set (py_strip (hd (py_split (CHR '' '') ?v1))) \<subseteq> set ?v1" using set_strip set_hd_split by blast
  have w2: "CHR '' '' \<notin> set (py_strip (hd (py_split (CHR '' '') ?v1)))" using set_strip hd_split by blast
  show "CHR '';'' \<notin> set (bare_directive v)" using v1 w by (auto simp: bare_directive_def Let_def)
  show "CHR '' '' \<notin> set (bare_directive v)" using w2 by (auto simp: bare_directive_def Let_def)
qed

text \<open>
  Normalisation is total and clean: the directive of a CSP event is absent or a
  non-empty word without semicolon and without blank, wherever the body put it; and the
  metadata of any event has pairwise different keys and no null value, except \<open>src_ip\<close>,
  which is kept as null when it is unknown.
\<close>

theorem normalised_events_clean:
  "(case ze_violated_directive (from_csp_report T ts body ip st) of None \<Rightarrow> True
    | Some d \<Rightarrow> d \<noteq> [] \<and> CHR '';'' \<notin> set d \<and> CHR '' '' \<notin> set d) \<and>
   distinct (map fst (to_metadata ev)) \<and>
   {k. (k, JNull) \<in> set (to_metadata ev)} = (if ze_src_ip ev = None then {''src_ip''} else {})"
proof -
  have "case ze_violated_directive (from_csp_report T ts body ip st) of None \<Rightarrow> True
    | Some d \<Rightarrow> d \<noteq> [] \<and> CHR '';'' \<notin> set d \<and> CHR '' '' \<notin> set d"
    using bare_directive_clean by (simp add: from_csp_report_def Let_def)
  moreover have "{k. (k, JNull) \<in> set (to_metadata ev)} = (if ze_src_ip ev = None then {''src_ip''} else {})"
    by (auto simp: to_metadata_def opt_entry_facts split: option.split_asm)
  moreover have "distinct (map fst (to_metadata ev))"
    by (simp add: to_metadata_def opt_entry_facts image_Un Int_Un_distrib)
  ultimately show ?thesis by blast
qed

end
