(* ===== verification/Redis.thy ===== *)
theory Redis
  imports Prelude
begin

section \<open>Redis as the detectors use it\<close>

text \<open>
  The Redis server is not part of the repository: the components take it as a parameter
  \<open>R\<close>, a function that runs a list of commands (a single call or a pipeline) on the
  server's state and returns the replies, or \<open>None\<close> for an exception of the client.
  What the code relies on is stated by \<open>behaves_like_redis\<close>: seen through
  \<open>view\<close>, the commands have their documented effect on sorted sets, strings and sets,
  the server is available and no key expires meanwhile.  Properties about counting and
  cooldowns have this hypothesis; the others hold for every \<open>R\<close>.
\<close>

datatype redis_cmd =
  ZRemRangeByScore string "rat option" rat   \<comment> \<open>\<open>None\<close> is \<open>-inf\<close>\<close>
| ZAdd string string rat
| ZCard string
| Expire string int
| SetKey string string int bool              \<comment> \<open>key, value, \<open>ex\<close>, \<open>nx\<close>\<close>
| Exists string
| SIsMember string string
| SAdd string string
| XAck string string string

datatype redis_reply = RInt int | RBool bool | RNone

type_synonym 'r redis = "redis_cmd list \<Rightarrow> 'r \<Rightarrow> redis_reply list option \<times> 'r"

record redis_store =
  r_zsets :: "(string \<times> (string \<times> rat) list) list"
  r_keys :: "(string \<times> string) list"
  r_sets :: "(string \<times> string list) list"
  r_acked :: "string list"

definition zset :: "redis_store \<Rightarrow> string \<Rightarrow> (string \<times> rat) list" where
  "zset s k = dict_get (r_zsets s) k []"

definition in_score_range :: "rat option \<Rightarrow> rat \<Rightarrow> rat \<Rightarrow> bool" where
  "in_score_range lo hi x \<longleftrightarrow> (case lo of None \<Rightarrow> True | Some l \<Rightarrow> l \<le> x) \<and> x \<le> hi"

fun redis_exec1 :: "redis_cmd \<Rightarrow> redis_store \<Rightarrow> redis_reply \<times> redis_store" where
  "redis_exec1 (ZRemRangeByScore k lo hi) s =
     (let old = zset s k; new = filter (\<lambda>m. \<not> in_score_range lo hi (snd m)) old
      in (RInt (int (length old - length new)), s\<lparr>r_zsets := dict_set k new (r_zsets s)\<rparr>))"
| "redis_exec1 (ZAdd k m x) s =
     (RInt (if map_of (zset s k) m = None then 1 else 0),
      s\<lparr>r_zsets := dict_set k (dict_set m x (zset s k)) (r_zsets s)\<rparr>)"
| "redis_exec1 (ZCard k) s = (RInt (int (length (zset s k))), s)"
| "redis_exec1 (Expire k t) s = (RBool True, s)"
| "redis_exec1 (SetKey k v t nx) s =
     (if nx \<and> map_of (r_keys s) k \<noteq> None then (RNone, s)
      else (RBool True, s\<lparr>r_keys := dict_set k v (r_keys s)\<rparr>))"
| "redis_exec1 (Exists k) s = (RInt (if map_of (r_keys s) k = None then 0 else 1), s)"
| "redis_exec1 (SIsMember k m) s = (RBool (m \<in> set (dict_get (r_sets s) k [])), s)"
| "redis_exec1 (SAdd k m) s =
     (if m \<in> set (dict_get (r_sets s) k []) then (RInt 0, s)
      else (RInt 1, s\<lparr>r_sets := dict_set k (dict_get (r_sets s) k [] @ [m]) (r_sets s)\<rparr>))"
| "redis_exec1 (XAck str grp i) s = (RInt 1, s\<lparr>r_acked := r_acked s @ [i]\<rparr>)"

fun redis_exec :: "redis_cmd list \<Rightarrow> redis_store \<Rightarrow> redis_reply list \<times> redis_store" where
  "redis_exec [] s = ([], s)"
| "redis_exec (c # cs) s =
     (let (r, s1) = redis_exec1 c s; (rs, s2) = redis_exec cs s1 in (r # rs, s2))"

definition behaves_like_redis :: "'r redis \<Rightarrow> ('r \<Rightarrow> redis_store) \<Rightarrow> bool" where
  "behaves_like_redis R view \<longleftrightarrow>
     (\<forall>cs r. fst (R cs r) = Some (fst (redis_exec cs (view r))) \<and>
             view (snd (R cs r)) = snd (redis_exec cs (view r)))"

definition local_redis :: "redis_store redis" where
  "local_redis cs s = (case redis_exec cs s of (rs, s') \<Rightarrow> (Some rs, s'))"

lemma local_redis_behaves: "behaves_like_redis local_redis (\<lambda>s. s)"
  by (simp add: behaves_like_redis_def local_redis_def split: prod.split)

definition empty_store :: redis_store where
  "empty_store = \<lparr>r_zsets = [], r_keys = [], r_sets = [], r_acked = []\<rparr>"

lemma redis_reply:
  assumes "behaves_like_redis R view"
  obtains rs r' where "R cs r = (Some rs, r')" "rs = fst (redis_exec cs (view r))" "view r' = snd (redis_exec cs (view r))"
  using assms unfolding behaves_like_redis_def by (metis prod.collapse)

lemma zset_update [simp]: "zset (s\<lparr>r_zsets := dict_set k z d\<rparr>) k' = (if k' = k then z else zset (s\<lparr>r_zsets := d\<rparr>) k')"
  by (simp add: zset_def dict_get_def)

lemma zset_other [simp]:
  "zset (s\<lparr>r_keys := x\<rparr>) k = zset s k" "zset (s\<lparr>r_sets := y\<rparr>) k = zset s k" "zset (s\<lparr>r_acked := a\<rparr>) k = zset s k"
  by (simp_all add: zset_def)

text \<open>The counting pipeline the detectors share: drop what left the window, add, count.\<close>

definition window_pipeline :: "string \<Rightarrow> rat option \<Rightarrow> rat \<Rightarrow> string \<Rightarrow> rat \<Rightarrow> int \<Rightarrow> redis_cmd list" where
  "window_pipeline key lo cutoff member now ttl =
     [ZRemRangeByScore key lo cutoff, ZAdd key member now, ZCard key, Expire key ttl]"

lemma window_pipeline_exec:
  fixes now :: rat
  assumes "map_of (filter (\<lambda>m. \<not> in_score_range lo cutoff (snd m)) (zset s key)) member = None"
  defines "z \<equiv> filter (\<lambda>m. \<not> in_score_range lo cutoff (snd m)) (zset s key) @ [(member, now)]"
  shows "fst (redis_exec (window_pipeline key lo cutoff member now ttl) s) ! 2 = RInt (int (length z))"
    and "length (fst (redis_exec (window_pipeline key lo cutoff member now ttl) s)) = 4"
    and "zset (snd (redis_exec (window_pipeline key lo cutoff member now ttl) s)) key = z"
    and "r_keys (snd (redis_exec (window_pipeline key lo cutoff member now ttl) s)) = r_keys s"
proof -
  have fresh: "dict_set m x d = d @ [(m, x)]" if "map_of d m = None" for m :: string and x :: rat and d
    using that by (induction m x d rule: dict_set.induct) (auto split: if_split_asm)
  show "fst (redis_exec (window_pipeline key lo cutoff member now ttl) s) ! 2 = RInt (int (length z))"
    "length (fst (redis_exec (window_pipeline key lo cutoff member now ttl) s)) = 4"
    "zset (snd (redis_exec (window_pipeline key lo cutoff member now ttl) s)) key = z"
    "r_keys (snd (redis_exec (window_pipeline key lo cutoff member now ttl) s)) = r_keys s"
    using fresh [OF assms(1)] by (simp_all add: window_pipeline_def Let_def z_def)
qed

end
