(* ===== verification/Regex.thy ===== *)
theory Regex
  imports Prelude
begin

section \<open>The regular expressions of the source\<close>

text \<open>
  A fragment of Python's \<open>re\<close> that covers the patterns written in the modelled code:
  character classes, repetition of a class, sequences, alternatives, options and
  \<open>$\<close>.  \<open>ends r s\<close> lists what may remain of \<open>s\<close> after a match of \<open>r\<close> at its
  start; \<open>re_search\<close> is the truth value of \<open>re.search\<close>, for which the order of
  backtracking does not matter.
\<close>

datatype re =
  Class "char \<Rightarrow> bool"
| Many "char \<Rightarrow> bool"      \<comment> \<open>\<open>[...]*\<close>\<close>
| Seq re re
| Alt re re
| Eps
| End                      \<comment> \<open>\<open>$\<close>\<close>

fun many :: "(char \<Rightarrow> bool) \<Rightarrow> string \<Rightarrow> string list" where
  "many p [] = [[]]"
| "many p (c # s) = (c # s) # (if p c then many p s else [])"

fun ends :: "re \<Rightarrow> string \<Rightarrow> string list" where
  "ends (Class p) s = (case s of [] \<Rightarrow> [] | c # t \<Rightarrow> if p c then [t] else [])"
| "ends (Many p) s = many p s"
| "ends (Seq a b) s = concat (map (ends b) (ends a s))"
| "ends (Alt a b) s = ends a s @ ends b s"
| "ends Eps s = [s]"
| "ends End s = (if s = [] \<or> s = [CHR 0x0A] then [s] else [])"

fun re_search :: "re \<Rightarrow> string \<Rightarrow> bool" where
  "re_search r [] = (ends r [] \<noteq> [])"
| "re_search r (c # s) = (ends r (c # s) \<noteq> [] \<or> re_search r s)"

definition Plus :: "(char \<Rightarrow> bool) \<Rightarrow> re" where
  "Plus p = Seq (Class p) (Many p)"

definition Opt :: "re \<Rightarrow> re" where
  "Opt r = Alt r Eps"

fun Lit :: "string \<Rightarrow> re" where
  "Lit [] = Eps"
| "Lit (c # s) = Seq (Class (\<lambda>d. d = c)) (Lit s)"

fun LitI :: "string \<Rightarrow> re" where
  \<comment> \<open>under \<open>(?i)\<close>\<close>
  "LitI [] = Eps"
| "LitI (c # s) = Seq (Class (\<lambda>d. py_lower_char d = py_lower_char c)) (LitI s)"

fun alts :: "re list \<Rightarrow> re" where
  "alts [r] = r"
| "alts (r # rs) = Alt r (alts rs)"
| "alts [] = Class (\<lambda>_. False)"

fun seqs :: "re list \<Rightarrow> re" where
  "seqs [] = Eps"
| "seqs (r # rs) = Seq r (seqs rs)"

subsection \<open>Meaning\<close>

text \<open>\<open>matches_re r u t\<close>: the text \<open>u\<close>, followed by \<open>t\<close>, matches \<open>r\<close>.\<close>

fun matches_re :: "re \<Rightarrow> string \<Rightarrow> string \<Rightarrow> bool" where
  "matches_re (Class p) u t \<longleftrightarrow> (\<exists>c. u = [c] \<and> p c)"
| "matches_re (Many p) u t \<longleftrightarrow> list_all p u"
| "matches_re (Seq a b) u t \<longleftrightarrow> (\<exists>v w. u = v @ w \<and> matches_re a v (w @ t) \<and> matches_re b w t)"
| "matches_re (Alt a b) u t \<longleftrightarrow> matches_re a u t \<or> matches_re b u t"
| "matches_re Eps u t \<longleftrightarrow> u = []"
| "matches_re End u t \<longleftrightarrow> u = [] \<and> (t = [] \<or> t = [CHR 0x0A])"

lemma many_iff: "t \<in> set (many p s) \<longleftrightarrow> (\<exists>u. s = u @ t \<and> list_all p u)"
proof (induction s)
  case (Cons c s)
  show ?case
  proof
    assume "t \<in> set (many p (c # s))"
    then consider "t = c # s" | "p c" "t \<in> set (many p s)" by (auto split: if_split_asm)
    then show "\<exists>u. c # s = u @ t \<and> list_all p u"
    proof cases
      case 1
      then show ?thesis by (intro exI [of _ "[]"]) simp
    next
      case 2
      then obtain u where "s = u @ t \<and> list_all p u" using Cons by blast
      with 2 show ?thesis by (intro exI [of _ "c # u"]) simp
    qed
  next
    assume "\<exists>u. c # s = u @ t \<and> list_all p u"
    then obtain u where u: "c # s = u @ t" "list_all p u" by blast
    then show "t \<in> set (many p (c # s))" using Cons by (cases u) auto
  qed
qed auto

lemma ends_iff: "t \<in> set (ends r s) \<longleftrightarrow> (\<exists>u. s = u @ t \<and> matches_re r u t)"
proof (induction r arbitrary: s t)
  case (Class p)
  show ?case by (cases s) auto
next
  case (Seq a b)
  show ?case
  proof
    assume "t \<in> set (ends (Seq a b) s)"
    then obtain m where "m \<in> set (ends a s)" "t \<in> set (ends b m)" by auto
    then obtain v w where "s = v @ m" "matches_re a v m" "m = w @ t" "matches_re b w t"
      using Seq.IH by blast
    then show "\<exists>u. s = u @ t \<and> matches_re (Seq a b) u t"
      by (intro exI [of _ "v @ w"]) auto
  next
    assume "\<exists>u. s = u @ t \<and> matches_re (Seq a b) u t"
    then obtain v w where "s = v @ w @ t" "matches_re a v (w @ t)" "matches_re b w t" by auto
    then have "w @ t \<in> set (ends a s)" "t \<in> set (ends b (w @ t))" using Seq.IH by blast+
    then show "t \<in> set (ends (Seq a b) s)" by auto
  qed
qed (auto simp: many_iff)

lemma re_search_iff: "re_search r s \<longleftrightarrow> (\<exists>a u t. s = a @ u @ t \<and> matches_re r u t)"
proof -
  have e: "ends r s \<noteq> [] \<longleftrightarrow> (\<exists>u t. s = u @ t \<and> matches_re r u t)" for s
    using ends_iff [of _ r s] by (metis last_in_set list.set_cases list.distinct(1) empty_iff set_empty)
  show ?thesis
  proof (induction s)
    case (Cons c s)
    have "(\<exists>a u t. c # s = a @ u @ t \<and> matches_re r u t) \<longleftrightarrow>
        (\<exists>u t. c # s = u @ t \<and> matches_re r u t) \<or> (\<exists>a u t. s = a @ u @ t \<and> matches_re r u t)"
      by (metis append_Cons append_Nil neq_Nil_conv list.inject)
    then show ?case using Cons e [of "c # s"] by simp
  qed (use e [of "[]"] in auto)
qed

end
