(* ===== verification/Detectors.thy ===== *)
theory Detectors
  imports Redis Regex Config Action_Service Json
begin

section \<open>Detectors\<close>

text \<open>
  \<open>detectors/base.py\<close>, the five built-in detectors, \<open>detectors/alert_service.py\<close> and
  \<open>_process_one\<close> of \<open>detectors/runner.py\<close>.  A detector is a function of the event and
  the Redis state (the parameter \<open>R\<close> of the theory of Redis).  Event times are whole
  seconds, as \<open>_parse_event\<close> builds them.  Three detectors read \<open>event.timestamp\<close>,
  which \<open>ParsedEvent\<close> does not have: the access is the expression
  \<open>event_timestamp\<close>, whose value is the \<open>AttributeError\<close>, inside their
  \<open>try\<close>.  Settings the class \<open>Settings\<close> does not declare have the default of
  their \<open>getattr\<close>.
\<close>

subsection \<open>Events and results\<close>

record parsed_event =
  pe_event_id :: uuid
  pe_host_id :: uuid
  pe_source :: string
  pe_raw :: string
  pe_metadata :: "string str_dict"
  pe_occurred_at :: int

record detection_action =
  da_kind :: string
  da_target :: string
  da_ttl_sec :: "int option"

record detection_result =
  dr_detector :: string
  dr_severity :: string
  dr_summary :: string
  dr_detail :: "json str_dict"
  dr_cooldown_sec :: int
  dr_dedup_key :: string
  dr_action :: "detection_action option"

datatype attribute_error = No_attribute

definition event_timestamp :: "parsed_event \<Rightarrow> attribute_error + int" where
  "event_timestamp ev = Inl No_attribute"

definition meta :: "parsed_event \<Rightarrow> string \<Rightarrow> string option" where
  "meta ev k = map_of (pe_metadata ev) k"

definition meta_or :: "parsed_event \<Rightarrow> string \<Rightarrow> string \<Rightarrow> string" where
  "meta_or ev k d = dict_get (pe_metadata ev) k d"

definition first_truthy :: "string option \<Rightarrow> string option \<Rightarrow> string option" where
  \<comment> \<open>\<open>a or b\<close>\<close>
  "first_truthy a b = (case a of Some s \<Rightarrow> if s \<noteq> [] then a else b | None \<Rightarrow> b)"

subsection \<open>SSH brute force\<close>

definition strip_prefix :: "string \<Rightarrow> string \<Rightarrow> string option" where
  "strip_prefix p s = (if prefix p s then Some (drop (length p) s) else None)"

definition take_digits :: "string \<Rightarrow> (string \<times> string) option" where
  \<comment> \<open>\<open>\d{1,3}\<close>, greedy\<close>
  "take_digits s = (let d = take 3 (takeWhile py_isdigit s)
                    in if d = [] then None else Some (d, drop (length d) s))"

fun dotted_digits :: "nat \<Rightarrow> string \<Rightarrow> string option" where
  \<comment> \<open>\<open>(?:\.\d{1,3}){n}\<close>\<close>
  "dotted_digits 0 s = Some []"
| "dotted_digits (Suc n) s =
     (case s of
        c # t \<Rightarrow> if c \<noteq> CHR ''.'' then None
                 else (case take_digits t of
                         None \<Rightarrow> None
                       | Some (d, rest) \<Rightarrow> map_option (\<lambda>x. c # d @ x) (dotted_digits n rest))
      | [] \<Rightarrow> None)"

definition match_ip :: "string \<Rightarrow> string option" where
  "match_ip s = (case take_digits s of
      None \<Rightarrow> None | Some (d, rest) \<Rightarrow> map_option (\<lambda>x. d @ x) (dotted_digits 3 rest))"

definition match_user_ip :: "string \<Rightarrow> string option" where
  \<comment> \<open>\<open>\S+ from <ip>\<close>: \<open>\S+\<close> must reach up to the blank\<close>
  "match_user_ip s =
     (let user = takeWhile (\<lambda>c. \<not> py_isspace c) s
      in if user = [] then None
         else Option.bind (strip_prefix '' from '' (drop (length user) s)) match_ip)"

definition ssh_failed_at :: "string \<Rightarrow> string option" where
  "ssh_failed_at s =
     Option.bind (strip_prefix ''Failed password for '' s)
       (\<lambda>r. case Option.bind (strip_prefix ''invalid user '' r) match_user_ip of
              Some ip \<Rightarrow> Some ip | None \<Rightarrow> match_user_ip r)"

fun ssh_failed_search :: "string \<Rightarrow> string option" where
  \<comment> \<open>\<open>_SSH_FAILED_RE.search\<close> and its group \<open>ip\<close>\<close>
  "ssh_failed_search [] = ssh_failed_at []"
| "ssh_failed_search (c # s) =
     (case ssh_failed_at (c # s) of Some ip \<Rightarrow> Some ip | None \<Rightarrow> ssh_failed_search s)"

definition ssh_extract_source_ip :: "parsed_event \<Rightarrow> string option" where
  "ssh_extract_source_ip ev =
     (case meta ev ''source_ip'' of
        Some ip \<Rightarrow> if ip \<noteq> [] then Some (py_strip ip) else ssh_failed_search (pe_raw ev)
      | None \<Rightarrow> ssh_failed_search (pe_raw ev))"

definition is_failed_login :: "parsed_event \<Rightarrow> bool" where
  "is_failed_login ev \<longleftrightarrow>
     py_lower (meta_or ev ''status'' '''') \<in> {''failed'', ''failure'', ''invalid''} \<or>
     ssh_failed_search (pe_raw ev) \<noteq> None"

definition ssh_window_key :: "uuid \<Rightarrow> string \<Rightarrow> string" where
  "ssh_window_key h ip = ''zc:rule:ssh_bruteforce:'' @ h @ '':'' @ ip"

definition ssh_cooldown_key :: "uuid \<Rightarrow> string \<Rightarrow> string" where
  "ssh_cooldown_key h ip = ssh_window_key h ip @ '':cooldown''"

definition ssh_cooldown_sec :: "settings \<Rightarrow> int" where
  "ssh_cooldown_sec st = max (ssh_bruteforce_cooldown_sec st) (ssh_bruteforce_window_sec st * 5)"

definition ssh_result :: "settings \<Rightarrow> parsed_event \<Rightarrow> string \<Rightarrow> int \<Rightarrow> detection_result" where
  "ssh_result st ev ip count =
     \<lparr>dr_detector = ''ssh_bruteforce'', dr_severity = ''medium'',
      dr_summary = ''SSH brute-force from '' @ ip @ '': '' @ py_str_int count @ '' failed logins in '' @
        py_str_int (ssh_bruteforce_window_sec st) @ ''s'',
      dr_detail = [(''source_ip'', JStr ip), (''window_sec'', JInt (ssh_bruteforce_window_sec st)),
        (''threshold'', JInt (ssh_bruteforce_threshold st)), (''observed_count'', JInt count),
        (''host_id'', JStr (pe_host_id ev)), (''event_id'', JStr (pe_event_id ev))],
      dr_cooldown_sec = ssh_cooldown_sec st, dr_dedup_key = ip,
      dr_action = Some \<lparr>da_kind = ''block_ip'', da_target = ip, da_ttl_sec = Some 3600\<rparr>\<rparr>"

definition third_int :: "redis_reply list \<Rightarrow> int option" where
  \<comment> \<open>\<open>int(results[2])\<close>\<close>
  "third_int rs = (case drop 2 rs of RInt n # _ \<Rightarrow> Some n | RBool b # _ \<Rightarrow> Some (if b then 1 else 0) | _ \<Rightarrow> None)"

definition truthy_reply :: "redis_reply list \<Rightarrow> bool" where
  "truthy_reply rs = (case rs of [RBool b] \<Rightarrow> b | [RInt n] \<Rightarrow> n \<noteq> 0 | _ \<Rightarrow> False)"

definition set_acquired :: "redis_reply list option \<Rightarrow> bool" where
  \<comment> \<open>the truth value of \<open>redis.set(..., nx=True)\<close>; an exception counts as acquired\<close>
  "set_acquired rs = (case rs of None \<Rightarrow> True | Some reps \<Rightarrow> truthy_reply reps)"

definition ssh_on_event ::
  "'r redis \<Rightarrow> settings \<Rightarrow> parsed_event \<Rightarrow> 'r \<Rightarrow> detection_result list \<times> 'r" where
  "ssh_on_event R st ev r =
     (if \<not> is_failed_login ev then ([], r)
      else case ssh_extract_source_ip ev of
        None \<Rightarrow> ([], r)
      | Some ip \<Rightarrow>
          if ip = [] then ([], r)
          else
            let key = ssh_window_key (pe_host_id ev) ip; now_ts = pe_occurred_at ev;
                cutoff = now_ts - ssh_bruteforce_window_sec st
            in (case R (window_pipeline key (Some 0) (of_int cutoff) (pe_event_id ev) (of_int now_ts)
                          (ssh_cooldown_sec st)) r of
                  (None, r1) \<Rightarrow> ([], r1)
                | (Some results, r1) \<Rightarrow>
                    (case third_int results of
                       None \<Rightarrow> ([], r1)
                     | Some count \<Rightarrow>
                         if count < ssh_bruteforce_threshold st then ([], r1)
                         else case R [SetKey (ssh_cooldown_key (pe_host_id ev) ip) ''1'' (ssh_cooldown_sec st) True] r1 of
                           (rep, r2) \<Rightarrow>
                             if set_acquired rep then ([ssh_result st ev ip count], r2) else ([], r2))))"

subsection \<open>Port scan, DNS tunnel, authentication anomaly\<close>

definition extract_dest_port :: "parsed_event \<Rightarrow> int option" where
  "extract_dest_port ev =
     (case first_truthy (meta ev ''dest_port'') (meta ev ''dport'') of
        None \<Rightarrow> None
      | Some raw \<Rightarrow> (case py_int raw of
                        None \<Rightarrow> None | Some n \<Rightarrow> if 0 < n \<and> n < 65536 then Some n else None))"

definition is_port_knock :: "parsed_event \<Rightarrow> bool" where
  "is_port_knock ev \<longleftrightarrow> meta ev ''event_type'' = Some ''network.connect'' \<or> extract_dest_port ev \<noteq> None"

definition port_scan_on_event :: "'r redis \<Rightarrow> parsed_event \<Rightarrow> 'r \<Rightarrow> detection_result list \<times> 'r" where
  "port_scan_on_event R ev r =
     (if \<not> is_port_knock ev then ([], r)
      else case (meta ev ''source_ip'', extract_dest_port ev) of
        (Some ip, Some port) \<Rightarrow>
          if ip = [] then ([], r)
          else (case event_timestamp ev of
                  Inl _ \<Rightarrow> ([], r)
                | Inr ts \<Rightarrow>
                    let key = ''zc:rule:port_scan:'' @ pe_host_id ev @ '':'' @ ip; now_ms = ts * 1000
                    in (case R (window_pipeline key None (of_int (now_ms - 30 * 1000))
                                  (py_str_int port @ '':'' @ py_str_int now_ms) (of_int now_ms) (30 * 5)) r of
                          (None, r1) \<Rightarrow> ([], r1)
                        | (Some results, r1) \<Rightarrow>
                            (case third_int results of
                               None \<Rightarrow> ([], r1)
                             | Some seen \<Rightarrow>
                                 if seen < 20 then ([], r1)
                                 else ([\<lparr>dr_detector = ''port_scan'', dr_severity = ''medium'',
                                         dr_summary = ''port scan: '' @ ip @ '' hit '' @ py_str_int seen @ '' ports in 30s'',
                                         dr_detail = [(''source_ip'', JStr ip), (''ports_in_window'', JInt seen), (''window_sec'', JInt 30)],
                                         dr_cooldown_sec = 600, dr_dedup_key = ip,
                                         dr_action = Some \<lparr>da_kind = ''tarpit_ip'', da_target = ip, da_ttl_sec = Some 1800\<rparr>\<rparr>], r1))))
      | _ \<Rightarrow> ([], r))"

definition is_dns_event :: "parsed_event \<Rightarrow> bool" where
  "is_dns_event ev \<longleftrightarrow>
     (let src = py_lower (meta_or ev ''source'' '''') in py_contains src ''dns'' \<or> py_contains src ''named'')"

definition extract_qname :: "parsed_event \<Rightarrow> string option" where
  "extract_qname ev =
     (case first_truthy (meta ev ''qname'') (meta ev ''query'') of
        None \<Rightarrow> None
      | Some qn \<Rightarrow> if qn = [] then None
                   else Some (py_lower (py_rstrip (\<lambda>c. c = CHR ''.'') (py_strip qn))))"

definition leftmost_label_length :: "string \<Rightarrow> int" where
  "leftmost_label_length qn = (if qn = [] then 0 else int (length (hd (py_split (CHR ''.'') qn))))"

definition dns_tunnel_on_event :: "'r redis \<Rightarrow> parsed_event \<Rightarrow> 'r \<Rightarrow> detection_result list \<times> 'r" where
  "dns_tunnel_on_event R ev r =
     (if \<not> is_dns_event ev then ([], r)
      else case (meta ev ''source_ip'', extract_qname ev) of
        (Some ip, Some qn) \<Rightarrow>
          if ip = [] \<or> qn = [] then ([], r)
          else if leftmost_label_length qn < 40 then ([], r)
          else (case event_timestamp ev of
                  Inl _ \<Rightarrow> ([], r)
                | Inr ts \<Rightarrow>
                    let key = ''zc:rule:dns_tunnel:'' @ pe_host_id ev @ '':'' @ ip; now_ms = ts * 1000
                    in (case R (window_pipeline key None (of_int (now_ms - 60 * 1000))
                                  (qn @ '':'' @ py_str_int now_ms) (of_int now_ms) (60 * 5)) r of
                          (None, r1) \<Rightarrow> ([], r1)
                        | (Some results, r1) \<Rightarrow>
                            (case third_int results of
                               None \<Rightarrow> ([], r1)
                             | Some seen \<Rightarrow>
                                 if seen < 50 then ([], r1)
                                 else ([\<lparr>dr_detector = ''dns_tunnel'', dr_severity = ''high'',
                                         dr_summary = ''possible DNS tunnel from '' @ ip @ '' ('' @ py_str_int seen @ '' long queries in 60s)'',
                                         dr_detail = [(''source_ip'', JStr ip), (''long_queries_in_window'', JInt seen),
                                           (''window_sec'', JInt 60), (''sample_qname'', JStr qn)],
                                         dr_cooldown_sec = 900, dr_dedup_key = ip,
                                         dr_action = Some \<lparr>da_kind = ''block_ip'', da_target = ip, da_ttl_sec = Some 3600\<rparr>\<rparr>], r1))))
      | _ \<Rightarrow> ([], r))"

definition is_auth_success :: "parsed_event \<Rightarrow> bool" where
  "is_auth_success ev \<longleftrightarrow> py_lower (meta_or ev ''status'' '''') \<in> {''success'', ''accepted'', ''ok'', ''0''}"

definition extract_user :: "parsed_event \<Rightarrow> string option" where
  "extract_user ev =
     (case first_truthy (meta ev ''user'') (meta ev ''username'') of
        None \<Rightarrow> None | Some u \<Rightarrow> if u = [] then None else Some (py_strip u))"

definition auth_results :: "(string \<Rightarrow> string) \<Rightarrow> string \<Rightarrow> string \<Rightarrow> bool \<Rightarrow> int \<Rightarrow> detection_result list" where
  \<comment> \<open>\<open>py_repr\<close> is \<open>{user!r}\<close>\<close>
  "auth_results py_repr user ip seen_before distinct_ips =
     (if seen_before then []
      else [\<lparr>dr_detector = ''auth_anomaly'', dr_severity = ''medium'',
             dr_summary = ''new source IP for user '' @ py_repr user @ '': '' @ ip,
             dr_detail = [(''user'', JStr user), (''source_ip'', JStr ip), (''first_seen'', JBool True)],
             dr_cooldown_sec = 600, dr_dedup_key = user @ '':'' @ ip, dr_action = None\<rparr>]) @
     (if distinct_ips \<ge> 3
      then [\<lparr>dr_detector = ''auth_anomaly'', dr_severity = ''high'',
             dr_summary = ''user '' @ py_repr user @ '' authenticated from '' @ py_str_int distinct_ips @ '' distinct IPs in 300s'',
             dr_detail = [(''user'', JStr user), (''distinct_ips_in_window'', JInt distinct_ips), (''window_sec'', JInt 300)],
             dr_cooldown_sec = 600, dr_dedup_key = user @ '':multi_ip'',
             dr_action = Some \<lparr>da_kind = ''revoke_session'', da_target = ''user:'' @ user, da_ttl_sec = Some 86400\<rparr>\<rparr>]
      else [])"

definition auth_anomaly_on_event ::
  "(string \<Rightarrow> string) \<Rightarrow> 'r redis \<Rightarrow> parsed_event \<Rightarrow> 'r \<Rightarrow> detection_result list \<times> 'r" where
  "auth_anomaly_on_event py_repr R ev r =
     (if \<not> is_auth_success ev then ([], r)
      else case (extract_user ev, meta ev ''source_ip'') of
        (Some user, Some ip) \<Rightarrow>
          if user = [] \<or> ip = [] then ([], r)
          else
            let known_key = ''zc:rule:auth_anomaly:known_ips:'' @ pe_host_id ev @ '':'' @ user;
                diff_key = ''zc:rule:auth_anomaly:diff_ips:'' @ pe_host_id ev @ '':'' @ user
            in (case R [SIsMember known_key ip] r of
                  (None, r1) \<Rightarrow> ([], r1)
                | (Some seen, r1) \<Rightarrow>
                    (case R [SAdd known_key ip] r1 of
                       (None, r2) \<Rightarrow> ([], r2)
                     | (Some _, r2) \<Rightarrow>
                         (case R [Expire known_key (7 * 86400)] r2 of
                            (None, r3) \<Rightarrow> ([], r3)
                          | (Some _, r3) \<Rightarrow>
                              (case event_timestamp ev of
                                 Inl _ \<Rightarrow> ([], r3)
                               | Inr ts \<Rightarrow>
                                   let now_ms = ts * 1000
                                   in (case R (window_pipeline diff_key None (of_int (now_ms - 300 * 1000))
                                                 (ip @ '':'' @ py_str_int now_ms) (of_int now_ms) (300 * 5)) r3 of
                                         (None, r4) \<Rightarrow> ([], r4)
                                       | (Some results, r4) \<Rightarrow>
                                           (case third_int results of
                                              None \<Rightarrow> ([], r4)
                                            | Some n \<Rightarrow>
                                                (auth_results py_repr user ip (truthy_reply seen) n, r4)))))))
      | _ \<Rightarrow> ([], r))"

subsection \<open>Web attacks\<close>

definition WS :: re where "WS = Many py_isspace"
definition WS1 :: re where "WS1 = Plus py_isspace"

definition sqli_re :: re where
  "sqli_re = alts
     [seqs [LitI ''union'', WS1, LitI ''select''],
      seqs [Lit [CHR 0x27], WS, LitI ''or'', WS1, Opt (Lit [CHR 0x27]), Class py_isdigit],
      seqs [LitI ''or'', WS1, Lit ''1=1''],
      seqs [Lit ''--'', WS, End],
      seqs [LitI '';drop'', WS1, LitI ''table'']]"

definition xss_re :: re where
  "xss_re = alts [LitI ''<script'', LitI ''javascript:'', seqs [LitI ''onerror'', WS, Lit ''=''],
     seqs [LitI ''onload'', WS, Lit ''='']]"

definition path_traversal_re :: re where
  "path_traversal_re = alts [Lit ''../'', Lit [CHR ''.'', CHR ''.'', CHR 0x5C], Lit ''%2e%2e/'', Lit ''%252e%252e/'']"

definition scanner_re :: re where
  "scanner_re = alts (map LitI [''sqlmap'', ''nikto'', ''nmap'', ''masscan'', ''wpscan'', ''acunetix''])"

definition PATTERNS :: "(string \<times> re) list" where
  "PATTERNS = [(''sqli'', sqli_re), (''xss'', xss_re), (''path_traversal'', path_traversal_re), (''scanner'', scanner_re)]"

definition is_http_event :: "parsed_event \<Rightarrow> bool" where
  "is_http_event ev \<longleftrightarrow>
     (let src = py_lower (meta_or ev ''source'' ''''); raw_lower = py_lower (pe_raw ev)
      in list_ex (py_contains src) [''nginx'', ''apache'', ''http'', ''access''] \<or>
         list_ex (py_startswith raw_lower) [''get '', ''post '', ''put '', ''delete '', ''head ''])"

definition match_patterns :: "parsed_event \<Rightarrow> string list" where
  "match_patterns ev = map fst (filter (\<lambda>(tag, pat). re_search pat (pe_raw ev)) PATTERNS)"

definition web_cooldown_key :: "uuid \<Rightarrow> string \<Rightarrow> string \<Rightarrow> string" where
  "web_cooldown_key h ip tag = ''zc:rule:web_attack:'' @ h @ '':'' @ ip @ '':'' @ tag"

definition web_result :: "parsed_event \<Rightarrow> string \<Rightarrow> string list \<Rightarrow> string \<Rightarrow> detection_result" where
  "web_result ev ip matches tag =
     \<lparr>dr_detector = ''web_attack'', dr_severity = (if tag \<in> {''sqli'', ''scanner''} then ''high'' else ''medium''),
      dr_summary = ''web attack ('' @ tag @ '') from '' @ ip,
      dr_detail = [(''source_ip'', JStr ip), (''match_tags'', JArr (map JStr matches)), (''raw_excerpt'', JStr (take 500 (pe_raw ev)))],
      dr_cooldown_sec = 300, dr_dedup_key = ip @ '':'' @ tag,
      dr_action = Some \<lparr>da_kind = ''block_ip'', da_target = ip, da_ttl_sec = Some 3600\<rparr>\<rparr>"

fun web_tags :: "'r redis \<Rightarrow> parsed_event \<Rightarrow> string \<Rightarrow> string list \<Rightarrow> string list \<Rightarrow> 'r \<Rightarrow> detection_result list \<times> 'r" where
  \<comment> \<open>the loop over the matching tags\<close>
  "web_tags R ev ip matches [] r = ([], r)"
| "web_tags R ev ip matches (tag # tags) r =
     (case R [SetKey (web_cooldown_key (pe_host_id ev) ip tag) ''1'' 300 True] r of
        (rep, r1) \<Rightarrow>
          if set_acquired rep then ([web_result ev ip matches tag], r1)
          else web_tags R ev ip matches tags r1)"

definition web_attack_on_event :: "'r redis \<Rightarrow> parsed_event \<Rightarrow> 'r \<Rightarrow> detection_result list \<times> 'r" where
  "web_attack_on_event R ev r =
     (if \<not> is_http_event ev then ([], r)
      else let matches = match_patterns ev
           in if matches = [] then ([], r)
              else case meta ev ''source_ip'' of
                None \<Rightarrow> ([], r)
              | Some ip \<Rightarrow> if ip = [] then ([], r) else web_tags R ev ip matches matches r)"

subsection \<open>Runs of the brute-force detector\<close>

fun ssh_run :: "'r redis \<Rightarrow> settings \<Rightarrow> parsed_event list \<Rightarrow> 'r \<Rightarrow> detection_result list list \<times> 'r" where
  "ssh_run R st [] r = ([], r)"
| "ssh_run R st (ev # evs) r =
     (let (res, r1) = ssh_on_event R st ev r; (rest, r2) = ssh_run R st evs r1 in (res # rest, r2))"

definition window_events :: "settings \<Rightarrow> parsed_event list \<Rightarrow> parsed_event \<Rightarrow> nat" where
  \<comment> \<open>how many of the events lie in the window that ends with the given one\<close>
  "window_events st evs ev =
     length (filter (\<lambda>e. pe_occurred_at ev - ssh_bruteforce_window_sec st < pe_occurred_at e) evs)"

definition ssh_hit :: "settings \<Rightarrow> parsed_event list \<Rightarrow> nat \<Rightarrow> bool" where
  \<comment> \<open>the event at position \<open>k\<close> completes a threshold\<close>
  "ssh_hit st evs k \<longleftrightarrow> ssh_bruteforce_threshold st \<le> int (window_events st (take (Suc k) evs) (evs ! k))"

definition ssh_stream :: "uuid \<Rightarrow> string \<Rightarrow> parsed_event list \<Rightarrow> bool" where
  \<comment> \<open>failed logins of one host and address, with distinct ids, in time order\<close>
  "ssh_stream h ip evs \<longleftrightarrow>
     distinct (map pe_event_id evs) \<and> sorted (map pe_occurred_at evs) \<and> ip \<noteq> [] \<and>
     (\<forall>e \<in> set evs. is_failed_login e \<and> ssh_extract_source_ip e = Some ip \<and> pe_host_id e = h \<and> 0 \<le> pe_occurred_at e)"

definition members :: "parsed_event list \<Rightarrow> (string \<times> rat) list" where
  "members evs = map (\<lambda>e. (pe_event_id e, of_int (pe_occurred_at e))) evs"

definition ssh_inv :: "settings \<Rightarrow> uuid \<Rightarrow> string \<Rightarrow> redis_store \<Rightarrow> parsed_event list \<Rightarrow> bool" where
  \<comment> \<open>the store after the events: their part inside the last window, and the cooldown key
      iff one of them completed a threshold\<close>
  "ssh_inv st h ip s evs \<longleftrightarrow>
     zset s (ssh_window_key h ip) =
       (if evs = [] then []
        else members (filter (\<lambda>e. pe_occurred_at (last evs) - ssh_bruteforce_window_sec st < pe_occurred_at e) evs)) \<and>
     (map_of (r_keys s) (ssh_cooldown_key h ip) \<noteq> None \<longleftrightarrow> (\<exists>k < length evs. ssh_hit st evs k))"

lemma ssh_hit_prefix: "k < length evs \<Longrightarrow> ssh_hit st (evs @ [e]) k = ssh_hit st evs k"
  by (simp add: ssh_hit_def nth_append)

lemma ssh_hit_last: "ssh_hit st (evs @ [e]) (length evs) \<longleftrightarrow>
    ssh_bruteforce_threshold st \<le> int (window_events st (evs @ [e]) e)"
  by (simp add: ssh_hit_def)

lemma ssh_hit_snoc: "(\<exists>k < length (evs @ [e]). ssh_hit st (evs @ [e]) k) \<longleftrightarrow>
    (\<exists>k < length evs. ssh_hit st evs k) \<or> ssh_hit st (evs @ [e]) (length evs)"
  using ssh_hit_prefix by (auto simp: less_Suc_eq)

lemma window_kept:
  assumes "ssh_stream h ip (evs @ [e])" and "ssh_inv st h ip s evs" and "0 < ssh_bruteforce_window_sec st"
  shows "filter (\<lambda>m. \<not> in_score_range (Some 0) (of_int (pe_occurred_at e - ssh_bruteforce_window_sec st)) (snd m))
      (zset s (ssh_window_key h ip)) =
    members (filter (\<lambda>x. pe_occurred_at e - ssh_bruteforce_window_sec st < pe_occurred_at x) evs)"
proof (cases "evs = []")
  case True
  then show ?thesis using assms(2) by (simp add: ssh_inv_def members_def)
next
  case False
  let ?w = "ssh_bruteforce_window_sec st" and ?t = "pe_occurred_at e" and ?l = "pe_occurred_at (last evs)"
  have le: "?l \<le> ?t" and nn: "\<forall>x \<in> set evs. 0 \<le> pe_occurred_at x"
    using assms(1) False by (auto simp: ssh_stream_def sorted_append)
  have "\<not> in_score_range (Some 0) (of_int (?t - ?w)) (of_int (pe_occurred_at x)) \<longleftrightarrow> ?t - ?w < pe_occurred_at x"
    if "x \<in> set evs" for x
    using nn that by (auto simp: in_score_range_def simp flip: of_int_diff)
  then have "filter (\<lambda>m. \<not> in_score_range (Some 0) (of_int (?t - ?w)) (snd m)) (members (filter P evs)) =
      members (filter (\<lambda>x. P x \<and> ?t - ?w < pe_occurred_at x) evs)" for P
    by (simp add: members_def filter_map comp_def, intro arg_cong [where f = "map _"] filter_cong) auto
  then show ?thesis
    using assms(2) False le
    by (simp add: ssh_inv_def, intro arg_cong [where f = members] filter_cong) auto
qed

lemma ssh_step:
  assumes R: "behaves_like_redis R view" and stm: "ssh_stream h ip (evs @ [e])"
    and inv: "ssh_inv st h ip (view r) evs" and w: "0 < ssh_bruteforce_window_sec st"
  shows "ssh_inv st h ip (view (snd (ssh_on_event R st e r))) (evs @ [e])"
    and "fst (ssh_on_event R st e r) =
      (if ssh_hit st (evs @ [e]) (length evs) \<and> (\<forall>k < length evs. \<not> ssh_hit st evs k)
       then [ssh_result st e ip (int (window_events st (evs @ [e]) e))] else [])"
proof -
  let ?key = "ssh_window_key h ip" and ?cd = "ssh_cooldown_key h ip"
  let ?kept = "members (filter (\<lambda>x. pe_occurred_at e - ssh_bruteforce_window_sec st < pe_occurred_at x) evs)"
  let ?p = "window_pipeline ?key (Some 0) (of_int (pe_occurred_at e - ssh_bruteforce_window_sec st)) (pe_event_id e)
      (of_int (pe_occurred_at e)) (ssh_cooldown_sec st)"
  have e: "is_failed_login e" "ssh_extract_source_ip e = Some ip" "pe_host_id e = h" "ip \<noteq> []"
    using stm by (auto simp: ssh_stream_def)
  have kept: "filter (\<lambda>m. \<not> in_score_range (Some 0) (of_int (pe_occurred_at e - ssh_bruteforce_window_sec st)) (snd m))
      (zset (view r) ?key) = ?kept"
    using window_kept [OF stm inv w] .
  have fresh: "map_of ?kept (pe_event_id e) = None"
    using stm by (auto simp: members_def map_of_eq_None_iff ssh_stream_def)
  obtain rs r1 where p: "R ?p r = (Some rs, r1)" and rs: "rs = fst (redis_exec ?p (view r))"
    and v1: "view r1 = snd (redis_exec ?p (view r))" using redis_reply [OF R] .
  note ex = window_pipeline_exec [where s = "view r" and key = ?key and lo = "Some 0"
      and cutoff = "of_int (pe_occurred_at e - ssh_bruteforce_window_sec st)" and member = "pe_event_id e"
      and now = "of_int (pe_occurred_at e)" and ttl = "ssh_cooldown_sec st", unfolded kept, OF fresh]
  have cnt: "length (?kept @ [(pe_event_id e, of_int (pe_occurred_at e))]) = window_events st (evs @ [e]) e"
    using w by (simp add: window_events_def members_def)
  have "2 < length rs" using ex(2) rs by simp
  from Cons_nth_drop_Suc [OF this, symmetric]
  have third: "third_int rs = Some (int (window_events st (evs @ [e]) e))"
    using ex(1) rs cnt by (simp add: third_int_def)
  have z1: "zset (view r1) ?key = members (filter (\<lambda>x. pe_occurred_at (last (evs @ [e])) - ssh_bruteforce_window_sec st < pe_occurred_at x) (evs @ [e]))"
    using ex(3) v1 w by (simp add: members_def)
  have k1: "r_keys (view r1) = r_keys (view r)" using ex(4) v1 by simp
  have cd: "map_of (r_keys (view r)) ?cd \<noteq> None \<longleftrightarrow> (\<exists>k < length evs. ssh_hit st evs k)"
    using inv by (simp add: ssh_inv_def)
  obtain rs2 r2 where s: "R [SetKey ?cd ''1'' (ssh_cooldown_sec st) True] r1 = (Some rs2, r2)"
    and rs2: "rs2 = fst (redis_exec [SetKey ?cd ''1'' (ssh_cooldown_sec st) True] (view r1))"
    and v2: "view r2 = snd (redis_exec [SetKey ?cd ''1'' (ssh_cooldown_sec st) True] (view r1))"
    using redis_reply [OF R] .
  have acq: "set_acquired (Some rs2) \<longleftrightarrow> map_of (r_keys (view r)) ?cd = None"
    using rs2 k1 by (simp add: set_acquired_def truthy_reply_def)
  have z2: "zset (view r2) ?key = zset (view r1) ?key" and k2: "map_of (r_keys (view r2)) ?cd \<noteq> None"
    using v2 by auto
  have run: "ssh_on_event R st e r =
      (if \<not> ssh_hit st (evs @ [e]) (length evs) then ([], r1)
       else if set_acquired (Some rs2) then ([ssh_result st e ip (int (window_events st (evs @ [e]) e))], r2) else ([], r2))"
    using e p third s by (simp add: ssh_on_event_def Let_def ssh_hit_last)
  show "ssh_inv st h ip (view (snd (ssh_on_event R st e r))) (evs @ [e])"
    unfolding ssh_inv_def ssh_hit_snoc using run z1 z2 k1 k2 cd by simp
  show "fst (ssh_on_event R st e r) =
      (if ssh_hit st (evs @ [e]) (length evs) \<and> (\<forall>k < length evs. \<not> ssh_hit st evs k)
       then [ssh_result st e ip (int (window_events st (evs @ [e]) e))] else [])"
    using run acq cd by auto
qed

lemma ssh_run_snoc:
  "ssh_run R st (evs @ [e]) r =
     (fst (ssh_run R st evs r) @ [fst (ssh_on_event R st e (snd (ssh_run R st evs r)))],
      snd (ssh_on_event R st e (snd (ssh_run R st evs r))))"
  by (induction evs arbitrary: r) (auto simp: Let_def split_beta)

lemma ssh_stream_butlast: "ssh_stream h ip (evs @ [e]) \<Longrightarrow> ssh_stream h ip evs"
  by (auto simp: ssh_stream_def sorted_append)

lemma ssh_run_spec:
  assumes "behaves_like_redis R view" and "0 < ssh_bruteforce_window_sec st"
    and "ssh_stream h ip evs" and "ssh_inv st h ip (view r) []"
  shows "ssh_inv st h ip (view (snd (ssh_run R st evs r))) evs \<and> length (fst (ssh_run R st evs r)) = length evs \<and>
    (\<forall>k < length evs. fst (ssh_run R st evs r) ! k =
      (if ssh_hit st evs k \<and> (\<forall>j < k. \<not> ssh_hit st evs j)
       then [ssh_result st (evs ! k) ip (int (window_events st (take (Suc k) evs) (evs ! k)))] else []))"
  using assms(3)
proof (induction evs rule: rev_induct)
  case Nil
  then show ?case using assms(4) by simp
next
  case (snoc e evs)
  let ?r = "snd (ssh_run R st evs r)"
  have IH: "ssh_inv st h ip (view ?r) evs" "length (fst (ssh_run R st evs r)) = length evs"
    "\<forall>k < length evs. fst (ssh_run R st evs r) ! k =
      (if ssh_hit st evs k \<and> (\<forall>j < k. \<not> ssh_hit st evs j)
       then [ssh_result st (evs ! k) ip (int (window_events st (take (Suc k) evs) (evs ! k)))] else [])"
    using snoc.IH [OF ssh_stream_butlast [OF snoc.prems]] by blast+
  note step = ssh_step [OF assms(1) snoc.prems IH(1) assms(2)]
  have "fst (ssh_run R st (evs @ [e]) r) ! k =
      (if ssh_hit st (evs @ [e]) k \<and> (\<forall>j < k. \<not> ssh_hit st (evs @ [e]) j)
       then [ssh_result st ((evs @ [e]) ! k) ip (int (window_events st (take (Suc k) (evs @ [e])) ((evs @ [e]) ! k)))] else [])"
    if k: "k < length (evs @ [e])" for k
  proof (cases "k < length evs")
    case True
    then have "(\<forall>j < k. \<not> ssh_hit st (evs @ [e]) j) \<longleftrightarrow> (\<forall>j < k. \<not> ssh_hit st evs j)"
      using ssh_hit_prefix by (metis order_less_trans)
    then show ?thesis using True IH(2,3) by (simp add: ssh_run_snoc nth_append ssh_hit_prefix)
  next
    case False
    then have "k = length evs" using k by simp
    then show ?thesis using step(2) IH(2) ssh_hit_prefix by (auto simp: ssh_run_snoc nth_append)
  qed
  then show ?case using step(1) IH(2) by (simp add: ssh_run_snoc)
qed

subsection \<open>Properties\<close>


definition demo_login :: "string \<Rightarrow> int \<Rightarrow> parsed_event" where
  "demo_login i t = \<lparr>pe_event_id = i, pe_host_id = ''h'', pe_source = ''auth.log'',
     pe_raw = ''sshd[1]: Failed password for invalid user bob from 203.0.113.9 port 22 ssh2'', pe_metadata = [], pe_occurred_at = t\<rparr>"

definition demo_thresholds :: settings where
  "demo_thresholds = default_settings\<lparr>ssh_bruteforce_threshold := 2\<rparr>"

definition demo_logins :: "parsed_event list" where
  "demo_logins = [demo_login ''e1'' 0, demo_login ''e2'' 70, demo_login ''e3'' 75, demo_login ''e4'' 76]"

lemma demo_login_facts:
  "is_failed_login (demo_login i t)" "ssh_extract_source_ip (demo_login i t) = Some ''203.0.113.9''"
  by (simp_all add: is_failed_login_def ssh_extract_source_ip_def demo_login_def meta_def ssh_failed_at_def strip_prefix_def
      match_user_ip_def match_ip_def take_digits_def py_isspace_def py_isdigit_def ord_def numeral_3_eq_3)


text \<open>
  Three of the five detectors can never raise an alert, whatever the event and
  whatever Redis answers: they read \<open>event.timestamp\<close>, which the event class does not
  have, and the resulting \<open>AttributeError\<close> is swallowed by their fail-open handler.  The
  port-scan and DNS-tunnel detectors do not even reach Redis.
\<close>

theorem three_detectors_never_fire:
  "port_scan_on_event R ev r = ([], r) \<and> dns_tunnel_on_event R ev r = ([], r) \<and>
   fst (auth_anomaly_on_event py_repr R ev r) = []"
proof -
  have "port_scan_on_event R ev r = ([], r)"
    by (simp add: port_scan_on_event_def event_timestamp_def split: option.split)
  moreover have "dns_tunnel_on_event R ev r = ([], r)"
    by (simp add: dns_tunnel_on_event_def event_timestamp_def split: option.split)
  moreover have "fst (auth_anomaly_on_event py_repr R ev r) = []"
    by (simp add: auth_anomaly_on_event_def event_timestamp_def Let_def split: option.split prod.split)
  ultimately show ?thesis by blast
qed

lemma web_tags_result:
  assumes "web_tags R ev ip matches tags r = (res, r')"
  shows "res = [] \<or> (\<exists>tag \<in> set tags. res = [web_result ev ip matches tag])"
  using assms
  by (induction tags arbitrary: r) (auto split: prod.split_asm if_split_asm)

text \<open>
  The web-attack detector reports at most one result per event, only for an HTTP event
  with a source address whose text really contains a signature match: the reported tag is
  one of the four, some substring matches its pattern, and the action blocks exactly the
  event's source address.  If Redis is down it still reports the first matching tag.
\<close>

theorem web_attack_sound:
  assumes "web_attack_on_event R ev r = (res, r')" and "x \<in> set res"
  shows "res = [x] \<and> is_http_event ev \<and>
    (\<exists>ip tag pat. meta ev ''source_ip'' = Some ip \<and> ip \<noteq> [] \<and> (tag, pat) \<in> set PATTERNS \<and>
       (\<exists>a u t. pe_raw ev = a @ u @ t \<and> matches_re pat u t) \<and>
       dr_dedup_key x = ip @ '':'' @ tag \<and>
       dr_action x = Some \<lparr>da_kind = ''block_ip'', da_target = ip, da_ttl_sec = Some 3600\<rparr>)"
proof -
  from assms obtain ip where h: "is_http_event ev" and ip: "meta ev ''source_ip'' = Some ip" "ip \<noteq> []"
    and t: "web_tags R ev ip (match_patterns ev) (match_patterns ev) r = (res, r')"
    by (auto simp: web_attack_on_event_def Let_def split: if_split_asm option.split_asm)
  from web_tags_result [OF t] assms(2) obtain tag where tag: "tag \<in> set (match_patterns ev)"
    and res: "res = [web_result ev ip (match_patterns ev) tag]" by auto
  from tag obtain pat where pat: "(tag, pat) \<in> set PATTERNS" "re_search pat (pe_raw ev)"
    by (auto simp: match_patterns_def)
  have x: "x = web_result ev ip (match_patterns ev) tag" using assms(2) res by simp
  have "\<exists>a u t. pe_raw ev = a @ u @ t \<and> matches_re pat u t" using pat(2) re_search_iff by blast
  then show ?thesis using h ip pat(1) res x by (auto simp: web_result_def)
qed

definition demo_web :: parsed_event where
  "demo_web = \<lparr>pe_event_id = ''w1'', pe_host_id = ''h'', pe_source = ''nginx'', pe_raw = ''GET /../etc'',
     pe_metadata = [(''source_ip'', ''203.0.113.9'')], pe_occurred_at = 0\<rparr>"

theorem web_attack_sound_witness:
  "\<exists>x. fst (web_attack_on_event local_redis demo_web empty_store) = [x] \<and>
     dr_action x = Some \<lparr>da_kind = ''block_ip'', da_target = ''203.0.113.9'', da_ttl_sec = Some 3600\<rparr>"
proof -
  have "map dr_summary (fst (web_attack_on_event local_redis demo_web empty_store)) =
      [''web attack (path_traversal) from 203.0.113.9'']" by code_simp
  then obtain x where x: "fst (web_attack_on_event local_redis demo_web empty_store) = [x]" by auto
  then have "web_attack_on_event local_redis demo_web empty_store =
      ([x], snd (web_attack_on_event local_redis demo_web empty_store))" by (metis prod.collapse)
  from web_attack_sound [OF this, of x] x show ?thesis by (auto simp: meta_def demo_web_def)
qed

end
