(* ===== verification/Sigma.thy ===== *)
theory Sigma
  imports Detectors
begin

section \<open>The Sigma rule engine\<close>

text \<open>
  \<open>rule_engine/sigma.py\<close> (loading, matching, rendering) and
  \<open>rule_engine/runner.py\<close> (windows and cooldowns in Redis, persistence).  A YAML
  document is a value of the type of JSON values; reading a file, regular expressions given
  in rules and \<open>float()\<close> are parameters.  Exceptions that leave a function are values of
  \<open>sigma_error\<close>.  Metadata values are texts, as the runner of the detectors builds them.
\<close>

record sigma_env =
  sg_texts :: py_texts
  sg_re :: "string \<Rightarrow> string \<Rightarrow> bool option"   \<comment> \<open>\<open>re.search\<close>; \<open>None\<close> is \<open>re.error\<close>\<close>
  sg_float :: "string \<Rightarrow> rat option"

datatype sigma_error =
  SigmaRuleLoadError string | Load_ValueError | Re_error | Not_a_mapping | Template_TypeError
| Redis_error | Str_has_no_exists

subsection \<open>Placeholders\<close>

definition name_char :: "char \<Rightarrow> bool" where
  "name_char c \<longleftrightarrow> py_isalnum c \<or> c = CHR ''_''"

definition placeholder :: "string \<Rightarrow> (string \<times> string) option" where
  \<comment> \<open>\<open>\{\{([a-zA-Z0-9_]+)\}\}\<close> at the start: the name and the rest\<close>
  "placeholder s =
     (case strip_prefix ''{{'' s of
        None \<Rightarrow> None
      | Some t \<Rightarrow>
          let n = takeWhile name_char t
          in if n = [] then None
             else map_option (\<lambda>rest. (n, rest)) (strip_prefix ''}}'' (drop (length n) t)))"

lemma placeholder_shorter: "placeholder s = Some (n, rest) \<Longrightarrow> length rest < length s"
  by (auto simp: placeholder_def strip_prefix_def Let_def prefix_def split: if_split_asm)

function interpolate :: "string \<Rightarrow> string str_dict \<Rightarrow> string" where
  "interpolate s md =
     (case placeholder s of
        Some (n, rest) \<Rightarrow> dict_get md n (''{{'' @ n @ ''}}'') @ interpolate rest md
      | None \<Rightarrow> (case s of [] \<Rightarrow> [] | c # t \<Rightarrow> c # interpolate t md))"
  by pat_completeness auto
termination
  by (relation "measure (\<lambda>(s, md). length s)") (auto dest: placeholder_shorter)

declare interpolate.simps [simp del]

subsection \<open>Matching\<close>

definition is_modifier_value :: "string \<Rightarrow> bool" where
  "is_modifier_value value =
     (if CHR ''|'' \<notin> set value then False
      else let mod_spec = snd (snd (py_partition (CHR ''|'') value))
           in if CHR '':'' \<notin> set mod_spec then False
              else fst (py_partition (CHR '':'') mod_spec) \<in> {''startswith'', ''endswith'', ''ge'', ''lt''})"

definition match_modifier :: "sigma_env \<Rightarrow> string \<Rightarrow> string \<Rightarrow> bool" where
  "match_modifier E actual value =
     (let mod_spec = snd (snd (py_partition (CHR ''|'') value));
          m = fst (py_partition (CHR '':'') mod_spec);
          lit = py_strip (snd (snd (py_partition (CHR '':'') mod_spec)))
      in if m = ''startswith'' then py_startswith actual lit
         else if m = ''endswith'' then py_endswith actual lit
         else if m = ''ge'' then
           (case (sg_float E actual, sg_float E lit) of (Some a, Some b) \<Rightarrow> a \<ge> b | _ \<Rightarrow> False)
         else if m = ''lt'' then
           (case (sg_float E actual, sg_float E lit) of (Some a, Some b) \<Rightarrow> a < b | _ \<Rightarrow> False)
         else False)"

definition match_entry :: "sigma_env \<Rightarrow> parsed_event \<Rightarrow> string \<Rightarrow> json \<Rightarrow> sigma_error + bool" where
  "match_entry E ev key expected =
     (case (case meta ev key of Some a \<Rightarrow> Some a | None \<Rightarrow> if key = ''source'' then Some (pe_source ev) else None) of
        None \<Rightarrow> Inr False
      | Some actual \<Rightarrow>
          (case expected of
             JArr vs \<Rightarrow> Inr (JStr actual \<in> set vs)
           | JStr e \<Rightarrow>
               if is_modifier_value e then Inr (match_modifier E actual e)
               else if py_startswith e ''re:'' then
                 (case sg_re E (drop 3 e) actual of None \<Rightarrow> Inl Re_error | Some b \<Rightarrow> Inr b)
               else if py_startswith e ''contains:'' then
                 (let needle = drop 9 e in Inr (py_contains actual needle \<or> py_contains (pe_raw ev) needle))
               else Inr (actual = e)
           | _ \<Rightarrow> Inr False))"

fun match_selection :: "sigma_env \<Rightarrow> parsed_event \<Rightarrow> json str_dict \<Rightarrow> sigma_error + bool" where
  "match_selection E ev [] = Inr True"
| "match_selection E ev ((key, expected) # sel) =
     bind_res (match_entry E ev key expected)
       (\<lambda>b. if b then match_selection E ev sel else Inr False)"

definition match_block :: "sigma_env \<Rightarrow> parsed_event \<Rightarrow> json \<Rightarrow> sigma_error + bool" where
  \<comment> \<open>\<open>_match_selection(event, self.detection[name])\<close>: only a mapping has \<open>items()\<close>\<close>
  "match_block E ev blk = (case blk of JObj sel \<Rightarrow> match_selection E ev sel | _ \<Rightarrow> Inl Not_a_mapping)"

record sigma_rule =
  sr_id :: string
  sr_title :: string
  sr_level :: string
  sr_selection :: "json str_dict"
  sr_detection :: "json str_dict"
  sr_condition :: string
  sr_count :: int
  sr_timeframe_sec :: int
  sr_cooldown_sec :: int
  sr_dedup_key :: string
  sr_action :: "json str_dict option"
  sr_required_fields :: "string list"

definition ws1 :: "string \<Rightarrow> string option" where
  \<comment> \<open>\<open>\s+\<close>\<close>
  "ws1 s = (case s of c # t \<Rightarrow> if py_isspace c then Some (dropWhile py_isspace t) else None | [] \<Rightarrow> None)"

definition word_end :: "string \<Rightarrow> string option" where
  \<comment> \<open>\<open>(\w+)\<close> up to the end\<close>
  "word_end s = (if s \<noteq> [] \<and> list_all py_isword s then Some s else None)"

definition lit_ws :: "string \<Rightarrow> string \<Rightarrow> string option" where
  "lit_ws l s = Option.bind (strip_prefix l s) ws1"

definition selection_and :: "string \<Rightarrow> string option" where
  "selection_and s = Option.bind (lit_ws ''selection'' s) (lit_ws ''and'')"

definition cond_not :: "string \<Rightarrow> string option" where
  "cond_not s = Option.bind (Option.bind (selection_and s) (lit_ws ''not'')) word_end"

definition cond_group :: "string \<Rightarrow> (string \<times> string) option" where
  \<comment> \<open>\<open>selection\s+and\s+\(([^)]+)\)\<close> and what follows\<close>
  "cond_group s =
     (case Option.bind (selection_and s) (strip_prefix ''('') of
        None \<Rightarrow> None
      | Some t \<Rightarrow>
          let inner = takeWhile (\<lambda>c. c \<noteq> CHR '')'') t
          in if inner = [] then None
             else map_option (\<lambda>rest. (inner, rest)) (strip_prefix '')'' (drop (length inner) t)))"

definition cond_and_not_tail :: "string \<Rightarrow> string option" where
  "cond_and_not_tail s =
     Option.bind (Option.bind (Option.bind (ws1 s) (lit_ws ''and'')) (lit_ws ''not'')) word_end"

function py_split_str :: "string \<Rightarrow> string \<Rightarrow> string \<Rightarrow> string list" where
  \<comment> \<open>\<open>s.split(sep)\<close> for a non-empty separator, with the current field reversed\<close>
  "py_split_str sep acc s =
     (if sep = [] then [rev acc @ s]
      else case strip_prefix sep s of
        Some t \<Rightarrow> rev acc # py_split_str sep [] t
      | None \<Rightarrow> (case s of [] \<Rightarrow> [rev acc] | c # t \<Rightarrow> py_split_str sep (c # acc) t))"
  by pat_completeness auto
termination
  by (relation "measure (\<lambda>(sep, acc, s). length s)")
     (auto simp: strip_prefix_def prefix_def split: if_split_asm)

declare py_split_str.simps [simp del]

definition filter_names :: "string \<Rightarrow> string list" where
  "filter_names inner = map py_strip (py_split_str '' or '' [] inner)"

fun any_block :: "sigma_env \<Rightarrow> parsed_event \<Rightarrow> json str_dict \<Rightarrow> string list \<Rightarrow> sigma_error + bool" where
  "any_block E ev det [] = Inr False"
| "any_block E ev det (f # fs) =
     (case map_of det f of
        None \<Rightarrow> Inr False
      | Some blk \<Rightarrow> bind_res (match_block E ev blk) (\<lambda>b. if b then Inr True else any_block E ev det fs))"

definition rule_matches :: "sigma_env \<Rightarrow> sigma_rule \<Rightarrow> parsed_event \<Rightarrow> sigma_error + bool" where
  "rule_matches E rule ev =
     (let det = sr_detection rule; cond = py_strip (sr_condition rule)
      in if \<not> list_all (\<lambda>f. meta ev f \<noteq> None) (sr_required_fields rule) then Inr False
         else if sr_condition rule = ''selection'' then match_selection E ev (sr_selection rule)
         else case cond_not cond of
           Some f \<Rightarrow>
             (case map_of det f of
                None \<Rightarrow> Inr False
              | Some blk \<Rightarrow>
                  bind_res (match_selection E ev (sr_selection rule))
                    (\<lambda>b. if \<not> b then Inr False else bind_res (match_block E ev blk) (\<lambda>f. Inr (\<not> f))))
         | None \<Rightarrow>
             (case cond_group cond of
                None \<Rightarrow> Inr False
              | Some (inner, rest) \<Rightarrow>
                  let names = filter_names inner
                  in if rest = [] then
                       (if \<not> list_all (\<lambda>f. map_of det f \<noteq> None) names then Inr False
                        else bind_res (match_selection E ev (sr_selection rule))
                               (\<lambda>b. if \<not> b then Inr False else any_block E ev det names))
                     else (case cond_and_not_tail rest of
                             None \<Rightarrow> Inr False
                           | Some nf \<Rightarrow>
                               if \<not> list_all (\<lambda>f. map_of det f \<noteq> None) (names @ [nf]) then Inr False
                               else bind_res (match_selection E ev (sr_selection rule))
                                 (\<lambda>b. if \<not> b then Inr False
                                      else bind_res (match_block E ev (the (map_of det nf)))
                                        (\<lambda>n. if n then Inr False else any_block E ev det names)))))"

subsection \<open>Rendering\<close>

record rendered_action =
  ra_kind :: json
  ra_target :: string
  ra_ttl_sec :: json

definition render_action :: "sigma_env \<Rightarrow> sigma_rule \<Rightarrow> parsed_event \<Rightarrow> sigma_error + rendered_action option" where
  "render_action E rule ev =
     (case sr_action rule of
        None \<Rightarrow> Inr None
      | Some [] \<Rightarrow> Inr None
      | Some act \<Rightarrow>
          (case dict_get act ''target'' (JStr '''') of
             JStr tpl \<Rightarrow>
               (let kind = dict_get act ''kind'' JNull; target = interpolate tpl (pe_metadata ev);
                    ttl = dict_get act ''ttl_sec'' JNull
                in if \<not> py_truthy (sg_texts E) kind \<or> target = [] then Inr None
                   else Inr (Some \<lparr>ra_kind = kind, ra_target = target,
                          ra_ttl_sec = (case ttl of
                             JStr t \<Rightarrow> (case py_int (interpolate t (pe_metadata ev)) of None \<Rightarrow> JNull | Some n \<Rightarrow> JInt n)
                           | _ \<Rightarrow> ttl)\<rparr>))
           | _ \<Rightarrow> Inl Template_TypeError))"

definition render_dedup_key :: "sigma_rule \<Rightarrow> parsed_event \<Rightarrow> string" where
  "render_dedup_key rule ev =
     (if sr_dedup_key rule = [] then sr_id rule
      else let k = interpolate (sr_dedup_key rule) (pe_metadata ev) in if k = [] then sr_id rule else k)"

subsection \<open>Loading\<close>

definition or_else :: "py_texts \<Rightarrow> json str_dict \<Rightarrow> string \<Rightarrow> json \<Rightarrow> json" where
  \<comment> \<open>\<open>raw.get(key) or default\<close>\<close>
  "or_else T raw key d = (case map_of raw key of Some v \<Rightarrow> if py_truthy T v then v else d | None \<Rightarrow> d)"

definition drop_last :: "nat \<Rightarrow> string \<Rightarrow> string" where
  "drop_last n s = take (length s - n) s"

definition int_or :: "(int \<Rightarrow> int) \<Rightarrow> string \<Rightarrow> int" where
  "int_or f s = (case py_int s of None \<Rightarrow> 60 | Some n \<Rightarrow> f n)"

definition parse_timeframe :: "py_texts \<Rightarrow> json \<Rightarrow> int" where
  "parse_timeframe T value =
     (case value of
        JInt n \<Rightarrow> n
      | JBool b \<Rightarrow> if b then 1 else 0
      | _ \<Rightarrow>
          let s = py_lower (py_strip (py_str T value))
          in if s = [] then 60
             else if py_endswith s ''ms'' then int_or (\<lambda>n. max 1 (n div 1000)) (drop_last 2 s)
             else if py_endswith s ''s'' then int_or (\<lambda>n. n) (drop_last 1 s)
             else if py_endswith s ''m'' then int_or (\<lambda>n. n * 60) (drop_last 1 s)
             else if py_endswith s ''h'' then int_or (\<lambda>n. n * 3600) (drop_last 1 s)
             else int_or (\<lambda>n. n) s)"

definition rule_action :: "json str_dict \<Rightarrow> sigma_error + json str_dict option" where
  "rule_action raw = (case dict_get raw ''action'' JNull of
      JNull \<Rightarrow> Inr None | JObj a \<Rightarrow> Inr (Some a)
    | _ \<Rightarrow> Inl (SigmaRuleLoadError ''action must be a mapping''))"

definition rule_required :: "py_texts \<Rightarrow> json str_dict \<Rightarrow> sigma_error + string list" where
  "rule_required T raw = (case dict_get raw ''required_fields'' (JArr []) of
      JArr fs \<Rightarrow> Inr (map (py_str T) fs)
    | _ \<Rightarrow> Inl (SigmaRuleLoadError ''required_fields must be a list of strings''))"

definition int_field :: "py_texts \<Rightarrow> json \<Rightarrow> sigma_error + int" where
  "int_field T v = (case py_int_of T v of None \<Rightarrow> Inl Load_ValueError | Some n \<Rightarrow> Inr n)"

definition compile_rule :: "py_texts \<Rightarrow> json str_dict \<Rightarrow> sigma_error + sigma_rule" where
  "compile_rule T raw =
     (let title = py_str T (or_else T raw ''title'' (or_else T raw ''id'' (JStr ''unnamed'')));
          rule_id = py_str T (or_else T raw ''id'' (JStr (py_replace_char (CHR '' '') ''-'' (py_lower title))));
          level = py_str T (or_else T raw ''level'' (JStr ''medium''))
      in if level \<notin> {''low'', ''medium'', ''high'', ''critical''} then Inl (SigmaRuleLoadError ''invalid level'')
         else case map_of raw ''detection'' of
           Some (JObj det) \<Rightarrow>
             (case map_of det ''selection'' of
                Some (JObj sel) \<Rightarrow>
                  bind_res (int_field T (or_else T det ''count'' (JInt 1))) (\<lambda>count.
                  bind_res (int_field T (or_else T raw ''cooldown_sec'' (JInt 300))) (\<lambda>cooldown.
                  bind_res (rule_action raw) (\<lambda>action.
                  bind_res (rule_required T raw) (\<lambda>required.
                    Inr \<lparr>sr_id = rule_id, sr_title = title, sr_level = level, sr_selection = sel,
                         sr_detection = det,
                         sr_condition = py_str T (or_else T det ''condition'' (JStr ''selection'')),
                         sr_count = count,
                         sr_timeframe_sec = parse_timeframe T (dict_get det ''timeframe'' (JStr ''60s'')),
                         sr_cooldown_sec = cooldown,
                         sr_dedup_key = py_str T (or_else T raw ''dedup_key'' (JStr [])),
                         sr_action = action, sr_required_fields = required\<rparr>))))
              | _ \<Rightarrow> Inl (SigmaRuleLoadError ''missing detection.selection''))
         | _ \<Rightarrow> Inl (SigmaRuleLoadError ''missing detection block''))"

datatype yaml_result = Yaml_error | Yaml_OSError | Yaml json   \<comment> \<open>\<open>yaml.safe_load\<close> of one file\<close>

fun compile_rules :: "py_texts \<Rightarrow> json list \<Rightarrow> sigma_error + sigma_rule list" where
  "compile_rules T [] = Inr []"
| "compile_rules T (v # vs) =
     (case v of
        JObj raw \<Rightarrow> bind_res (compile_rule T raw) (\<lambda>r. bind_res (compile_rules T vs) (\<lambda>rs. Inr (r # rs)))
      | _ \<Rightarrow> Inl (SigmaRuleLoadError ''rule must be a mapping''))"

definition parse_rule_file :: "py_texts \<Rightarrow> yaml_result \<Rightarrow> sigma_error + sigma_rule list" where
  "parse_rule_file T y =
     (case y of
        Yaml_error \<Rightarrow> Inl (SigmaRuleLoadError ''invalid YAML'')
      | Yaml_OSError \<Rightarrow> Inl (SigmaRuleLoadError ''cannot read'')
      | Yaml JNull \<Rightarrow> Inr []
      | Yaml (JArr vs) \<Rightarrow> compile_rules T vs
      | Yaml v \<Rightarrow> compile_rules T [v])"

fun load_files :: "py_texts \<Rightarrow> yaml_result list \<Rightarrow> sigma_error + sigma_rule list" where
  \<comment> \<open>the loop: only a \<open>SigmaRuleLoadError\<close> is skipped\<close>
  "load_files T [] = Inr []"
| "load_files T (y # ys) =
     (case parse_rule_file T y of
        Inr rs \<Rightarrow> bind_res (load_files T ys) (\<lambda>rest. Inr (rs @ rest))
      | Inl (SigmaRuleLoadError m) \<Rightarrow> load_files T ys
      | Inl e \<Rightarrow> Inl e)"

datatype dir_arg =
  Path_dir "yaml_result list"   \<comment> \<open>an existing directory, its files in the order of the loop\<close>
| Path_missing
| Text_arg string               \<comment> \<open>a \<open>str\<close>, which has no \<open>exists()\<close>\<close>

definition load_rules_from_dir :: "py_texts \<Rightarrow> dir_arg \<Rightarrow> sigma_error + sigma_rule list" where
  "load_rules_from_dir T d =
     (case d of
        Text_arg s \<Rightarrow> Inl Str_has_no_exists
      | Path_missing \<Rightarrow> Inr []
      | Path_dir ys \<Rightarrow> load_files T ys)"

subsection \<open>The runner\<close>

record rule_fire =
  rf_rule :: sigma_rule
  rf_event :: parsed_event
  rf_dedup_key :: string
  rf_count :: int
  rf_action :: "rendered_action option"

definition events_key :: "string \<Rightarrow> string \<Rightarrow> string" where
  "events_key rule_id dedup = ''zaqorin:rule:'' @ rule_id @ '':events:'' @ dedup"

definition cooldown_key :: "string \<Rightarrow> string \<Rightarrow> string" where
  "cooldown_key rule_id dedup = ''zaqorin:rule:'' @ rule_id @ '':cooldown:'' @ dedup"

definition call1 :: "'r redis \<Rightarrow> redis_cmd \<Rightarrow> 'r \<Rightarrow> (sigma_error + redis_reply) \<times> 'r" where
  "call1 R c r = (case R [c] r of (Some [x], r') \<Rightarrow> (Inr x, r') | (_, r') \<Rightarrow> (Inl Redis_error, r'))"

definition reply_int :: "redis_reply \<Rightarrow> int" where
  "reply_int x = (case x of RInt n \<Rightarrow> n | RBool b \<Rightarrow> (if b then 1 else 0) | RNone \<Rightarrow> 0)"

definition count_in_window ::
  "'r redis \<Rightarrow> sigma_rule \<Rightarrow> string \<Rightarrow> rat \<Rightarrow> 'r \<Rightarrow> (sigma_error + int) \<times> 'r" where
  "count_in_window R rule dedup event_time r =
     (let key = events_key (sr_id rule) dedup
      in case call1 R (ZRemRangeByScore key (Some 0) (event_time - of_int (sr_timeframe_sec rule))) r of
           (Inl e, r1) \<Rightarrow> (Inl e, r1)
         | (Inr _, r1) \<Rightarrow>
             (case call1 R (ZCard key) r1 of
                (Inl e, r2) \<Rightarrow> (Inl e, r2) | (Inr x, r2) \<Rightarrow> (Inr (reply_int x), r2)))"

definition record_event ::
  "'r redis \<Rightarrow> sigma_rule \<Rightarrow> string \<Rightarrow> rat \<Rightarrow> string \<Rightarrow> 'r \<Rightarrow> (sigma_error + unit) \<times> 'r" where
  "record_event R rule dedup event_time event_id r =
     (let key = events_key (sr_id rule) dedup
      in case call1 R (ZAdd key event_id event_time) r of
           (Inl e, r1) \<Rightarrow> (Inl e, r1)
         | (Inr _, r1) \<Rightarrow>
             (case call1 R (Expire key (max (sr_timeframe_sec rule * 10) 60)) r1 of
                (Inl e, r2) \<Rightarrow> (Inl e, r2) | (Inr _, r2) \<Rightarrow> (Inr (), r2)))"

definition fire_rule ::
  "sigma_env \<Rightarrow> 'r redis \<Rightarrow> rat \<Rightarrow> sigma_rule \<Rightarrow> parsed_event \<Rightarrow> 'r \<Rightarrow> (sigma_error + rule_fire option) \<times> 'r" where
  \<comment> \<open>one iteration of the loop in \<open>evaluate\<close>\<close>
  "fire_rule E R event_time rule ev r =
     (case rule_matches E rule ev of
        Inl e \<Rightarrow> (Inl e, r)
      | Inr False \<Rightarrow> (Inr None, r)
      | Inr True \<Rightarrow>
          let dedup = (let k = render_dedup_key rule ev in if k = [] then sr_id rule else k)
          in (case call1 R (Exists (cooldown_key (sr_id rule) dedup)) r of
                (Inl e, r1) \<Rightarrow> (Inl e, r1)
              | (Inr x, r1) \<Rightarrow>
                  if reply_int x \<noteq> 0 then (Inr None, r1)
                  else (case count_in_window R rule dedup event_time r1 of
                          (Inl e, r2) \<Rightarrow> (Inl e, r2)
                        | (Inr n, r2) \<Rightarrow>
                            (case record_event R rule dedup event_time (pe_event_id ev) r2 of
                               (Inl e, r3) \<Rightarrow> (Inl e, r3)
                             | (Inr _, r3) \<Rightarrow>
                                 if n + 1 < sr_count rule then (Inr None, r3)
                                 else (case call1 R (SetKey (cooldown_key (sr_id rule) dedup) ''1'' (sr_cooldown_sec rule) False) r3 of
                                         (Inl e, r4) \<Rightarrow> (Inl e, r4)
                                       | (Inr _, r4) \<Rightarrow>
                                           (case render_action E rule ev of
                                              Inl e \<Rightarrow> (Inl e, r4)
                                            | Inr act \<Rightarrow>
                                                (Inr (Some \<lparr>rf_rule = rule, rf_event = ev, rf_dedup_key = dedup,
                                                      rf_count = n + 1, rf_action = act\<rparr>), r4)))))))"

fun evaluate ::
  "sigma_env \<Rightarrow> 'r redis \<Rightarrow> rat \<Rightarrow> sigma_rule list \<Rightarrow> parsed_event \<Rightarrow> 'r \<Rightarrow> (sigma_error + rule_fire list) \<times> 'r" where
  "evaluate E R t [] ev r = (Inr [], r)"
| "evaluate E R t (rule # rules) ev r =
     (case fire_rule E R t rule ev r of
        (Inl e, r1) \<Rightarrow> (Inl e, r1)
      | (Inr f, r1) \<Rightarrow>
          (case evaluate E R t rules ev r1 of
             (Inl e, r2) \<Rightarrow> (Inl e, r2)
           | (Inr fs, r2) \<Rightarrow> (Inr ((case f of None \<Rightarrow> [] | Some x \<Rightarrow> [x]) @ fs), r2)))"


section \<open>What the engine guarantees\<close>

subsection \<open>Templates\<close>

datatype segment = Lit string | Var string

fun show_segment :: "segment \<Rightarrow> string" where
  "show_segment (Lit s) = s"
| "show_segment (Var n) = ''{{'' @ n @ ''}}''"

fun segment_value :: "string str_dict \<Rightarrow> segment \<Rightarrow> string" where
  "segment_value md (Lit s) = s"
| "segment_value md (Var n) = dict_get md n (show_segment (Var n))"

fun segment_ok :: "segment \<Rightarrow> bool" where
  "segment_ok (Lit s) = (CHR ''{'' \<notin> set s)"
| "segment_ok (Var n) = (n \<noteq> [] \<and> list_all name_char n)"

lemma strip_prefix_append [simp]: "strip_prefix p (p @ s) = Some s"
  by (simp add: strip_prefix_def)

lemma name_char_brace: "name_char c \<Longrightarrow> c \<noteq> CHR ''}''"
  by (auto simp: name_char_def py_isalnum_def py_isalpha_def py_isdigit_def ord_def)

lemma placeholder_var:
  assumes "n \<noteq> []" "list_all name_char n"
  shows "placeholder (''{{'' @ n @ ''}}'' @ rest) = Some (n, rest)"
proof -
  have "takeWhile name_char (n @ ''}}'' @ rest) = n @ takeWhile name_char (''}}'' @ rest)"
    using assms(2) by (intro takeWhile_append2) (auto simp: list_all_iff)
  also have "takeWhile name_char (''}}'' @ rest) = []"
    using name_char_brace by auto
  finally show ?thesis
    using assms(1) strip_prefix_append [of "''{{''" "n @ ''}}'' @ rest"] strip_prefix_append [of "''}}''" rest]
    by (simp add: placeholder_def)
qed

lemma interpolate_var:
  "placeholder s = Some (n, rest) \<Longrightarrow>
   interpolate s md = dict_get md n (''{{'' @ n @ ''}}'') @ interpolate rest md"
  by (simp add: interpolate.simps [of s])

lemma interpolate_lit: "CHR ''{'' \<notin> set s \<Longrightarrow> interpolate (s @ t) md = s @ interpolate t md"
proof (induction s)
  case (Cons c s)
  then have "placeholder (c # s @ t) = None"
    by (auto simp: placeholder_def strip_prefix_def)
  with Cons show ?case by (simp add: interpolate.simps [of "c # s @ t"])
qed simp

text \<open>
  A template is rendered segment by segment: literal text is kept, each placeholder is
  replaced by the metadata value of its name (or stays visible when the event has none), and
  the substituted values are never scanned again, so a value that itself contains a
  placeholder is not expanded.
\<close>

theorem interpolate_template:
  assumes "list_all segment_ok segs"
  shows "interpolate (concat (map show_segment segs)) md = concat (map (segment_value md) segs)"
  using assms
proof (induction segs)
  case Nil
  show ?case by (simp add: interpolate.simps placeholder_def strip_prefix_def)
next
  case (Cons g segs)
  show ?case
  proof (cases g)
    case (Lit s)
    with Cons show ?thesis by (simp add: interpolate_lit)
  next
    case (Var n)
    with Cons.prems have "placeholder (show_segment g @ concat (map show_segment segs)) = Some (n, concat (map show_segment segs))"
      using placeholder_var [of n "concat (map show_segment segs)"] by simp
    with Cons Var show ?thesis by (simp add: interpolate_var del: append.simps)
  qed
qed

theorem interpolate_template_witness:
  "interpolate ''block {{ip}} for {{who}}'' [(''ip'', ''{{who}}'')] = ''block {{who}} for {{who}}''"
  using interpolate_template [of "[Lit ''block '', Var ''ip'', Lit '' for '', Var ''who'']" "[(''ip'', ''{{who}}'')]"]
  by (simp add: dict_get_def name_char_def py_isalnum_def py_isalpha_def py_isdigit_def ord_def)

subsection \<open>Conditions\<close>

text \<open>
  The four condition forms the documentation of \<open>matches\<close> lists, as a type, how an
  author writes them, and their meaning given the truth of the selection and of each named
  block.
\<close>

datatype sigma_cond =
  Sel
| Sel_not string
| Sel_any "string list"
| Sel_any_not "string list" string

fun show_cond :: "sigma_cond \<Rightarrow> string" where
  "show_cond Sel = ''selection''"
| "show_cond (Sel_not f) = ''selection and not '' @ f"
| "show_cond (Sel_any fs) = ''selection and ('' @ py_join '' or '' fs @ '')''"
| "show_cond (Sel_any_not fs z) = ''selection and ('' @ py_join '' or '' fs @ '') and not '' @ z"

fun cond_names :: "sigma_cond \<Rightarrow> string list" where
  "cond_names Sel = []"
| "cond_names (Sel_not f) = [f]"
| "cond_names (Sel_any fs) = fs"
| "cond_names (Sel_any_not fs z) = fs @ [z]"

fun eval_cond :: "bool \<Rightarrow> (string \<Rightarrow> bool) \<Rightarrow> sigma_cond \<Rightarrow> bool" where
  "eval_cond s v Sel = s"
| "eval_cond s v (Sel_not f) = (s \<and> \<not> v f)"
| "eval_cond s v (Sel_any fs) = (s \<and> list_ex v fs)"
| "eval_cond s v (Sel_any_not fs z) = (s \<and> list_ex v fs \<and> \<not> v z)"

definition word_name :: "string \<Rightarrow> bool" where
  "word_name n \<longleftrightarrow> n \<noteq> [] \<and> list_all py_isword n"

definition cond_ok :: "sigma_cond \<Rightarrow> bool" where
  "cond_ok c \<longleftrightarrow> list_all word_name (cond_names c) \<and>
     (case c of Sel_any fs \<Rightarrow> fs \<noteq> [] | Sel_any_not fs z \<Rightarrow> fs \<noteq> [] | _ \<Rightarrow> True)"

lemma word_char: "py_isword c \<Longrightarrow> \<not> py_isspace c" "py_isword c \<Longrightarrow> c \<noteq> CHR '' ''"
  "py_isword c \<Longrightarrow> c \<noteq> CHR '')''" "py_isword c \<Longrightarrow> c \<noteq> CHR ''(''"
  by (auto simp: char_class_defs)

lemma strip_solid:
  assumes "s \<noteq> []" "\<not> py_isspace (hd s)" "\<not> py_isspace (last s)"
  shows "py_strip s = s"
proof -
  have "dropWhile py_isspace s = s" using assms by (cases s) auto
  moreover have "dropWhile py_isspace (rev s) = rev s"
    using assms by (cases s rule: rev_cases) auto
  ultimately show ?thesis by (simp add: py_strip_def py_lstrip_def py_rstrip_def)
qed

lemma strip_word: "word_name n \<Longrightarrow> py_strip n = n"
  using word_char(1) by (intro strip_solid) (auto simp: word_name_def list_all_iff)

lemma split_word:
  "list_all py_isword w \<Longrightarrow> py_split_str '' or '' acc (w @ s) = py_split_str '' or '' (rev w @ acc) s"
proof (induction w arbitrary: acc)
  case (Cons c w)
  then have "strip_prefix '' or '' (c # w @ s) = None"
    using word_char(2) by (auto simp: strip_prefix_def)
  with Cons show ?case by (simp add: py_split_str.simps [of _ _ "c # w @ s"])
qed simp

lemma split_join:
  "fs \<noteq> [] \<Longrightarrow> list_all word_name fs \<Longrightarrow> py_split_str '' or '' [] (py_join '' or '' fs) = fs"
proof (induction fs rule: induct_list012)
  case (2 w)
  then show ?case
    using split_word [of w "[]" "[]"]
    by (simp add: word_name_def py_split_str.simps [of _ _ "[]"] strip_prefix_def)
next
  case (3 w w' ws)
  have "py_split_str '' or '' [] (w @ '' or '' @ py_join '' or '' (w' # ws)) =
    py_split_str '' or '' (rev w) ('' or '' @ py_join '' or '' (w' # ws))"
    using split_word [of w "[]"] 3 by (simp add: word_name_def)
  also have "\<dots> = w # py_split_str '' or '' [] (py_join '' or '' (w' # ws))"
    using strip_prefix_append [of "'' or ''" "py_join '' or '' (w' # ws)"]
    by (simp add: py_split_str.simps [of _ _ "'' or '' @ py_join '' or '' (w' # ws)"] del: append.simps)
  finally show ?case using 3 by simp
qed simp

lemma filter_names_join: "fs \<noteq> [] \<Longrightarrow> list_all word_name fs \<Longrightarrow> filter_names (py_join '' or '' fs) = fs"
  by (simp add: filter_names_def split_join list.map_ident_strong strip_word list_all_iff)

lemma join_chars: "c \<in> set (py_join sep fs) \<Longrightarrow> c \<in> set sep \<union> \<Union> (set ` set fs)"
  by (induction sep fs rule: py_join.induct) auto

lemma join_group: 
  assumes "list_all word_name fs"
  shows "CHR '')'' \<notin> set (py_join '' or '' fs)"
proof
  assume "CHR '')'' \<in> set (py_join '' or '' fs)"
  then have "CHR '')'' \<in> set '' or '' \<union> \<Union> (set ` set fs)" by (rule join_chars)
  then obtain f where f: "f \<in> set fs" "CHR '')'' \<in> set f" by auto
  then have "py_isword (CHR '')'')" using assms by (auto simp: word_name_def list_all_iff)
  then show False using word_char(3) by blast
qed

lemma join_nonempty: "fs \<noteq> [] \<Longrightarrow> list_all word_name fs \<Longrightarrow> py_join '' or '' fs \<noteq> []"
  by (cases fs; cases "tl fs") (auto simp: word_name_def)

definition unblank :: "string \<Rightarrow> bool" where
  "unblank s \<longleftrightarrow> dropWhile py_isspace s = s"

lemma unblank_word: "word_name n \<Longrightarrow> unblank n"
  using word_char(1) by (cases n) (auto simp: word_name_def unblank_def)

lemma unblank_open: "unblank (''('' @ s)" "unblank (''not '' @ s)" "unblank (''and '' @ s)"
  by (simp_all add: unblank_def char_class_defs)

lemma lit_ws_append: "unblank s \<Longrightarrow> lit_ws l (l @ '' '' @ s) = Some s"
  by (simp add: lit_ws_def ws1_def char_class_defs unblank_def)

lemma selection_and_append:
  assumes "unblank s"
  shows "selection_and (''selection and '' @ s) = Some s"
  using lit_ws_append [of "''and '' @ s" "''selection''"] lit_ws_append [of s "''and''"] assms unblank_open(3) [of s]
  by (simp add: selection_and_def)

lemma cond_not_show: "word_name f \<Longrightarrow> cond_not (''selection and not '' @ f) = Some f"
  using selection_and_append [OF unblank_open(2) [of f]] lit_ws_append [OF unblank_word, of f "''not''"]
  by (simp add: cond_not_def word_end_def word_name_def)

lemma cond_not_group: "cond_not (''selection and ('' @ s) = None"
  using selection_and_append [OF unblank_open(1) [of s]]
  by (simp add: cond_not_def lit_ws_def strip_prefix_def)

lemma cond_group_show:
  assumes "inner \<noteq> []" "CHR '')'' \<notin> set inner"
  shows "cond_group (''selection and ('' @ inner @ '')'' @ rest) = Some (inner, rest)"
proof -
  have sel: "selection_and (''selection and ('' @ inner @ '')'' @ rest) = Some (''('' @ inner @ '')'' @ rest)"
    using selection_and_append [OF unblank_open(1) [of "inner @ '')'' @ rest"]] by simp
  have tw: "takeWhile (\<lambda>c. c \<noteq> CHR '')'') (inner @ '')'' @ rest) = inner"
    using assms(2) by (subst takeWhile_append2) auto
  show ?thesis
    using assms(1) tw strip_prefix_append [of "''(''" "inner @ '')'' @ rest"] strip_prefix_append [of "'')''" rest]
    by (simp add: cond_group_def sel del: append_Cons)
qed

lemma cond_tail_show: "word_name z \<Longrightarrow> cond_and_not_tail ('' and not '' @ z) = Some z"
  using lit_ws_append [OF unblank_open(2) [of z], of "''and''"] lit_ws_append [OF unblank_word, of z "''not''"]
  by (simp add: cond_and_not_tail_def ws1_def char_class_defs word_end_def word_name_def)

lemma show_cond_solid: "cond_ok c \<Longrightarrow> py_strip (show_cond c) = show_cond c"
  using word_char(1)
  by (intro strip_solid; cases c) (auto simp: cond_ok_def word_name_def list_all_iff char_class_defs)

lemma any_block_list_ex:
  assumes "\<And>n. n \<in> set fs \<Longrightarrow> map_of det n = Some (JObj (blk n)) \<and> match_selection E ev (blk n) = Inr (v n)"
  shows "any_block E ev det fs = Inr (list_ex v fs)"
  using assms by (induction fs) (auto simp: match_block_def)

definition fields_present :: "sigma_rule \<Rightarrow> parsed_event \<Rightarrow> bool" where
  "fields_present rule ev \<longleftrightarrow> list_all (\<lambda>f. meta ev f \<noteq> None) (sr_required_fields rule)"

lemma rule_matches_Sel:
  "sr_condition rule = show_cond Sel \<Longrightarrow> fields_present rule ev \<Longrightarrow>
   rule_matches E rule ev = match_selection E ev (sr_selection rule)"
  by (simp add: rule_matches_def fields_present_def Let_def)

lemma rule_matches_not:
  assumes "sr_condition rule = show_cond (Sel_not f)" "word_name f" "fields_present rule ev"
  shows "rule_matches E rule ev =
    (case map_of (sr_detection rule) f of
       None \<Rightarrow> Inr False
     | Some blk \<Rightarrow> bind_res (match_selection E ev (sr_selection rule))
         (\<lambda>b. if \<not> b then Inr False else bind_res (match_block E ev blk) (\<lambda>f. Inr (\<not> f))))"
proof -
  have "py_strip (sr_condition rule) = ''selection and not '' @ f"
    using assms show_cond_solid [of "Sel_not f"] by (simp add: cond_ok_def)
  moreover have "sr_condition rule \<noteq> ''selection''" using assms(1) by simp
  ultimately show ?thesis
    using assms(3) cond_not_show [OF assms(2)]
    by (simp add: rule_matches_def fields_present_def Let_def del: append_Cons)
qed

lemma rule_matches_group:
  assumes "sr_condition rule = ''selection and ('' @ py_join '' or '' fs @ '')'' @ rest"
    and "py_strip (sr_condition rule) = sr_condition rule"
    and "fs \<noteq> []" "list_all word_name fs" "fields_present rule ev"
  shows "rule_matches E rule ev =
    (if rest = [] then
       (if \<not> list_all (\<lambda>f. map_of (sr_detection rule) f \<noteq> None) fs then Inr False
        else bind_res (match_selection E ev (sr_selection rule))
               (\<lambda>b. if \<not> b then Inr False else any_block E ev (sr_detection rule) fs))
     else (case cond_and_not_tail rest of
             None \<Rightarrow> Inr False
           | Some nf \<Rightarrow>
               if \<not> list_all (\<lambda>f. map_of (sr_detection rule) f \<noteq> None) (fs @ [nf]) then Inr False
               else bind_res (match_selection E ev (sr_selection rule))
                 (\<lambda>b. if \<not> b then Inr False
                      else bind_res (match_block E ev (the (map_of (sr_detection rule) nf)))
                        (\<lambda>n. if n then Inr False else any_block E ev (sr_detection rule) fs))))"
proof -
  have "sr_condition rule \<noteq> ''selection''" using assms(1) by simp
  moreover have "cond_not (sr_condition rule) = None" using cond_not_group assms(1) by metis
  moreover have "cond_group (sr_condition rule) = Some (py_join '' or '' fs, rest)"
    using cond_group_show [OF join_nonempty join_group] assms by metis
  ultimately show ?thesis
    using assms(2,5) filter_names_join [OF assms(3,4)]
    by (simp add: rule_matches_def fields_present_def Let_def cong: if_cong option.case_cong)
qed

lemma rule_matches_absent: "\<not> fields_present rule ev \<Longrightarrow> rule_matches E rule ev = Inr False"
  by (simp add: rule_matches_def fields_present_def Let_def)

lemma rule_matches_cond:
  assumes "sr_condition rule = show_cond c" "cond_ok c" "fields_present rule ev"
    and "match_selection E ev (sr_selection rule) = Inr s"
    and "\<And>n. n \<in> set (cond_names c) \<Longrightarrow>
       map_of (sr_detection rule) n = Some (JObj (blk n)) \<and> match_selection E ev (blk n) = Inr (v n)"
  shows "rule_matches E rule ev = Inr (eval_cond s v c)"
proof (cases c)
  case Sel
  then show ?thesis using assms rule_matches_Sel by simp
next
  case (Sel_not f)
  then show ?thesis
    using assms by (simp add: rule_matches_not [of _ f] cond_ok_def match_block_def)
next
  case (Sel_any fs)
  have "list_all (\<lambda>f. map_of (sr_detection rule) f \<noteq> None) fs"
    using assms(5) Sel_any by (auto simp: list_all_iff)
  then show ?thesis
    using rule_matches_group [of rule fs "[]" ev E] any_block_list_ex [of fs "sr_detection rule" blk E ev v]
      assms Sel_any show_cond_solid [OF assms(2)] by (simp add: cond_ok_def)
next
  case (Sel_any_not fs z)
  have "list_all (\<lambda>f. map_of (sr_detection rule) f \<noteq> None) fs"
    using assms(5) Sel_any_not by (auto simp: list_all_iff)
  then show ?thesis
    using rule_matches_group [of rule fs "'' and not '' @ z" ev E] any_block_list_ex [of fs "sr_detection rule" blk E ev v]
      assms Sel_any_not show_cond_solid [OF assms(2)] cond_tail_show [of z]
    by (simp add: cond_ok_def match_block_def)
qed

lemma rule_matches_unknown_block:
  assumes "sr_condition rule = show_cond c" "cond_ok c" "fields_present rule ev"
    and "n \<in> set (cond_names c)" "map_of (sr_detection rule) n = None"
  shows "rule_matches E rule ev = Inr False"
proof (cases c)
  case Sel
  then show ?thesis using assms by simp
next
  case (Sel_not f)
  then show ?thesis
    using assms by (simp add: rule_matches_not [of _ f] cond_ok_def)
next
  case (Sel_any fs)
  have "\<not> list_all (\<lambda>f. map_of (sr_detection rule) f \<noteq> None) fs"
    using assms(4,5) Sel_any by (auto simp: list_all_iff)
  then show ?thesis
    using rule_matches_group [of rule fs "[]" ev E] assms Sel_any show_cond_solid [OF assms(2)]
    by (simp add: cond_ok_def)
next
  case (Sel_any_not fs z)
  have "\<not> list_all (\<lambda>f. map_of (sr_detection rule) f \<noteq> None) (fs @ [z])"
    using assms(4,5) Sel_any_not by (auto simp: list_all_iff)
  then show ?thesis
    using rule_matches_group [of rule fs "'' and not '' @ z" ev E] assms Sel_any_not
      show_cond_solid [OF assms(2)] cond_tail_show [of z]
    by (simp add: cond_ok_def)
qed

text \<open>
  C9: Conditions mean what the documentation says.  For a condition written in one of the
  four documented forms, a rule whose blocks all evaluate on the event matches exactly when
  every required field is present and the condition holds with the truth of the selection
  and of the named blocks; and when the condition names a block the rule does not have, the
  rule never matches, whatever the other blocks say.
\<close>

theorem sigma_condition_semantics:
  assumes "sr_condition rule = show_cond c" "cond_ok c"
    and "match_selection E ev (sr_selection rule) = Inr s"
    and "\<forall>n \<in> set (cond_names c). map_of (sr_detection rule) n \<noteq> None \<longrightarrow>
       map_of (sr_detection rule) n = Some (JObj (blk n)) \<and> match_selection E ev (blk n) = Inr (v n)"
  shows "rule_matches E rule ev =
    Inr (fields_present rule ev \<and>
         (\<forall>n \<in> set (cond_names c). map_of (sr_detection rule) n \<noteq> None) \<and> eval_cond s v c)"
proof (cases "fields_present rule ev \<and> (\<forall>n \<in> set (cond_names c). map_of (sr_detection rule) n \<noteq> None)")
  case True
  then show ?thesis using rule_matches_cond [of rule c ev E s blk v] assms by auto
next
  case False
  have "rule_matches E rule ev = Inr False"
    using False rule_matches_absent [of rule ev E] rule_matches_unknown_block [OF assms(1,2)] by blast
  with False show ?thesis by auto
qed

definition demo_sigma_env :: sigma_env where
  "demo_sigma_env = \<lparr>sg_texts = \<lparr>t_float_int = (\<lambda>s. None), t_float_zero = (\<lambda>s. False), t_repr = (\<lambda>v. ''{}'')\<rparr>,
     sg_re = (\<lambda>p s. None), sg_float = (\<lambda>s. None)\<rparr>"

definition demo_rule :: sigma_rule where
  "demo_rule = \<lparr>sr_id = ''R1'', sr_title = ''Repeated failure'', sr_level = ''high'',
     sr_selection = [(''source'', JStr ''auth'')],
     sr_detection = [(''selection'', JObj [(''source'', JStr ''auth'')]),
        (''failed'', JObj [(''status'', JArr [JStr ''failed'', JStr ''invalid''])]),
        (''locked'', JObj [(''status'', JStr ''locked'')]),
        (''internal'', JObj [(''ip'', JStr ''ip|startswith: 10.'')])],
     sr_condition = ''selection and (failed or locked) and not internal'',
     sr_count = 2, sr_timeframe_sec = 60, sr_cooldown_sec = 300, sr_dedup_key = ''{{ip}}'',
     sr_action = Some [(''kind'', JStr ''block_ip''), (''target'', JStr ''{{ip}}'')],
     sr_required_fields = [''ip'']\<rparr>"

definition demo_sigma_event :: "string \<Rightarrow> string \<Rightarrow> string \<Rightarrow> parsed_event" where
  "demo_sigma_event i ip status = \<lparr>pe_event_id = i, pe_host_id = ''h1'', pe_source = ''auth'', pe_raw = [],
     pe_metadata = [(''ip'', ip), (''status'', status)], pe_occurred_at = 0\<rparr>"

theorem sigma_condition_semantics_witness:
  "rule_matches demo_sigma_env demo_rule (demo_sigma_event ''e1'' ''203.0.113.9'' ''failed'') = Inr True"
proof -
  define c where "c = Sel_any_not [''failed'', ''locked''] ''internal''"
  define blk where "blk n = (case map_of (sr_detection demo_rule) n of Some (JObj b) \<Rightarrow> b | _ \<Rightarrow> [])" for n
  have "sr_condition demo_rule = show_cond c" "cond_ok c"
    unfolding c_def by code_simp+
  moreover have "match_selection demo_sigma_env (demo_sigma_event ''e1'' ''203.0.113.9'' ''failed'')
      (sr_selection demo_rule) = Inr True"
    by code_simp
  moreover have "\<forall>n \<in> set (cond_names c). map_of (sr_detection demo_rule) n \<noteq> None \<longrightarrow>
      map_of (sr_detection demo_rule) n = Some (JObj (blk n)) \<and>
      match_selection demo_sigma_env (demo_sigma_event ''e1'' ''203.0.113.9'' ''failed'') (blk n) =
        Inr (n = ''failed'')"
    unfolding c_def blk_def by code_simp
  ultimately have "rule_matches demo_sigma_env demo_rule (demo_sigma_event ''e1'' ''203.0.113.9'' ''failed'') =
    Inr (fields_present demo_rule (demo_sigma_event ''e1'' ''203.0.113.9'' ''failed'') \<and>
         (\<forall>n \<in> set (cond_names c). map_of (sr_detection demo_rule) n \<noteq> None) \<and>
         eval_cond True (\<lambda>n. n = ''failed'') c)"
    by (rule sigma_condition_semantics)
  also have "(fields_present demo_rule (demo_sigma_event ''e1'' ''203.0.113.9'' ''failed'') \<and>
         (\<forall>n \<in> set (cond_names c). map_of (sr_detection demo_rule) n \<noteq> None) \<and>
         eval_cond True (\<lambda>n. n = ''failed'') c) = True"
    unfolding c_def by code_simp
  finally show ?thesis .
qed

subsection \<open>Firing\<close>

definition fire_dedup :: "sigma_rule \<Rightarrow> parsed_event \<Rightarrow> string" where
  "fire_dedup rule ev = render_dedup_key rule ev"

lemma call1_exec:
  assumes "behaves_like_redis R view"
  obtains r' where "call1 R c r = (Inr (fst (redis_exec1 c (view r))), r')" "view r' = snd (redis_exec1 c (view r))"
proof -
  obtain rs r' where 1: "R [c] r = (Some rs, r')" "rs = fst (redis_exec [c] (view r))"
    "view r' = snd (redis_exec [c] (view r))"
    by (rule redis_reply [OF assms])
  have "rs = [fst (redis_exec1 c (view r))]" "view r' = snd (redis_exec1 c (view r))"
    using 1 by (auto split: prod.splits)
  with 1(1) show thesis by (intro that [of r']) (simp_all add: call1_def)
qed

definition window_kept :: "sigma_rule \<Rightarrow> rat \<Rightarrow> (string \<times> rat) list \<Rightarrow> (string \<times> rat) list" where
  "window_kept rule t z = filter (\<lambda>m. \<not> in_score_range (Some 0) (t - of_int (sr_timeframe_sec rule)) (snd m)) z"

lemma count_in_window_exec:
  assumes "behaves_like_redis R view"
  obtains r' where
    "count_in_window R rule d t r = (Inr (int (length (window_kept rule t (zset (view r) (events_key (sr_id rule) d))))), r')"
    "zset (view r') (events_key (sr_id rule) d) = window_kept rule t (zset (view r) (events_key (sr_id rule) d))"
    "r_keys (view r') = r_keys (view r)"
proof -
  let ?k = "events_key (sr_id rule) d"
  let ?z = "window_kept rule t (zset (view r) ?k)"
  let ?c1 = "ZRemRangeByScore ?k (Some 0) (t - of_int (sr_timeframe_sec rule))"
  obtain r1 where 1: "call1 R ?c1 r = (Inr (fst (redis_exec1 ?c1 (view r))), r1)"
    "view r1 = snd (redis_exec1 ?c1 (view r))" by (rule call1_exec [OF assms])
  obtain r2 where 2: "call1 R (ZCard ?k) r1 = (Inr (fst (redis_exec1 (ZCard ?k) (view r1))), r2)"
    "view r2 = snd (redis_exec1 (ZCard ?k) (view r1))" by (rule call1_exec [OF assms])
  have "zset (view r1) ?k = ?z" "r_keys (view r1) = r_keys (view r)"
    using 1(2) by (simp_all add: Let_def window_kept_def)
  with 1 2 show thesis
    by (intro that [of r2]) (simp_all add: count_in_window_def reply_int_def)
qed

lemma record_event_exec:
  assumes "behaves_like_redis R view"
  obtains r' where
    "record_event R rule d t i r = (Inr (), r')"
    "zset (view r') (events_key (sr_id rule) d) = dict_set i t (zset (view r) (events_key (sr_id rule) d))"
    "r_keys (view r') = r_keys (view r)"
proof -
  let ?k = "events_key (sr_id rule) d"
  let ?e = "Expire ?k (max (sr_timeframe_sec rule * 10) 60)"
  obtain r1 where 1: "call1 R (ZAdd ?k i t) r = (Inr (fst (redis_exec1 (ZAdd ?k i t) (view r))), r1)"
    "view r1 = snd (redis_exec1 (ZAdd ?k i t) (view r))" by (rule call1_exec [OF assms])
  obtain r2 where 2: "call1 R ?e r1 = (Inr (fst (redis_exec1 ?e (view r1))), r2)"
    "view r2 = snd (redis_exec1 ?e (view r1))" by (rule call1_exec [OF assms])
  show thesis
    using 1 2 by (intro that [of r2]) (simp_all add: record_event_def)
qed

definition in_cooldown :: "redis_store \<Rightarrow> sigma_rule \<Rightarrow> parsed_event \<Rightarrow> bool" where
  "in_cooldown s rule ev \<longleftrightarrow> map_of (r_keys s) (cooldown_key (sr_id rule) (fire_dedup rule ev)) \<noteq> None"

definition rule_zset :: "redis_store \<Rightarrow> sigma_rule \<Rightarrow> parsed_event \<Rightarrow> (string \<times> rat) list" where
  "rule_zset s rule ev = zset s (events_key (sr_id rule) (fire_dedup rule ev))"

definition due :: "redis_store \<Rightarrow> rat \<Rightarrow> sigma_rule \<Rightarrow> parsed_event \<Rightarrow> bool" where
  "due s t rule ev \<longleftrightarrow> int (length (window_kept rule t (rule_zset s rule ev))) + 1 \<ge> sr_count rule"

definition fire_of :: "redis_store \<Rightarrow> rat \<Rightarrow> sigma_rule \<Rightarrow> parsed_event \<Rightarrow> rendered_action option \<Rightarrow> rule_fire" where
  "fire_of s t rule ev act = \<lparr>rf_rule = rule, rf_event = ev, rf_dedup_key = fire_dedup rule ev,
     rf_count = int (length (window_kept rule t (rule_zset s rule ev))) + 1, rf_action = act\<rparr>"

lemma fire_dedup_eq: "(let k = render_dedup_key rule ev in if k = [] then sr_id rule else k) = fire_dedup rule ev"
  by (auto simp: render_dedup_key_def fire_dedup_def Let_def)

lemma fire_rule_cooldown:
  assumes B: "behaves_like_redis R view" and m: "rule_matches E rule ev = Inr True"
    and c: "in_cooldown (view r) rule ev"
  obtains r' where "fire_rule E R t rule ev r = (Inr None, r')" "view r' = view r"
proof -
  let ?x = "Exists (cooldown_key (sr_id rule) (fire_dedup rule ev))"
  obtain r1 where 1: "call1 R ?x r = (Inr (fst (redis_exec1 ?x (view r))), r1)"
    "view r1 = snd (redis_exec1 ?x (view r))" by (rule call1_exec [OF B])
  have "reply_int (fst (redis_exec1 ?x (view r))) = 1" "view r1 = view r"
    using c 1(2) by (auto simp: in_cooldown_def reply_int_def)
  with 1 show thesis
    by (intro that [of r1]) (simp_all add: fire_rule_def m fire_dedup_eq)
qed

lemma fire_rule_counts:
  assumes B: "behaves_like_redis R view" and m: "rule_matches E rule ev = Inr True"
    and a: "render_action E rule ev = Inr act" and c: "\<not> in_cooldown (view r) rule ev"
  obtains r' where "fire_rule E R t rule ev r =
      (Inr (if due (view r) t rule ev then Some (fire_of (view r) t rule ev act) else None), r')"
    "rule_zset (view r') rule ev = dict_set (pe_event_id ev) t (window_kept rule t (rule_zset (view r) rule ev))"
    "in_cooldown (view r') rule ev \<longleftrightarrow> due (view r) t rule ev"
proof -
  let ?d = "fire_dedup rule ev" and ?ck = "cooldown_key (sr_id rule) (fire_dedup rule ev)"
  obtain r1 where 1: "call1 R (Exists ?ck) r = (Inr (fst (redis_exec1 (Exists ?ck) (view r))), r1)"
    "view r1 = snd (redis_exec1 (Exists ?ck) (view r))" by (rule call1_exec [OF B])
  have 2: "call1 R (Exists ?ck) r = (Inr (RInt 0), r1)" "view r1 = view r"
    using c 1 by (auto simp: in_cooldown_def)
  obtain r2 where 3: "count_in_window R rule ?d t r1 = (Inr (int (length (window_kept rule t (rule_zset (view r1) rule ev)))), r2)"
    "rule_zset (view r2) rule ev = window_kept rule t (rule_zset (view r1) rule ev)"
    "r_keys (view r2) = r_keys (view r1)"
    unfolding rule_zset_def by (rule count_in_window_exec [OF B])
  obtain r3 where 4: "record_event R rule ?d t (pe_event_id ev) r2 = (Inr (), r3)"
    "rule_zset (view r3) rule ev = dict_set (pe_event_id ev) t (rule_zset (view r2) rule ev)"
    "r_keys (view r3) = r_keys (view r2)"
    unfolding rule_zset_def by (rule record_event_exec [OF B])
  let ?s = "SetKey ?ck ''1'' (sr_cooldown_sec rule) False"
  obtain r4 where 5: "call1 R ?s r3 = (Inr (fst (redis_exec1 ?s (view r3))), r4)"
    "view r4 = snd (redis_exec1 ?s (view r3))" by (rule call1_exec [OF B])
  note steps = m a fire_dedup_eq 2 3 4 5(1)
  show thesis
  proof (cases "due (view r) t rule ev")
    case True
    have "rule_zset (view r4) rule ev = rule_zset (view r3) rule ev" "in_cooldown (view r4) rule ev"
      using 5(2) by (simp_all add: rule_zset_def in_cooldown_def)
    with True show thesis
      by (intro that [of r4]) (simp_all add: fire_rule_def steps reply_int_def due_def fire_of_def)
  next
    case False
    have "\<not> in_cooldown (view r3) rule ev" using c 2(2) 3(3) 4(3) by (simp add: in_cooldown_def)
    with False show thesis
      by (intro that [of r3]) (simp_all add: fire_rule_def steps reply_int_def due_def)
  qed
qed

text \<open>
  C11: The three firing conditions of the rule engine, exactly.  Provided Redis behaves as
  documented, on an event that matches a rule whose action renders: inside the cooldown of
  its dedup key nothing fires and nothing is recorded; otherwise the event is recorded among
  those still in the window, and the rule fires exactly when these together with the event
  reach the rule's count; a fire carries that count, the dedup key and the rendered action, and
  starts the cooldown, which nothing else does.
\<close>

theorem sigma_fire_exact:
  assumes "behaves_like_redis R view"
    and "rule_matches E rule ev = Inr True" "render_action E rule ev = Inr act"
  shows "\<exists>r'. fire_rule E R t rule ev r =
      (Inr (if \<not> in_cooldown (view r) rule ev \<and> due (view r) t rule ev
            then Some (fire_of (view r) t rule ev act) else None), r') \<and>
    rule_zset (view r') rule ev =
      (if in_cooldown (view r) rule ev then rule_zset (view r) rule ev
       else dict_set (pe_event_id ev) t (window_kept rule t (rule_zset (view r) rule ev))) \<and>
    (in_cooldown (view r') rule ev \<longleftrightarrow> in_cooldown (view r) rule ev \<or> due (view r) t rule ev)"
proof (cases "in_cooldown (view r) rule ev")
  case True
  obtain r' where "fire_rule E R t rule ev r = (Inr None, r')" "view r' = view r"
    by (rule fire_rule_cooldown [OF assms(1,2) True])
  with True show ?thesis by (intro exI [of _ r']) simp
next
  case False
  show ?thesis
  proof (rule fire_rule_counts [OF assms False, of t])
    fix r'
    assume "fire_rule E R t rule ev r =
        (Inr (if due (view r) t rule ev then Some (fire_of (view r) t rule ev act) else None), r')"
      "rule_zset (view r') rule ev = dict_set (pe_event_id ev) t (window_kept rule t (rule_zset (view r) rule ev))"
      "in_cooldown (view r') rule ev \<longleftrightarrow> due (view r) t rule ev"
    with False show ?thesis by (intro exI [of _ r']) simp
  qed
qed

definition demo_window :: redis_store where
  "demo_window = empty_store\<lparr>r_zsets := [(events_key ''R1'' ''203.0.113.9'', [(''old'', 10), (''e0'', 950)])]\<rparr>"

definition demo_action :: rendered_action where
  "demo_action = \<lparr>ra_kind = JStr ''block_ip'', ra_target = ''203.0.113.9'', ra_ttl_sec = JNull\<rparr>"

theorem sigma_fire_exact_witness:
  "fst (fire_rule demo_sigma_env local_redis 1000 demo_rule (demo_sigma_event ''e1'' ''203.0.113.9'' ''failed'') demo_window) =
     Inr (Some (fire_of demo_window 1000 demo_rule (demo_sigma_event ''e1'' ''203.0.113.9'' ''failed'') (Some demo_action)))"
proof -
  let ?ev = "demo_sigma_event ''e1'' ''203.0.113.9'' ''failed''"
  have m: "rule_matches demo_sigma_env demo_rule ?ev = Inr True"
    "render_action demo_sigma_env demo_rule ?ev = Inr (Some demo_action)" by code_simp+
  have c: "\<not> in_cooldown demo_window demo_rule ?ev" "due demo_window 1000 demo_rule ?ev" by code_simp+
  show ?thesis
    using sigma_fire_exact [OF local_redis_behaves m, of 1000 demo_window] c by auto
qed

subsection \<open>Loading a directory\<close>

fun fatal :: "sigma_error + sigma_rule list \<Rightarrow> bool" where
  "fatal (Inr rs) = False"
| "fatal (Inl (SigmaRuleLoadError m)) = False"
| "fatal (Inl e) = True"

fun kept_rules :: "sigma_error + sigma_rule list \<Rightarrow> sigma_rule list" where
  "kept_rules (Inr rs) = rs"
| "kept_rules (Inl e) = []"

lemma load_files_cases:
  "load_files T ys = (case find fatal (map (parse_rule_file T) ys) of
     Some (Inl e) \<Rightarrow> Inl e | _ \<Rightarrow> Inr (concat (map (\<lambda>y. kept_rules (parse_rule_file T y)) ys)))"
proof (induction ys)
  case (Cons y ys)
  show ?case
  proof (cases "parse_rule_file T y")
    case (Inl e)
    then show ?thesis using Cons by (cases e) (auto split: option.splits sum.splits)
  next
    case (Inr rs)
    then show ?thesis using Cons by (auto split: option.splits sum.splits)
  qed
qed simp

text \<open>
  What a rules directory loads to.  The rules are those of the readable, well-formed
  files in the order of the loop, the files with a load error being skipped, unless some
  file fails with an error that is not a \<open>SigmaRuleLoadError\<close>: then loading stops
  with the first such error and no rule at all is returned.
\<close>

theorem sigma_loader_exact:
  "load_rules_from_dir T (Path_dir ys) =
     (case find fatal (map (parse_rule_file T) ys) of
        Some (Inl e) \<Rightarrow> Inl e
      | _ \<Rightarrow> Inr (concat (map (\<lambda>y. kept_rules (parse_rule_file T y)) ys)))"
  by (simp add: load_rules_from_dir_def load_files_cases)

text \<open>
  One rule with a \<open>count\<close> that is not a number is enough: whatever the other files
  hold, the directory does not load.
\<close>

lemma bad_count_is_fatal:
  assumes "or_else T raw ''level'' (JStr ''medium'') = JStr ''high''"
    and "map_of raw ''detection'' = Some (JObj det)" "map_of det ''selection'' = Some (JObj sel)"
    and "or_else T det ''count'' (JInt 1) = JStr ''many''"
  shows "fatal (parse_rule_file T (Yaml (JObj raw)))"
proof -
  have "py_int ''many'' = None" by code_simp
  with assms show ?thesis
    by (simp add: parse_rule_file_def compile_rule_def py_str_def int_field_def py_int_of_def Let_def)
qed

lemma bad_count_aborts_loading:
  assumes "or_else T raw ''level'' (JStr ''medium'') = JStr ''high''"
    and "map_of raw ''detection'' = Some (JObj det)" "map_of det ''selection'' = Some (JObj sel)"
    and "or_else T det ''count'' (JInt 1) = JStr ''many''" "Yaml (JObj raw) \<in> set ys"
  shows "\<not> is_ok (load_rules_from_dir T (Path_dir ys))"
proof -
  have "find fatal (map (parse_rule_file T) ys) \<noteq> None"
    unfolding find_None_iff set_map using bad_count_is_fatal [OF assms(1-4)] assms(5) by blast
  then obtain x where x: "find fatal (map (parse_rule_file T) ys) = Some x" by blast
  then have "fatal x" by (auto simp: find_Some_iff)
  then obtain e where "x = Inl e" by (cases x) auto
  with x show ?thesis by (simp add: load_rules_from_dir_def load_files_cases)
qed

lemma compile_rule_wf:
  assumes "compile_rule T raw = Inr r"
  shows "sr_level r \<in> {''low'', ''medium'', ''high'', ''critical''}"
    and "map_of (sr_detection r) ''selection'' = Some (JObj (sr_selection r))"
  using assms
  by (auto simp: compile_rule_def Let_def bind_res_Inr_iff split: if_split_asm option.split_asm json.split_asm)

end
