(* ===== verification/Detector_Runner.thy ===== *)
theory Detector_Runner
  imports Sigma
begin

section \<open>The detector runner\<close>

text \<open>
  \<open>detectors/runner.py\<close>, \<open>detectors/alert_service.py\<close>, \<open>models/alert.py\<close>,
  \<open>persist_fire\<close> of \<open>rule_engine/runner.py\<close> and \<open>publish_event\<close> of
  \<open>streams/publisher.py\<close>: what happens to one entry of the event stream.  The state is
  the Redis state, the tables and the number of UUIDs drawn.  The environment decides what the
  code cannot: whether the database answers or commits, the UUIDs drawn, and whether a
  detector is interrupted by its timeout or an exception, which leaves the Redis state it
  had reached.  Exceptions that leave a function are values of \<open>runner_exn\<close>.
\<close>

datatype runner_exn =
  Db_error | Redis_unavailable | Timestamp_out_of_range | Metadata_AttributeError
| ImportError | Sigma_exn sigma_error

record alert_row =
  alert_id :: uuid
  al_host_id :: uuid
  al_detector :: string
  al_severity :: string
  al_summary :: string
  al_detail :: "json str_dict"

record stored_event =
  se_id :: uuid
  se_raw :: string
  se_metadata :: json

record detect_db =
  db_hosts :: "host_row list"
  db_events :: "stored_event list"
  db_alerts :: "alert_row list"
  db_actions :: "action_row list"

record 'r runner_state =
  rn_redis :: 'r
  rn_db :: detect_db
  rn_next :: nat

record 'r runner_env =
  n_redis :: "'r redis"
  n_settings :: settings
  n_sigma :: sigma_env
  n_py_repr :: "string \<Rightarrow> string"
  n_uuid :: "string \<Rightarrow> uuid option"             \<comment> \<open>\<open>uuid.UUID(s)\<close>\<close>
  n_fresh :: "nat \<Rightarrow> uuid"                      \<comment> \<open>\<open>uuid.uuid4()\<close>\<close>
  n_now :: rat
  n_select_ok :: "uuid \<Rightarrow> bool"
  n_commit_ok :: "uuid \<Rightarrow> bool"
  n_interrupt :: "string \<Rightarrow> parsed_event \<Rightarrow> 'r \<Rightarrow> 'r option"

subsection \<open>Stream entries\<close>

definition py_trunc :: "rat \<Rightarrow> int" where
  \<comment> \<open>\<open>int(x)\<close> of a float\<close>
  "py_trunc q = (if q < 0 then - \<lfloor>- q\<rfloor> else \<lfloor>q\<rfloor>)"

definition publish_fields :: "uuid \<Rightarrow> uuid \<Rightarrow> string \<Rightarrow> rat \<Rightarrow> string str_dict" where
  "publish_fields event_id hid source occurred_at =
     [(''event_id'', event_id), (''host_id'', hid), (''source'', source),
      (''occurred_at_unix'', py_str_int (py_trunc occurred_at))]"

definition fromtimestamp :: "int \<Rightarrow> runner_exn + int option" where
  \<comment> \<open>\<open>datetime.fromtimestamp(n, tz=utc)\<close>: \<open>None\<close> is the \<open>ValueError\<close> of a year outside
      1..9999; further out it is an \<open>OSError\<close> or \<open>OverflowError\<close>\<close>
  "fromtimestamp n =
     (if - 62135596800 \<le> n \<and> n \<le> 253402300799 then Inr (Some n)
      else if - 67768040609740800 \<le> n \<and> n \<le> 67768036191676799 then Inr None
      else Inl Timestamp_out_of_range)"

definition parse_event :: "(string \<Rightarrow> uuid option) \<Rightarrow> string str_dict \<Rightarrow> runner_exn + parsed_event option" where
  "parse_event to_uuid flds =
     (case (Option.bind (map_of flds ''event_id'') to_uuid, Option.bind (map_of flds ''host_id'') to_uuid) of
        (Some eid, Some hid) \<Rightarrow>
          (case Option.bind (map_of flds ''occurred_at_unix'') py_int of
             None \<Rightarrow> Inr None
           | Some n \<Rightarrow>
               bind_res (fromtimestamp n)
                 (\<lambda>ts. Inr (map_option (\<lambda>t. \<lparr>pe_event_id = eid, pe_host_id = hid,
                    pe_source = dict_get flds ''source'' [], pe_raw = [], pe_metadata = [],
                    pe_occurred_at = t\<rparr>) ts)))
      | _ \<Rightarrow> Inr None)"

definition load_event_payload ::
  "'r runner_env \<Rightarrow> detect_db \<Rightarrow> uuid \<Rightarrow> runner_exn + (string \<times> string str_dict) option" where
  "load_event_payload e db eid =
     (if \<not> n_select_ok e eid then Inl Db_error
      else case find (\<lambda>row. se_id row = eid) (db_events db) of
        None \<Rightarrow> Inr None
      | Some row \<Rightarrow>
          (if \<not> py_truthy (sg_texts (n_sigma e)) (se_metadata row) then Inr (Some (se_raw row, []))
           else case se_metadata row of
             JObj kvs \<Rightarrow> Inr (Some (se_raw row, map (\<lambda>(k, v). (k, py_str (sg_texts (n_sigma e)) v)) kvs))
           | _ \<Rightarrow> Inl Metadata_AttributeError))"

definition fill_event :: "parsed_event \<Rightarrow> string \<times> string str_dict \<Rightarrow> parsed_event" where
  "fill_event ev p = ev\<lparr>pe_raw := fst p, pe_metadata := snd p\<rparr>"

subsection \<open>Rows\<close>

definition fits :: "nat \<Rightarrow> string \<Rightarrow> bool" where
  \<comment> \<open>a \<open>String(n)\<close> column takes the value\<close>
  "fits n s \<longleftrightarrow> length s \<le> n"

definition insert_alert :: "'r runner_env \<Rightarrow> alert_row \<Rightarrow> detect_db \<Rightarrow> detect_db option" where
  \<comment> \<open>the commit of one alert: foreign key, column widths, and whether the database is there\<close>
  "insert_alert e a db =
     (if n_commit_ok e (alert_id a) \<and> al_host_id a \<in> host_id ` set (db_hosts db) \<and>
         fits 64 (al_detector a) \<and> fits 16 (al_severity a) \<and> fits 512 (al_summary a)
      then Some (db\<lparr>db_alerts := db_alerts db @ [a]\<rparr>) else None)"

definition action_fits :: "string \<Rightarrow> string \<Rightarrow> int option \<Rightarrow> bool" where
  "action_fits k t ttl \<longleftrightarrow> fits 64 k \<and> fits 512 t \<and>
     (case ttl of None \<Rightarrow> True | Some n \<Rightarrow> - (2 ^ 31) \<le> n \<and> n < 2 ^ 31)"

definition insert_action ::
  "'r runner_env \<Rightarrow> uuid \<Rightarrow> uuid \<Rightarrow> uuid \<Rightarrow> string \<Rightarrow> string \<Rightarrow> int option \<Rightarrow> detect_db \<Rightarrow> detect_db option" where
  "insert_action e new_id h alert k t ttl db =
     (if n_commit_ok e new_id \<and> h \<in> host_id ` set (db_hosts db) \<and>
         alert \<in> alert_id ` set (db_alerts db) \<and> action_fits k t ttl
      then Some (db\<lparr>db_actions := write_action new_id (n_now e) (Some h) (Some alert) k t ttl (db_actions db)\<rparr>)
      else None)"

definition enriched_detail :: "json str_dict \<Rightarrow> string \<Rightarrow> int \<Rightarrow> json str_dict" where
  "enriched_detail detail dedup cooldown =
     (let d1 = (if dedup \<noteq> [] then dict_set ''dedup_key'' (JStr dedup) detail else detail)
      in if cooldown \<noteq> 0 then dict_set ''cooldown_sec'' (JInt cooldown) d1 else d1)"

definition result_alert :: "detection_result \<Rightarrow> uuid \<Rightarrow> uuid \<Rightarrow> alert_row" where
  "result_alert res h new_id =
     \<lparr>alert_id = new_id, al_host_id = h, al_detector = dr_detector res,
      al_severity = dr_severity res, al_summary = take 512 (dr_summary res),
      al_detail = enriched_detail (dr_detail res) (dr_dedup_key res) (dr_cooldown_sec res)\<rparr>"

definition write_alert ::
  "'r runner_env \<Rightarrow> detection_result \<Rightarrow> uuid \<Rightarrow> 'r runner_state \<Rightarrow> (runner_exn + uuid) \<times> 'r runner_state" where
  "write_alert e res h s =
     (let new_id = n_fresh e (rn_next s); s1 = s\<lparr>rn_next := Suc (rn_next s)\<rparr>
      in case insert_alert e (result_alert res h new_id) (rn_db s) of
           None \<Rightarrow> (Inl Db_error, s1)
         | Some db \<Rightarrow> (Inr new_id, s1\<lparr>rn_db := db\<rparr>))"

definition enqueue_action ::
  "'r runner_env \<Rightarrow> detection_action \<Rightarrow> uuid \<Rightarrow> uuid \<Rightarrow> 'r runner_state \<Rightarrow> 'r runner_state" where
  \<comment> \<open>\<open>write_action\<close> inside the handler that logs and goes on\<close>
  "enqueue_action e act h alert s =
     (let s1 = s\<lparr>rn_next := Suc (rn_next s)\<rparr>
      in case insert_action e (n_fresh e (rn_next s)) h alert (da_kind act) (da_target act) (da_ttl_sec act) (rn_db s) of
           None \<Rightarrow> s1 | Some db \<Rightarrow> s1\<lparr>rn_db := db\<rparr>)"

subsection \<open>One message\<close>

type_synonym 'r detector = "string \<times> (parsed_event \<Rightarrow> 'r \<Rightarrow> detection_result list \<times> 'r)"

definition builtin_detectors :: "'r runner_env \<Rightarrow> 'r detector list" where
  "builtin_detectors e =
     (let R = n_redis e
      in [(''ssh_bruteforce'', ssh_on_event R (n_settings e)), (''port_scan'', port_scan_on_event R),
          (''web_attack'', web_attack_on_event R), (''dns_tunnel'', dns_tunnel_on_event R),
          (''auth_anomaly'', auth_anomaly_on_event (n_py_repr e) R)])"

definition handle_result :: "'r runner_env \<Rightarrow> uuid \<Rightarrow> detection_result \<Rightarrow> 'r runner_state \<Rightarrow> 'r runner_state" where
  "handle_result e h res s =
     (case write_alert e res h s of
        (Inl _, s1) \<Rightarrow> s1
      | (Inr aid, s1) \<Rightarrow>
          (case dr_action res of None \<Rightarrow> s1 | Some act \<Rightarrow> enqueue_action e act h aid s1))"

definition run_detector :: "'r runner_env \<Rightarrow> parsed_event \<Rightarrow> 'r detector \<Rightarrow> 'r runner_state \<Rightarrow> 'r runner_state" where
  "run_detector e ev det s =
     (case n_interrupt e (fst det) ev (rn_redis s) of
        Some r \<Rightarrow> s\<lparr>rn_redis := r\<rparr>
      | None \<Rightarrow>
          (case snd det ev (rn_redis s) of
             (results, r) \<Rightarrow> fold (handle_result e (pe_host_id ev)) results (s\<lparr>rn_redis := r\<rparr>)))"

definition xack :: "'r runner_env \<Rightarrow> string \<Rightarrow> 'r runner_state \<Rightarrow> (runner_exn + unit) \<times> 'r runner_state" where
  "xack e msg s =
     (case n_redis e [XAck (stream_name (n_settings e)) (stream_group (n_settings e)) msg] (rn_redis s) of
        (None, r) \<Rightarrow> (Inl Redis_unavailable, s\<lparr>rn_redis := r\<rparr>)
      | (Some _, r) \<Rightarrow> (Inr (), s\<lparr>rn_redis := r\<rparr>))"

definition process_one ::
  "'r runner_env \<Rightarrow> string \<Rightarrow> string str_dict \<Rightarrow> 'r runner_state \<Rightarrow> (runner_exn + unit) \<times> 'r runner_state" where
  "process_one e msg flds s =
     (case parse_event (n_uuid e) flds of
        Inl x \<Rightarrow> (Inl x, s)
      | Inr None \<Rightarrow> xack e msg s
      | Inr (Some parsed) \<Rightarrow>
          (case load_event_payload e (rn_db s) (pe_event_id parsed) of
             Inl x \<Rightarrow> (Inl x, s)
           | Inr None \<Rightarrow> xack e msg s
           | Inr (Some p) \<Rightarrow>
               xack e msg (fold (run_detector e (fill_event parsed p)) (builtin_detectors e) s)))"

subsection \<open>Sigma rules on a message\<close>

definition rule_engine_names :: "string list" where
  \<comment> \<open>what the package \<open>rule_engine\<close> binds: its imports and the submodule they load\<close>
  "rule_engine_names = [''CompiledSigmaRule'', ''SigmaRuleLoadError'', ''load_rules_from_dir'', ''parse_rule_file'', ''sigma'']"

definition import_from :: "string list \<Rightarrow> string list \<Rightarrow> runner_exn + unit" where
  "import_from bound names = (if list_all (\<lambda>n. n \<in> set bound) names then Inr () else Inl ImportError)"

definition action_of_rendered :: "rendered_action \<Rightarrow> (string \<times> string \<times> int option) option" where
  \<comment> \<open>the values the columns take; \<open>None\<close> when the driver refuses one\<close>
  "action_of_rendered a =
     (case (ra_kind a, ra_ttl_sec a) of
        (JStr k, JNull) \<Rightarrow> Some (k, ra_target a, None)
      | (JStr k, JInt n) \<Rightarrow> Some (k, ra_target a, Some n)
      | _ \<Rightarrow> None)"

definition persist_fire ::
  "'r runner_env \<Rightarrow> bool \<Rightarrow> rule_fire \<Rightarrow> 'r runner_state \<Rightarrow> 'r runner_state" where
  \<comment> \<open>with the commit of its caller: both rows or none; \<open>hunt\<close> is the mode\<close>
  "persist_fire e hunt f s =
     (if hunt then s
      else
        let aid = n_fresh e (rn_next s); h = pe_host_id (rf_event f); rule = rf_rule f;
            alert = \<lparr>alert_id = aid, al_host_id = h, al_detector = sr_id rule, al_severity = sr_level rule,
                     al_summary = sr_title rule,
                     al_detail = [(''rule_title'', JStr (sr_title rule)), (''rule_level'', JStr (sr_level rule)),
                       (''count'', JInt (rf_count f)), (''dedup_key'', JStr (rf_dedup_key f)),
                       (''event_id'', JStr (pe_event_id (rf_event f)))]\<rparr>;
            s1 = s\<lparr>rn_next := Suc (rn_next s)\<rparr>; s2 = s\<lparr>rn_next := Suc (Suc (rn_next s))\<rparr>
        in case (insert_alert e alert (rn_db s), rf_action f) of
             (None, None) \<Rightarrow> s1
           | (None, Some _) \<Rightarrow> s2
           | (Some db, None) \<Rightarrow> s1\<lparr>rn_db := db\<rparr>
           | (Some db, Some act) \<Rightarrow>
               (case action_of_rendered act of
                  None \<Rightarrow> s2
                | Some (k, t, ttl) \<Rightarrow>
                    (case insert_action e (n_fresh e (Suc (rn_next s))) h aid k t ttl db of
                       None \<Rightarrow> s2 | Some db' \<Rightarrow> s2\<lparr>rn_db := db'\<rparr>)))"

definition process_sigma_one ::
  "'r runner_env \<Rightarrow> string str_dict \<Rightarrow> 'r runner_state \<Rightarrow> (runner_exn + unit) \<times> 'r runner_state" where
  "process_sigma_one e flds s =
     (case parse_event (n_uuid e) flds of
        Inl x \<Rightarrow> (Inl x, s)
      | Inr None \<Rightarrow> (Inr (), s)
      | Inr (Some parsed) \<Rightarrow>
          (case load_event_payload e (rn_db s) (pe_event_id parsed) of
             Inl x \<Rightarrow> (Inl x, s)
           | Inr None \<Rightarrow> (Inr (), s)
           | Inr (Some p) \<Rightarrow>
               (case import_from rule_engine_names [''SigmaRuleRunner'', ''persist_fire''] of
                  Inl x \<Rightarrow> (Inl x, s)
                | Inr _ \<Rightarrow>
                    (case load_rules_from_dir (sg_texts (n_sigma e)) (Text_arg (rules_dir (n_settings e))) of
                       Inl x \<Rightarrow> (Inl (Sigma_exn x), s)
                     | Inr rules \<Rightarrow>
                         if rules = [] then (Inr (), s)
                         else (case evaluate (n_sigma e) (n_redis e) (n_now e) rules (fill_event parsed p) (rn_redis s) of
                                 (Inl x, r) \<Rightarrow> (Inl (Sigma_exn x), s\<lparr>rn_redis := r\<rparr>)
                               | (Inr fires, r) \<Rightarrow>
                                   (Inr (), fold (persist_fire e False) fires (s\<lparr>rn_redis := r\<rparr>)))))))"

definition consume_message ::
  "'r runner_env \<Rightarrow> string \<times> string str_dict \<Rightarrow> 'r runner_state \<Rightarrow> 'r runner_state" where
  \<comment> \<open>the body of the loop in \<open>run\<close>, with its handler\<close>
  "consume_message e m s =
     (case process_one e (fst m) (snd m) s of
        (Inl _, s1) \<Rightarrow> snd (xack e (fst m) s1)
      | (Inr _, s1) \<Rightarrow>
          (case process_sigma_one e (snd m) s1 of
             (Inl _, s2) \<Rightarrow> snd (xack e (fst m) s2)
           | (Inr _, s2) \<Rightarrow> s2))"

definition consume_batch ::
  "'r runner_env \<Rightarrow> (string \<times> string str_dict) list \<Rightarrow> 'r runner_state \<Rightarrow> 'r runner_state" where
  "consume_batch e msgs s = fold (consume_message e) msgs s"

section \<open>What the runner guarantees\<close>

subsection \<open>Growth of the tables\<close>

definition alert_for :: "uuid \<Rightarrow> host_row list \<Rightarrow> alert_row \<Rightarrow> bool" where
  "alert_for h hosts a \<longleftrightarrow> al_host_id a = h \<and> h \<in> host_id ` set hosts \<and> length (al_summary a) \<le> 512"

definition action_for :: "uuid \<Rightarrow> alert_row list \<Rightarrow> action_row \<Rightarrow> bool" where
  "action_for h alerts x \<longleftrightarrow> act_status x = ''pending'' \<and> act_host_id x = Some h \<and>
     act_alert_id x \<in> Some ` alert_id ` set alerts"

definition grown :: "uuid \<Rightarrow> detect_db \<Rightarrow> detect_db \<Rightarrow> bool" where
  "grown h db db' \<longleftrightarrow>
     (\<exists>na nx. db' = db\<lparr>db_alerts := db_alerts db @ na, db_actions := db_actions db @ nx\<rparr> \<and>
        list_all (alert_for h (db_hosts db)) na \<and> list_all (action_for h na) nx)"

lemma grown_refl: "grown h db db"
  unfolding grown_def by (rule exI [of _ "[]"], rule exI [of _ "[]"]) simp

lemma action_for_mono: "list_all (action_for h na) nx \<Longrightarrow> set na \<subseteq> set nb \<Longrightarrow> list_all (action_for h nb) nx"
  unfolding list_all_iff action_for_def by blast

lemma grown_trans:
  assumes "grown h a b" "grown h b c"
  shows "grown h a c"
proof -
  obtain na nx where 1: "b = a\<lparr>db_alerts := db_alerts a @ na, db_actions := db_actions a @ nx\<rparr>"
    "list_all (alert_for h (db_hosts a)) na" "list_all (action_for h na) nx"
    using assms(1) unfolding grown_def by blast
  obtain nb ny where 2: "c = b\<lparr>db_alerts := db_alerts b @ nb, db_actions := db_actions b @ ny\<rparr>"
    "list_all (alert_for h (db_hosts b)) nb" "list_all (action_for h nb) ny"
    using assms(2) unfolding grown_def by blast
  show ?thesis
    unfolding grown_def
    using 1 2 action_for_mono [of h na nx "na @ nb"] action_for_mono [of h nb ny "na @ nb"]
    by (intro exI [of _ "na @ nb"]) (rule exI [of _ "nx @ ny"], simp)
qed

lemma grown_fold:
  assumes "\<And>x s. x \<in> set xs \<Longrightarrow> grown h (rn_db s) (rn_db (f x s))"
  shows "grown h (rn_db s) (rn_db (fold f xs s))"
  using assms
proof (induction xs arbitrary: s)
  case (Cons x xs)
  have "grown h (rn_db s) (rn_db (f x s))" by (rule Cons.prems) simp
  moreover have "grown h (rn_db (f x s)) (rn_db (fold f xs (f x s)))"
    by (rule Cons.IH) (rule Cons.prems, simp)
  ultimately show ?case by (simp add: grown_trans)
qed (simp add: grown_refl)

lemma write_alert_cases:
  assumes "write_alert e res h s = (x, s')"
  shows "(x = Inl Db_error \<and> rn_db s' = rn_db s) \<or>
    (\<exists>a. x = Inr (alert_id a) \<and> alert_for h (db_hosts (rn_db s)) a \<and>
       rn_db s' = (rn_db s)\<lparr>db_alerts := db_alerts (rn_db s) @ [a]\<rparr>)"
proof (cases "insert_alert e (result_alert res h (n_fresh e (rn_next s))) (rn_db s)")
  case None
  then show ?thesis using assms by (auto simp: write_alert_def Let_def)
next
  case (Some db)
  then show ?thesis
    using assms
    by (intro disjI2 exI [of _ "result_alert res h (n_fresh e (rn_next s))"])
       (auto simp: write_alert_def insert_alert_def Let_def alert_for_def result_alert_def split: if_split_asm)
qed

lemma enqueue_action_cases:
  "rn_db (enqueue_action e act h aid s) = rn_db s \<or>
   (\<exists>x. act_status x = ''pending'' \<and> act_host_id x = Some h \<and> act_alert_id x = Some aid \<and>
      rn_db (enqueue_action e act h aid s) = (rn_db s)\<lparr>db_actions := db_actions (rn_db s) @ [x]\<rparr>)"
proof (cases "insert_action e (n_fresh e (rn_next s)) h aid (da_kind act) (da_target act) (da_ttl_sec act) (rn_db s)")
  case None
  then show ?thesis by (simp add: enqueue_action_def Let_def)
next
  case (Some db)
  let ?w = "write_action (n_fresh e (rn_next s)) (n_now e) (Some h) (Some aid) (da_kind act) (da_target act) (da_ttl_sec act) []"
  from Some show ?thesis
    by (intro disjI2 exI [of _ "hd ?w"])
       (auto simp: enqueue_action_def insert_action_def Let_def write_action_def split: if_split_asm)
qed

lemma handle_result_grown: "grown h (rn_db s) (rn_db (handle_result e h res s))"
proof (cases "write_alert e res h s")
  case (Pair x s1)
  consider "x = Inl Db_error" "rn_db s1 = rn_db s"
    | a where "x = Inr (alert_id a)" "alert_for h (db_hosts (rn_db s)) a"
       "rn_db s1 = (rn_db s)\<lparr>db_alerts := db_alerts (rn_db s) @ [a]\<rparr>"
    using write_alert_cases [OF Pair] by blast
  then show ?thesis
  proof cases
    case 1
    then show ?thesis by (simp add: handle_result_def Pair grown_refl)
  next
    case 2
    have g1: "grown h (rn_db s) (rn_db s1)"
      unfolding grown_def using 2 by (intro exI [of _ "[a]"]) (rule exI [of _ "[]"], simp)
    show ?thesis
    proof (cases "dr_action res")
      case None
      then show ?thesis using g1 2 by (simp add: handle_result_def Pair)
    next
      case (Some act)
      have "grown h (rn_db s) (rn_db (enqueue_action e act h (alert_id a) s1))"
        using enqueue_action_cases [of e act h "alert_id a" s1]
      proof (elim disjE exE conjE)
        assume "rn_db (enqueue_action e act h (alert_id a) s1) = rn_db s1"
        then show ?thesis using g1 by simp
      next
        fix y
        assume "act_status y = ''pending''" "act_host_id y = Some h" "act_alert_id y = Some (alert_id a)"
          "rn_db (enqueue_action e act h (alert_id a) s1) = (rn_db s1)\<lparr>db_actions := db_actions (rn_db s1) @ [y]\<rparr>"
        then show ?thesis
          unfolding grown_def using 2
          by (intro exI [of _ "[a]"]) (rule exI [of _ "[y]"], simp add: action_for_def)
      qed
      then show ?thesis using 2 Some by (simp add: handle_result_def Pair)
    qed
  qed
qed

lemma run_detector_grown: "grown (pe_host_id ev) (rn_db s) (rn_db (run_detector e ev det s))"
proof (cases "n_interrupt e (fst det) ev (rn_redis s)")
  case None
  obtain results r where d: "snd det ev (rn_redis s) = (results, r)" by fastforce
  have "grown (pe_host_id ev) (rn_db (s\<lparr>rn_redis := r\<rparr>))
    (rn_db (fold (handle_result e (pe_host_id ev)) results (s\<lparr>rn_redis := r\<rparr>)))"
    by (rule grown_fold) (rule handle_result_grown)
  then show ?thesis using None d by (simp add: run_detector_def)
qed (simp add: run_detector_def grown_refl)

lemma xack_db [simp]: "rn_db (snd (xack e msg s)) = rn_db s"
  by (simp add: xack_def split: prod.split option.split)

definition entry_growth :: "'r runner_env \<Rightarrow> string str_dict \<Rightarrow> detect_db \<Rightarrow> detect_db \<Rightarrow> bool" where
  "entry_growth e flds db db' \<longleftrightarrow>
     (case parse_event (n_uuid e) flds of
        Inr (Some ev) \<Rightarrow> grown (pe_host_id ev) db db' | _ \<Rightarrow> db' = db)"

lemma process_one_growth: "entry_growth e flds (rn_db s) (rn_db (snd (process_one e msg flds s)))"
proof -
  have "grown (pe_host_id ev) (rn_db s) (rn_db (fold (run_detector e (fill_event ev p)) ds s))" for ev p ds
  proof -
    have h: "pe_host_id (fill_event ev p) = pe_host_id ev" by (simp add: fill_event_def)
    show ?thesis by (rule grown_fold) (rule run_detector_grown [of "fill_event ev p", unfolded h])
  qed
  then show ?thesis
    by (simp add: entry_growth_def process_one_def grown_refl split: sum.split option.split)
qed

lemma process_sigma_one_state: "snd (process_sigma_one e flds s) = s"
  by (simp add: process_sigma_one_def import_from_def rule_engine_names_def split: sum.split option.split)

lemma consume_message_db: "rn_db (consume_message e m s) = rn_db (snd (process_one e (fst m) (snd m) s))"
  using process_sigma_one_state [of e "snd m"]
  by (auto simp: consume_message_def split: prod.split sum.split) (metis snd_conv xack_db)+

lemma xack_acks:
  assumes "behaves_like_redis (n_redis e) view"
  shows "fst (xack e msg s) = Inr ()" and "msg \<in> set (r_acked (view (rn_redis (snd (xack e msg s)))))"
proof -
  let ?c = "[XAck (stream_name (n_settings e)) (stream_group (n_settings e)) msg]"
  obtain rs r' where r: "n_redis e ?c (rn_redis s) = (Some rs, r')"
    "view r' = snd (redis_exec ?c (view (rn_redis s)))"
    using redis_reply [OF assms] by metis
  then show "fst (xack e msg s) = Inr ()" "msg \<in> set (r_acked (view (rn_redis (snd (xack e msg s)))))"
    by (simp_all add: xack_def Let_def)
qed

lemma process_one_acks:
  assumes "behaves_like_redis (n_redis e) view"
    and "fst (process_one e msg flds s) = Inr ()"
  shows "msg \<in> set (r_acked (view (rn_redis (snd (process_one e msg flds s)))))"
  using assms(2) xack_acks(2) [OF assms(1)]
  by (auto simp: process_one_def split: sum.split_asm option.split_asm)

subsection \<open>Properties\<close>

text \<open>
  C3: What one stream entry can do to the tables.  An entry that is malformed changes none
  of them.  Otherwise rows are only appended: alerts of the entry's host, which exists, with
  a summary that fits its column, and pending actions for that host, each of which belongs
  to an alert written for the same entry.
\<close>

theorem runner_rows_linked:
  "case parse_event (n_uuid e) (snd m) of
     Inr (Some ev) \<Rightarrow>
       (\<exists>na nx. rn_db (consume_message e m s) =
            (rn_db s)\<lparr>db_alerts := db_alerts (rn_db s) @ na, db_actions := db_actions (rn_db s) @ nx\<rparr> \<and>
          list_all (alert_for (pe_host_id ev) (db_hosts (rn_db s))) na \<and>
          list_all (action_for (pe_host_id ev) na) nx)
   | _ \<Rightarrow> rn_db (consume_message e m s) = rn_db s"
  using process_one_growth [of e "snd m" s "fst m"]
  unfolding entry_growth_def grown_def consume_message_db .

text \<open>
  C5: The stream never stalls on a message.  As long as Redis answers, every message the
  loop takes is acknowledged, whatever the message holds, whichever detectors time out or
  raise, and whether or not the database works.
\<close>

theorem every_message_acked:
  assumes "behaves_like_redis (n_redis e) view"
  shows "fst m \<in> set (r_acked (view (rn_redis (consume_message e m s))))"
proof (cases "process_one e (fst m) (snd m) s")
  case (Pair x s1)
  show ?thesis
  proof (cases x)
    case (Inl err)
    then show ?thesis using Pair xack_acks(2) [OF assms] by (simp add: consume_message_def)
  next
    case (Inr u)
    have "fst m \<in> set (r_acked (view (rn_redis s1)))"
      using process_one_acks [OF assms, of "fst m" "snd m" s] Pair Inr by simp
    moreover have "snd (process_sigma_one e (snd m) s1) = s1" by (rule process_sigma_one_state)
    ultimately show ?thesis
      using Pair Inr xack_acks(2) [OF assms]
      by (cases "process_sigma_one e (snd m) s1") (simp add: consume_message_def split: sum.split)
  qed
qed

definition demo_runner_env :: "(uuid \<Rightarrow> bool) \<Rightarrow> redis_store runner_env" where
  "demo_runner_env db_up = \<lparr>n_redis = local_redis, n_settings = demo_thresholds, n_sigma = demo_sigma_env,
     n_py_repr = (\<lambda>s. s), n_uuid = (\<lambda>s. if length s = 2 then Some s else None),
     n_fresh = (\<lambda>n. replicate n (CHR ''x'')), n_now = 0, n_select_ok = (\<lambda>i. True), n_commit_ok = db_up,
     n_interrupt = (\<lambda>d ev r. None)\<rparr>"

definition demo_runner_state :: "redis_store runner_state" where
  "demo_runner_state = \<lparr>rn_redis = empty_store,
     rn_db = \<lparr>db_hosts = [\<lparr>host_id = ''h1'', last_seen_at = 0, last_version = None, host_secret = None, auto_block = True\<rparr>],
        db_events = [\<lparr>se_id = ''e1'', se_raw = ''Failed password for root from 203.0.113.9 port 22'', se_metadata = JObj []\<rparr>],
        db_alerts = [], db_actions = []\<rparr>, rn_next = 0\<rparr>"

theorem every_message_acked_witness:
  "r_acked (rn_redis (consume_message (demo_runner_env (\<lambda>i. False))
      (''1-0'', publish_fields ''e1'' ''h1'' ''sshd'' 60) demo_runner_state)) \<noteq> []"
proof -
  let ?e = "demo_runner_env (\<lambda>i. False)"
  have "behaves_like_redis (n_redis ?e) (\<lambda>r. r)" by (simp add: demo_runner_env_def local_redis_behaves)
  then have "fst (''1-0'', publish_fields ''e1'' ''h1'' ''sshd'' 60) \<in>
      set (r_acked (rn_redis (consume_message ?e (''1-0'', publish_fields ''e1'' ''h1'' ''sshd'' 60) demo_runner_state)))"
    by (rule every_message_acked)
  then show ?thesis by auto
qed

text \<open>
  Sigma rules never take part in live detection.  For every well-formed entry of a
  stored event the rule step ends with an \<open>ImportError\<close> (the package does not export
  the two names it imports) and in every case it leaves Redis and the tables as they were.
\<close>

theorem sigma_rules_never_run:
  "snd (process_sigma_one e flds s) = s \<and>
   fst (process_sigma_one e flds s) =
     (case parse_event (n_uuid e) flds of
        Inl x \<Rightarrow> Inl x
      | Inr None \<Rightarrow> Inr ()
      | Inr (Some ev) \<Rightarrow>
          (case load_event_payload e (rn_db s) (pe_event_id ev) of
             Inl x \<Rightarrow> Inl x | Inr None \<Rightarrow> Inr () | Inr (Some p) \<Rightarrow> Inl ImportError))"
  using process_sigma_one_state [of e flds s]
  by (auto simp: process_sigma_one_def import_from_def rule_engine_names_def split: sum.split option.split)

lemma text_rules_dir_fails: "load_rules_from_dir T (Text_arg d) = Inl Str_has_no_exists"
  by (simp add: load_rules_from_dir_def)

text \<open>
  Round trip through the stream.  The fields the publisher writes for an event are read
  back by the runner as that event: same ids, same source, and its time in whole seconds.
\<close>

theorem publish_parse_roundtrip:
  assumes "to_uuid eid = Some eid" "to_uuid hid = Some hid"
    and "0 \<le> occurred_at" "occurred_at < 253402300800"
  shows "parse_event to_uuid (publish_fields eid hid source occurred_at) =
    Inr (Some \<lparr>pe_event_id = eid, pe_host_id = hid, pe_source = source, pe_raw = [], pe_metadata = [],
               pe_occurred_at = \<lfloor>occurred_at\<rfloor>\<rparr>)"
proof -
  have "\<lfloor>occurred_at\<rfloor> < 253402300800" using assms(4) by (simp add: floor_less_iff)
  then have "fromtimestamp \<lfloor>occurred_at\<rfloor> = Inr (Some \<lfloor>occurred_at\<rfloor>)"
    using assms(3) by (simp add: fromtimestamp_def)
  then show ?thesis
    using assms by (simp add: parse_event_def publish_fields_def py_trunc_def py_int_str_int dict_get_def)
qed

theorem publish_parse_roundtrip_witness:
  "parse_event (\<lambda>s. Some s) (publish_fields ''e1'' ''h1'' ''sshd'' (5 / 2)) =
    Inr (Some \<lparr>pe_event_id = ''e1'', pe_host_id = ''h1'', pe_source = ''sshd'', pe_raw = [], pe_metadata = [],
               pe_occurred_at = 2\<rparr>)"
proof -
  have "\<lfloor>5 / 2 :: rat\<rfloor> = 2" by (simp add: floor_eq_iff)
  then show ?thesis
    using publish_parse_roundtrip [of "\<lambda>s. Some s" "''e1''" "''h1''" "5 / 2" "''sshd''"] by simp
qed

end
