(* ===== verification/Soar_Config.thy ===== *)
theory Soar_Config
  imports Dispatch Json
begin

section \<open>Configuration and registry of the alert forwarding\<close>

text \<open>
  \<open>soar/config.py\<close> (reading \<open>soar.toml\<close>, the severity order) and the backend registry
  of \<open>soar/__init__.py\<close>.  A parsed TOML document is a value of the type of JSON
  values; \<open>float()\<close> is the parameter \<open>to_float\<close>, whose results are finite.
  The registry holds backends of any type \<open>'b\<close> with their names.
\<close>

subsection \<open>Severities\<close>

definition SEVERITY_ORDER :: "int str_dict" where
  "SEVERITY_ORDER = [(''info'', 0), (''low'', 1), (''medium'', 2), (''high'', 3), (''critical'', 4)]"

definition severity_meets :: "string \<Rightarrow> string \<Rightarrow> bool" where
  "severity_meets actual minimum \<longleftrightarrow>
     dict_get SEVERITY_ORDER (py_lower actual) 0 \<ge> dict_get SEVERITY_ORDER (py_lower minimum) 0"

subsection \<open>The configuration file\<close>

definition KNOWN_BACKENDS :: "string list" where
  "KNOWN_BACKENDS = [''generic_webhook'', ''slack'', ''discord'', ''pagerduty'', ''thehive'', ''jira'']"

record backend_config =
  bc_name :: string
  bc_enabled :: bool
  bc_cooldown_sec :: int
  bc_severity_min :: string
  bc_tags_filter :: "string list"
  bc_max_retries :: int
  bc_timeout_sec :: rat
  bc_extra :: "json str_dict"

record soar_config =
  sc_enabled :: bool
  sc_poll_sec :: rat
  sc_queue_max :: int
  sc_dead_letter_dir :: string
  sc_public_base_url :: string
  sc_backends :: "backend_config str_dict"

datatype soar_error = Unknown_backend string | TOMLDecodeError | Not_a_table

datatype toml_file = Toml_missing | Toml_invalid | Toml_doc "json str_dict"

definition default_config_path :: "(string \<rightharpoonup> string) \<Rightarrow> (string \<Rightarrow> bool) \<Rightarrow> string \<Rightarrow> string \<Rightarrow> string" where
  "default_config_path env exists cwd pkg =
     (case env ''ZAQORIN_SOAR_CONFIG'' of
        Some p \<Rightarrow> if p \<noteq> [] then p
                  else if exists (cwd @ ''/config/soar.toml'') then cwd @ ''/config/soar.toml'' else pkg @ ''/config/soar.toml''
      | None \<Rightarrow> if exists (cwd @ ''/config/soar.toml'') then cwd @ ''/config/soar.toml'' else pkg @ ''/config/soar.toml'')"

definition coerce_int :: "py_texts \<Rightarrow> json \<Rightarrow> int \<Rightarrow> int" where
  "coerce_int T v d = (case py_int_of T v of None \<Rightarrow> d | Some n \<Rightarrow> n)"

definition coerce_float :: "(json \<Rightarrow> rat option) \<Rightarrow> json \<Rightarrow> rat \<Rightarrow> rat" where
  "coerce_float to_float v d = (case to_float v of None \<Rightarrow> d | Some x \<Rightarrow> x)"

definition coerce_list :: "py_texts \<Rightarrow> json \<Rightarrow> string list" where
  "coerce_list T v = (case v of JArr xs \<Rightarrow> map (py_str T) xs | _ \<Rightarrow> [])"

definition DEFAULTS :: "json str_dict" where
  "DEFAULTS = [(''enabled'', JBool False), (''cooldown_sec'', JInt 60), (''severity_min'', JStr ''low''),
     (''tags_filter'', JArr []), (''max_retries'', JInt 5), (''timeout_sec'', JFloat ''10.0'')]"

definition reserved :: "string list" where
  "reserved = [''enabled'', ''cooldown_sec'', ''severity_min'', ''tags_filter'', ''max_retries'', ''timeout_sec'']"

definition or_default :: "json str_dict \<Rightarrow> string \<Rightarrow> json" where
  \<comment> \<open>\<open>block.get(key, _DEFAULTS[key])\<close>\<close>
  "or_default block key = dict_get block key (dict_get DEFAULTS key JNull)"

definition backend_block :: "py_texts \<Rightarrow> (json \<Rightarrow> rat option) \<Rightarrow> string \<Rightarrow> json str_dict \<Rightarrow> backend_config" where
  \<comment> \<open>the body of the loop over the backend blocks\<close>
  "backend_block T to_float name block =
     (let sev = py_str T (or_default block ''severity_min'')
      in \<lparr>bc_name = name, bc_enabled = py_truthy T (or_default block ''enabled''),
          bc_cooldown_sec = max 0 (coerce_int T (or_default block ''cooldown_sec'') 60),
          bc_severity_min = (if map_of SEVERITY_ORDER sev = None then ''low'' else sev),
          bc_tags_filter = coerce_list T (or_default block ''tags_filter''),
          bc_max_retries = max 0 (coerce_int T (or_default block ''max_retries'') 5),
          bc_timeout_sec = max 1 (coerce_float to_float (or_default block ''timeout_sec'') 10),
          bc_extra = filter (\<lambda>kv. fst kv \<notin> set reserved) block\<rparr>)"

fun load_backends ::
  "py_texts \<Rightarrow> (json \<Rightarrow> rat option) \<Rightarrow> json str_dict \<Rightarrow> soar_error + backend_config str_dict" where
  "load_backends T to_float [] = Inr []"
| "load_backends T to_float ((name, block) # rest) =
     (if name \<notin> set KNOWN_BACKENDS then Inl (Unknown_backend name)
      else bind_res (load_backends T to_float rest)
        (\<lambda>bs. Inr (case block of JObj b \<Rightarrow> (name, backend_block T to_float name b) # bs | _ \<Rightarrow> bs)))"

definition load_config :: "py_texts \<Rightarrow> (json \<Rightarrow> rat option) \<Rightarrow> toml_file \<Rightarrow> soar_error + soar_config" where
  "load_config T to_float f =
     (case f of
        Toml_missing \<Rightarrow>
          Inr \<lparr>sc_enabled = False, sc_poll_sec = 2, sc_queue_max = 1000,
               sc_dead_letter_dir = ''var/soar/dead-letter'', sc_public_base_url = [], sc_backends = []\<rparr>
      | Toml_invalid \<Rightarrow> Inl TOMLDecodeError
      | Toml_doc raw \<Rightarrow>
          (case dict_get raw ''soar'' (JObj []) of
             JObj soar \<Rightarrow>
               (let enabled = py_truthy T (dict_get soar ''enabled'' (JBool False));
                    poll_sec = coerce_float to_float (dict_get soar ''poll_sec'' (JFloat ''2.0'')) 2;
                    queue_max = coerce_int T (dict_get soar ''queue_max'' (JInt 1000)) 1000;
                    dir = py_str T (dict_get soar ''dead_letter_dir'' (JStr ''var/soar/dead-letter''));
                    url = py_rstrip (\<lambda>c. c = CHR ''/'') (py_str T (dict_get soar ''public_base_url'' (JStr [])));
                    blocks = (case dict_get raw ''backends'' (JObj []) of JObj b \<Rightarrow> b | _ \<Rightarrow> [])
                in bind_res (load_backends T to_float blocks)
                     (\<lambda>bs. Inr \<lparr>sc_enabled = enabled, sc_poll_sec = max (1 / 10) poll_sec,
                        sc_queue_max = max 1 queue_max, sc_dead_letter_dir = dir,
                        sc_public_base_url = url, sc_backends = bs\<rparr>))
           | _ \<Rightarrow> Inl Not_a_table))"

subsection \<open>The registry\<close>

type_synonym 'b backends = "(string \<times> 'b) list"

fun register :: "string \<Rightarrow> 'b \<Rightarrow> 'b backends \<Rightarrow> 'b backends" where
  \<comment> \<open>the loop over \<open>_REGISTRY\<close>: replace in place or append\<close>
  "register name b [] = [(name, b)]"
| "register name b ((n, x) # r) = (if n = name then (name, b) # r else (n, x) # register name b r)"

definition get_backends :: "'b backends \<Rightarrow> 'b backends" where
  "get_backends r = r"

definition initial_registry :: "(string \<Rightarrow> 'b) \<Rightarrow> 'b backends" where
  \<comment> \<open>the six \<open>NotImplemented\<close> stand-ins registered when the package is imported\<close>
  "initial_registry stub = fold (\<lambda>n. register n (stub n)) KNOWN_BACKENDS []"

definition install_backends :: "(string \<Rightarrow> backend_config \<Rightarrow> 'b) \<Rightarrow> soar_config \<Rightarrow> 'b backends \<Rightarrow> string + 'b backends" where
  "install_backends mk cfg r =
     (case find (\<lambda>n. n \<notin> set KNOWN_BACKENDS) (map fst (sc_backends cfg)) of
        Some n \<Rightarrow> Inl n
      | None \<Rightarrow> Inr (fold (\<lambda>n r. case map_of (sc_backends cfg) n of None \<Rightarrow> r | Some c \<Rightarrow> register n (mk n c) r)
                       KNOWN_BACKENDS r))"

section \<open>What configuration guarantees\<close>

definition sane_backend :: "string \<times> backend_config \<Rightarrow> bool" where
  "sane_backend nb \<longleftrightarrow> (case nb of (name, b) \<Rightarrow>
     name \<in> set KNOWN_BACKENDS \<and> bc_name b = name \<and> 0 \<le> bc_cooldown_sec b \<and> 0 \<le> bc_max_retries b \<and>
     1 \<le> bc_timeout_sec b \<and> bc_severity_min b \<in> fst ` set SEVERITY_ORDER \<and>
     fst ` set (bc_extra b) \<inter> set reserved = {})"

definition sane_config :: "soar_config \<Rightarrow> bool" where
  "sane_config c \<longleftrightarrow> 1 / 10 \<le> sc_poll_sec c \<and> 1 \<le> sc_queue_max c \<and> list_all sane_backend (sc_backends c) \<and>
     \<not> py_endswith (sc_public_base_url c) ''/''"

lemma backend_block_sane: "name \<in> set KNOWN_BACKENDS \<Longrightarrow> sane_backend (name, backend_block T fl name b)"
  by (auto simp: sane_backend_def backend_block_def Let_def reserved_def map_of_eq_None_iff)
     (auto simp: SEVERITY_ORDER_def)

lemma load_backends_sane: "load_backends T fl bs = Inr cs \<Longrightarrow> list_all sane_backend cs"
proof (induction T fl bs arbitrary: cs rule: load_backends.induct)
  case (2 T fl name block rest)
  then obtain ds where "name \<in> set KNOWN_BACKENDS" "load_backends T fl rest = Inr ds"
    "cs = (case block of JObj b \<Rightarrow> (name, backend_block T fl name b) # ds | _ \<Rightarrow> ds)"
    by (auto simp: bind_res_Inr_iff split: if_split_asm)
  with 2 show ?case by (auto simp: backend_block_sane split: json.split)
qed simp

lemma load_backends_ok: "is_ok (load_backends T fl bs) \<longleftrightarrow> list_all (\<lambda>nb. fst nb \<in> set KNOWN_BACKENDS) bs"
  by (induction T fl bs rule: load_backends.induct) (auto simp: is_ok_iff bind_res_Inr_iff)

lemma is_ok_bind_Inr: "is_ok (bind_res m (\<lambda>x. Inr (g x))) = is_ok m"
  by (cases m) simp_all

lemma load_backends_keys:
  "load_backends T fl bs = Inr cs \<Longrightarrow> distinct (map fst bs) \<Longrightarrow> distinct (map fst cs) \<and> fst ` set cs \<subseteq> fst ` set bs"
proof (induction T fl bs arbitrary: cs rule: load_backends.induct)
  case (2 T fl name block rest)
  then obtain ds where ds: "load_backends T fl rest = Inr ds"
    "cs = (case block of JObj b \<Rightarrow> (name, backend_block T fl name b) # ds | _ \<Rightarrow> ds)"
    by (auto simp: bind_res_Inr_iff split: if_split_asm)
  moreover have "distinct (map fst ds) \<and> fst ` set ds \<subseteq> fst ` set rest"
    using 2 ds(1) by (auto split: if_split_asm)
  ultimately show ?case using "2.prems"(2) by (auto split: json.split)
qed simp

lemma rstrip_end: "\<not> py_endswith (py_rstrip (\<lambda>c. c = d) s) [d]"
proof -
  obtain t where t: "dropWhile (\<lambda>c. c = d) (rev s) = t" by simp
  have "t = [] \<or> hd t \<noteq> d" using hd_dropWhile [of "\<lambda>c. c = d" "rev s"] unfolding t by blast
  then show ?thesis by (cases t) (simp_all add: py_rstrip_def t py_endswith_def suffix_def)
qed

definition config_loads :: "toml_file \<Rightarrow> bool" where
  "config_loads f = (case f of
      Toml_missing \<Rightarrow> True
    | Toml_invalid \<Rightarrow> False
    | Toml_doc raw \<Rightarrow>
        (case dict_get raw ''soar'' (JObj []) of JObj s \<Rightarrow> True | _ \<Rightarrow> False) \<and>
        (case dict_get raw ''backends'' (JObj []) of
           JObj bs \<Rightarrow> list_all (\<lambda>nb. fst nb \<in> set KNOWN_BACKENDS) bs | _ \<Rightarrow> True))"

lemma load_config_ok: "is_ok (load_config T fl f) \<longleftrightarrow> config_loads f"
proof (cases f)
  case (Toml_doc raw)
  then show ?thesis
    by (simp add: load_config_def config_loads_def Let_def is_ok_bind_Inr load_backends_ok split: json.split)
qed (simp_all add: load_config_def config_loads_def)

lemma load_config_sane: "load_config T fl f = Inr c \<Longrightarrow> sane_config c"
  using rstrip_end [of "CHR ''/''"]
  by (auto simp: load_config_def sane_config_def Let_def bind_res_Inr_iff load_backends_sane py_endswith_def
        split: toml_file.split_asm json.split_asm)


lemma severity_meets_refl: "severity_meets s s"
  by (simp add: severity_meets_def)

lemma severity_meets_trans: "severity_meets a b \<Longrightarrow> severity_meets b c \<Longrightarrow> severity_meets a c"
  by (simp add: severity_meets_def)

subsection \<open>The registry implements the contract of a named registry\<close>

lemma map_of_register: "map_of (register n b r) n' = (if n' = n then Some b else map_of r n')"
  by (induction n b r rule: register.induct) auto

lemma names_register: "map fst (register n b r) = (if n \<in> fst ` set r then map fst r else map fst r @ [n])"
  by (induction n b r rule: register.induct) auto

interpretation soar_registry: named_registry register map_of "map fst" "\<lambda>r. distinct (map fst r)" "[]"
  by unfold_locales (auto simp: map_of_register names_register map_of_eq_None_iff split: if_split)

definition install_one :: "(string \<Rightarrow> backend_config \<Rightarrow> 'b) \<Rightarrow> soar_config \<Rightarrow> string \<Rightarrow> 'b backends \<Rightarrow> 'b backends" where
  "install_one mk cfg n r = (case map_of (sc_backends cfg) n of None \<Rightarrow> r | Some c \<Rightarrow> register n (mk n c) r)"

lemma install_one_lookup:
  "map_of (install_one mk cfg n r) n' =
     (case map_of (sc_backends cfg) n of Some c \<Rightarrow> if n' = n then Some (mk n c) else map_of r n' | None \<Rightarrow> map_of r n')"
  by (simp add: install_one_def map_of_register split: option.split)

lemma install_one_names: "n \<in> fst ` set r \<Longrightarrow> map fst (install_one mk cfg n r) = map fst r"
  by (simp add: install_one_def names_register split: option.split)

lemma install_fold_names:
  "set ns \<subseteq> fst ` set r \<Longrightarrow> map fst (fold (install_one mk cfg) ns r) = map fst r"
proof (induction ns arbitrary: r)
  case (Cons n ns)
  have 1: "map fst (install_one mk cfg n r) = map fst r" using Cons.prems by (simp add: install_one_names)
  then have "fst ` set (install_one mk cfg n r) = fst ` set r" using list.set_map [of fst] by metis
  then have "map fst (fold (install_one mk cfg) ns (install_one mk cfg n r)) = map fst (install_one mk cfg n r)"
    using Cons by simp
  with 1 show ?case by simp
qed simp

lemma install_fold_lookup:
  "map_of (fold (install_one mk cfg) ns r) n =
     (if n \<in> set ns then (case map_of (sc_backends cfg) n of Some c \<Rightarrow> Some (mk n c) | None \<Rightarrow> map_of r n) else map_of r n)"
  by (induction ns arbitrary: r) (auto simp: install_one_lookup split: option.split)

lemma initial_names: "map fst (initial_registry stub) = KNOWN_BACKENDS"
  by (simp add: initial_registry_def KNOWN_BACKENDS_def)

lemma initial_lookup: "n \<in> set KNOWN_BACKENDS \<Longrightarrow> map_of (initial_registry stub) n = Some (stub n)"
  by (auto simp: initial_registry_def KNOWN_BACKENDS_def)

lemma sane_known: "sane_config c \<Longrightarrow> find (\<lambda>n. n \<notin> set KNOWN_BACKENDS) (map fst (sc_backends c)) = None"
  by (fastforce simp: sane_config_def sane_backend_def list_all_iff find_None_iff)

text \<open>
  After the worker has installed its backends, the registry holds the six known names in
  their fixed order; a configured backend is the real one with its own block and every other
  is the stand-in.  With a configuration that loaded, installation does not fail.
\<close>

theorem soar_install_exact:
  assumes "load_config T fl f = Inr cfg"
  shows "\<exists>r. install_backends mk cfg (initial_registry stub) = Inr r \<and> map fst r = KNOWN_BACKENDS \<and>
    (\<forall>n \<in> set KNOWN_BACKENDS. map_of r n =
       Some (case map_of (sc_backends cfg) n of Some c \<Rightarrow> mk n c | None \<Rightarrow> stub n))"
proof -
  let ?r = "fold (install_one mk cfg) KNOWN_BACKENDS (initial_registry stub)"
  have "set KNOWN_BACKENDS \<subseteq> fst ` set (initial_registry stub)"
    using initial_names [of stub] by (metis list.set_map order_refl)
  then have "map fst ?r = KNOWN_BACKENDS" by (simp add: install_fold_names initial_names)
  moreover have "install_backends mk cfg (initial_registry stub) = Inr ?r"
    using sane_known [OF load_config_sane [OF assms]] by (simp add: install_backends_def install_one_def [abs_def])
  moreover have "map_of ?r n = Some (case map_of (sc_backends cfg) n of Some c \<Rightarrow> mk n c | None \<Rightarrow> stub n)"
    if "n \<in> set KNOWN_BACKENDS" for n
    using that by (simp add: install_fold_lookup initial_lookup split: option.split)
  ultimately show ?thesis by blast
qed

definition demo_toml :: toml_file where
  "demo_toml = Toml_doc [(''soar'', JObj [(''enabled'', JBool True), (''queue_max'', JInt (- 3))]),
     (''backends'', JObj [(''slack'', JObj [(''enabled'', JBool True), (''max_retries'', JStr ''lots''),
        (''webhook_url'', JStr ''https://hooks.slack.com/x'')])])]"

definition demo_texts :: py_texts where
  "demo_texts = \<lparr>t_float_int = (\<lambda>s. None), t_float_zero = (\<lambda>s. False), t_repr = (\<lambda>v. [])\<rparr>"

definition demo_soar_config :: soar_config where
  "demo_soar_config = (case load_config demo_texts (\<lambda>v. None) demo_toml of Inr c \<Rightarrow> c | Inl e \<Rightarrow> undefined)"

lemma demo_config_loads: "load_config demo_texts (\<lambda>v. None) demo_toml = Inr demo_soar_config"
proof -
  have "is_ok (load_config demo_texts (\<lambda>v. None) demo_toml)"
    unfolding load_config_ok by code_simp
  then show ?thesis by (auto simp: is_ok_iff demo_soar_config_def)
qed

theorem soar_install_exact_witness:
  "\<exists>r. install_backends (\<lambda>n c. ''real '' @ n) demo_soar_config (initial_registry (\<lambda>n. ''stub '' @ n)) = Inr r \<and>
     map fst r = KNOWN_BACKENDS"
  using soar_install_exact [OF demo_config_loads, of "\<lambda>n c. ''real '' @ n" "\<lambda>n. ''stub '' @ n"] by blast

end
