(* ===== verification/Ip_Address.thy ===== *)
theory Ip_Address
  imports Prelude
begin

section \<open>Addresses and URLs of the standard library\<close>

text \<open>
  What the webhook guard of \<open>soar/backends/generic_webhook.py\<close> uses of the Python
  library: \<open>ipaddress.ip_address\<close> and membership in a network, and the scheme and
  host name of \<open>urllib.parse.urlparse\<close>.  \<open>None\<close> is a \<open>ValueError\<close>.
\<close>

subsection \<open>IPv4\<close>

definition v4_octet :: "string \<Rightarrow> int option" where
  "v4_octet s =
     (if s = [] \<or> \<not> list_all py_isdigit s \<or> length s > 3 then None
      else if s \<noteq> ''0'' \<and> hd s = CHR ''0'' then None
      else case py_int s of None \<Rightarrow> None | Some n \<Rightarrow> if n > 255 then None else Some n)"

definition ip4_of :: "string \<Rightarrow> int option" where
  "ip4_of s =
     (case map v4_octet (py_split (CHR ''.'') s) of
        [Some a, Some b, Some c, Some d] \<Rightarrow> Some (a * 2 ^ 24 + b * 2 ^ 16 + c * 2 ^ 8 + d)
      | _ \<Rightarrow> None)"

subsection \<open>IPv6\<close>

definition hex_value :: "char \<Rightarrow> int option" where
  "hex_value c =
     (if py_isdigit c then Some (int (ord c) - 48)
      else if 97 \<le> ord c \<and> ord c \<le> 102 then Some (int (ord c) - 87)
      else if 65 \<le> ord c \<and> ord c \<le> 70 then Some (int (ord c) - 55)
      else None)"

fun hex_digits :: "int \<Rightarrow> string \<Rightarrow> int option" where
  "hex_digits acc [] = Some acc"
| "hex_digits acc (c # s) = (case hex_value c of None \<Rightarrow> None | Some d \<Rightarrow> hex_digits (acc * 16 + d) s)"

definition hextet :: "string \<Rightarrow> int option" where
  "hextet s = (if s = [] \<or> length s > 4 then None else hex_digits 0 s)"

fun hextets :: "int \<Rightarrow> string list \<Rightarrow> int option" where
  "hextets acc [] = Some acc"
| "hextets acc (p # ps) = (case hextet p of None \<Rightarrow> None | Some n \<Rightarrow> hextets (acc * 2 ^ 16 + n) ps)"

definition skip_indices :: "string list \<Rightarrow> nat list" where
  \<comment> \<open>the empty parts other than the first and the last\<close>
  "skip_indices ps = filter (\<lambda>i. 0 < i \<and> i + 1 < length ps \<and> ps ! i = []) [0..<length ps]"

definition show_hex :: "int \<Rightarrow> string" where
  \<comment> \<open>\<open>'%x'\<close> of a value below \<open>2 ^ 16\<close>\<close>
  "show_hex n =
     (let ds = [hex_char (nat (n div 4096 mod 16)), hex_char (nat (n div 256 mod 16)),
                hex_char (nat (n div 16 mod 16)), hex_char (nat (n mod 16))]
      in case dropWhile (\<lambda>c. c = CHR ''0'') ds of [] \<Rightarrow> ''0'' | t \<Rightarrow> t)"

definition expand_v4_tail :: "string list \<Rightarrow> string list option" where
  "expand_v4_tail ps =
     (if CHR ''.'' \<notin> set (last ps) then Some ps
      else case ip4_of (last ps) of
        None \<Rightarrow> None
      | Some n \<Rightarrow> Some (butlast ps @ [show_hex (n div 2 ^ 16), show_hex (n mod 2 ^ 16)]))"

definition ip6_parts :: "string list \<Rightarrow> int option" where
  "ip6_parts ps =
     (if length ps > 9 then None
      else case skip_indices ps of
        [] \<Rightarrow> if length ps \<noteq> 8 \<or> hd ps = [] \<or> last ps = [] then None else hextets 0 ps
      | [k] \<Rightarrow>
          let hi0 = k; lo0 = length ps - k - 1;
              hi = (if hd ps = [] then hi0 - 1 else hi0);
              lo = (if last ps = [] then lo0 - 1 else lo0)
          in if hd ps = [] \<and> hi \<noteq> 0 then None
             else if last ps = [] \<and> lo \<noteq> 0 then None
             else if hi + lo > 7 then None
             else Option.bind (hextets 0 (take hi ps))
                    (\<lambda>h. hextets (h * 2 ^ (16 * (8 - (hi + lo)))) (drop (length ps - lo) ps))
      | _ \<Rightarrow> None)"

definition ip6_of :: "string \<Rightarrow> int option" where
  "ip6_of s =
     (if CHR ''/'' \<in> set s then None
      else case py_partition (CHR ''%'') s of (addr, sep, scope) \<Rightarrow>
        if sep \<noteq> [] \<and> (scope = [] \<or> CHR ''%'' \<in> set scope) then None
        else if addr = [] then None
        else let ps = py_split (CHR '':'') addr
             in if length ps < 3 then None else Option.bind (expand_v4_tail ps) ip6_parts)"

datatype ip_addr = V4 int | V6 int

definition ip_address :: "string \<Rightarrow> ip_addr option" where
  "ip_address s = (case ip4_of s of Some n \<Rightarrow> Some (V4 n) | None \<Rightarrow> map_option V6 (ip6_of s))"

datatype ip_net = Net4 int nat | Net6 int nat

fun ip_in :: "ip_addr \<Rightarrow> ip_net \<Rightarrow> bool" where
  "ip_in (V4 a) (Net4 b p) = (a div 2 ^ (32 - p) = b div 2 ^ (32 - p))"
| "ip_in (V6 a) (Net6 b p) = (a div 2 ^ (128 - p) = b div 2 ^ (128 - p))"
| "ip_in a n = False"

subsection \<open>URLs\<close>

definition scheme_char :: "char \<Rightarrow> bool" where
  "scheme_char c \<longleftrightarrow> py_isalnum c \<or> c \<in> {CHR ''+'', CHR ''-'', CHR ''.''}"

definition clean_url :: "string \<Rightarrow> string" where
  "clean_url u = filter (\<lambda>c. ord c \<noteq> 9 \<and> ord c \<noteq> 10 \<and> ord c \<noteq> 13) (dropWhile (\<lambda>c. ord c \<le> 32) u)"

definition split_scheme :: "string \<Rightarrow> string \<times> string" where
  "split_scheme u =
     (case py_partition (CHR '':'') u of (s, sep, rest) \<Rightarrow>
        if sep \<noteq> [] \<and> s \<noteq> [] \<and> py_isalpha (hd s) \<and> list_all scheme_char s then (py_lower s, rest) else ([], u))"

definition bracketed :: "string \<Rightarrow> string" where
  "bracketed s = fst (py_partition (CHR '']'') (snd (snd (py_partition (CHR ''['') s))))"

definition vfuture :: "string \<Rightarrow> bool" where
  \<comment> \<open>\<open>\Av[a-fA-F0-9]+\..+\Z\<close>\<close>
  "vfuture s =
     (case s of
        [] \<Rightarrow> False
      | v # t \<Rightarrow> (let h = takeWhile (\<lambda>c. hex_value c \<noteq> None) t; r = drop (length h) t
                 in v = CHR ''v'' \<and> h \<noteq> [] \<and> r \<noteq> [] \<and> hd r = CHR ''.'' \<and> tl r \<noteq> [] \<and> CHR 0x0A \<notin> set (tl r)))"

definition bracket_ok :: "string \<Rightarrow> bool" where
  "bracket_ok h =
     (if py_startswith h ''v'' then vfuture h
      else case ip_address h of Some (V6 n) \<Rightarrow> True | _ \<Rightarrow> False)"

definition netloc_of :: "string \<Rightarrow> string option" where
  \<comment> \<open>the network location of what follows the scheme\<close>
  "netloc_of r =
     (if \<not> prefix ''//'' r then Some []
      else let n = takeWhile (\<lambda>c. c \<notin> {CHR ''/'', CHR ''?'', CHR ''#''}) (drop 2 r)
           in if (CHR ''['' \<in> set n) \<noteq> (CHR '']'' \<in> set n) then None
              else if CHR ''['' \<in> set n \<and> \<not> bracket_ok (bracketed n) then None
              else Some n)"

definition host_info :: "string \<Rightarrow> string" where
  \<comment> \<open>after the last \<open>@\<close>: inside the brackets, or up to the colon\<close>
  "host_info n =
     (let h = rev (takeWhile (\<lambda>c. c \<noteq> CHR ''@'') (rev n))
      in if CHR ''['' \<in> set h then bracketed h else fst (py_partition (CHR '':'') h))"

definition lower_host :: "string \<Rightarrow> string" where
  "lower_host h = (case py_partition (CHR ''%'') h of (a, sep, zone) \<Rightarrow> py_lower a @ sep @ zone)"

record parsed_url =
  url_scheme :: string
  url_hostname :: "string option"

definition urlparse :: "string \<Rightarrow> parsed_url option" where
  "urlparse u =
     (case split_scheme (clean_url u) of (s, r) \<Rightarrow>
        map_option (\<lambda>n. \<lparr>url_scheme = s,
            url_hostname = (let h = lower_host (host_info n) in if h = [] then None else Some h)\<rparr>) (netloc_of r))"

end
