(* ===== verification/Soar_Backends.thy ===== *)
theory Soar_Backends
  imports Soar_Config Ip_Address Evidence
begin

section \<open>Alert forwarding backends\<close>

text \<open>
  The six backends of \<open>soar/backends\<close>: validation of their configuration block, the body
  they render, and one delivery.  The HTTP client, name resolution, the template engine,
  SHA-256, base64, \<open>repr\<close> and the clock are parameters of the environment.  A delivery
  returns an outcome, or the text of an exception it does not catch (\<open>Inl\<close>).  The dash
  U+2014 of the rendered texts is written as its UTF-8 bytes.
\<close>

subsection \<open>Alerts and outcomes\<close>

record soar_alert =
  sa_id :: string
  sa_host_id :: string
  sa_detector :: string
  sa_severity :: string
  sa_tags :: "string list"
  sa_summary :: string
  sa_evidence :: "string option"
  sa_metadata :: "string str_dict"

record delivery_result =
  dl_backend :: string
  dl_alert_id :: string
  dl_status_code :: int
  dl_attempted_at :: rat
  dl_duration_ms :: int
  dl_error :: "string option"
  dl_dead_lettered :: bool

record deliver_outcome =
  do_result :: delivery_result
  do_payload_sha256 :: string

record http_msg =
  hm_method :: string
  hm_url :: string
  hm_body :: string
  hm_headers :: "string str_dict"

datatype http_reply =
  Http_status int string       \<comment> \<open>status code and text\<close>
| Http_network string          \<comment> \<open>\<open>TimeoutException\<close> or \<open>NetworkError\<close>\<close>
| Http_other string            \<comment> \<open>any other exception\<close>

datatype jinja_result = Rendered string | Template_error string | Render_other string

datatype dns_result = Dns_gaierror string | Dns_addrs "string list"

record soar_env =
  sv_texts :: py_texts
  sv_http :: "http_msg \<Rightarrow> http_reply"
  sv_started :: rat
  sv_elapsed_ms :: int
  sv_now_text :: string
  sv_sha256 :: "string \<Rightarrow> string"
  sv_b64 :: "string \<Rightarrow> string"
  sv_repr :: "string \<Rightarrow> string"
  sv_environ :: "string \<rightharpoonup> string"
  sv_dns :: "string \<Rightarrow> dns_result"
  sv_parse_template :: "string \<Rightarrow> string option"                \<comment> \<open>the parse error, if any\<close>
  sv_render_template :: "string \<Rightarrow> json \<Rightarrow> jinja_result"

definition refused :: "soar_env \<Rightarrow> string \<Rightarrow> soar_alert \<Rightarrow> string \<Rightarrow> deliver_outcome" where
  \<comment> \<open>the outcome of a bad configuration: nothing was sent\<close>
  "refused e name al err =
     \<lparr>do_result = \<lparr>dl_backend = name, dl_alert_id = sa_id al, dl_status_code = 0, dl_attempted_at = sv_started e,
        dl_duration_ms = 0, dl_error = Some err, dl_dead_lettered = True\<rparr>, do_payload_sha256 = []\<rparr>"

definition http_outcome :: "soar_env \<Rightarrow> string \<Rightarrow> soar_alert \<Rightarrow> string \<Rightarrow> http_msg \<Rightarrow> string + deliver_outcome" where
  \<comment> \<open>the request of a delivery and the classification of its answer\<close>
  "http_outcome e name al body_sha msg =
     (case sv_http e msg of
        Http_status st text \<Rightarrow>
          Inr \<lparr>do_result = \<lparr>dl_backend = name, dl_alert_id = sa_id al, dl_status_code = st,
                 dl_attempted_at = sv_started e, dl_duration_ms = sv_elapsed_ms e,
                 dl_error = (if st \<ge> 400 then Some (''http '' @ py_str_int st @ '': '' @ take 200 text) else None),
                 dl_dead_lettered = (if st \<ge> 500 then False else st \<ge> 400)\<rparr>, do_payload_sha256 = body_sha\<rparr>
      | Http_network x \<Rightarrow>
          Inr \<lparr>do_result = \<lparr>dl_backend = name, dl_alert_id = sa_id al, dl_status_code = 0,
                 dl_attempted_at = sv_started e, dl_duration_ms = sv_elapsed_ms e,
                 dl_error = Some (''network error: '' @ x), dl_dead_lettered = False\<rparr>, do_payload_sha256 = body_sha\<rparr>
      | Http_other x \<Rightarrow> Inl x)"

subsection \<open>Rendering helpers\<close>

definition dash :: string where
  "dash = [CHR 0xE2, CHR 0x80, CHR 0x94]"

definition dumps_body :: "json str_dict \<Rightarrow> string" where
  "dumps_body body = dumps_compact (sort_json (JObj body))"

definition or_text :: "string \<Rightarrow> string \<Rightarrow> string" where
  \<comment> \<open>\<open>s or d\<close>\<close>
  "or_text s d = (if s = [] then d else s)"

definition severity_of :: "soar_alert \<Rightarrow> string" where
  "severity_of al = py_lower (or_text (sa_severity al) ''info'')"

definition strip_slash :: "string \<Rightarrow> string" where
  "strip_slash s = py_rstrip (\<lambda>c. c = CHR ''/'') s"

definition view_url :: "string \<Rightarrow> soar_alert \<Rightarrow> string" where
  "view_url console al = strip_slash console @ ''/#/alerts/'' @ sa_id al"

definition backticked :: "string \<Rightarrow> string" where
  "backticked t = ''`'' @ t @ ''`''"

definition text_field :: "json str_dict \<Rightarrow> string \<Rightarrow> string option" where
  \<comment> \<open>a non-empty \<open>str\<close> entry\<close>
  "text_field extra k = (case map_of extra k of Some (JStr s) \<Rightarrow> if s = [] then None else Some s | _ \<Rightarrow> None)"

definition truthy_field :: "soar_env \<Rightarrow> json str_dict \<Rightarrow> string \<Rightarrow> string option" where
  \<comment> \<open>\<open>str(extra[k])\<close> when \<open>extra.get(k)\<close> is true\<close>
  "truthy_field e extra k =
     (case map_of extra k of None \<Rightarrow> None
      | Some v \<Rightarrow> if py_truthy (sv_texts e) v then Some (py_str (sv_texts e) v) else None)"

definition set_if :: "string \<Rightarrow> string option \<Rightarrow> json str_dict \<Rightarrow> json str_dict" where
  "set_if k v body = (case v of None \<Rightarrow> body | Some s \<Rightarrow> dict_set k (JStr s) body)"

definition text_map :: "soar_env \<Rightarrow> json option \<Rightarrow> string str_dict \<Rightarrow> string str_dict" where
  \<comment> \<open>a map given in the configuration, or the default\<close>
  "text_map e m d = (case m of Some (JObj kvs) \<Rightarrow> map (\<lambda>(k, v). (k, py_str (sv_texts e) v)) kvs | _ \<Rightarrow> d)"

definition post_json :: "string \<Rightarrow> string \<Rightarrow> string str_dict \<Rightarrow> http_msg" where
  "post_json url raw headers = \<lparr>hm_method = ''POST'', hm_url = url, hm_body = raw, hm_headers = headers\<rparr>"

definition json_header :: "string str_dict" where
  "json_header = [(''Content-Type'', ''application/json'')]"

subsection \<open>Slack\<close>

definition SEVERITY_EMOJI :: "string str_dict" where
  "SEVERITY_EMOJI = [(''critical'', '':fire:''), (''high'', '':rotating_light:''), (''medium'', '':warning:''),
     (''low'', '':information_source:''), (''info'', '':information_source:'')]"

definition SEVERITY_BUTTON_STYLE :: "string str_dict" where
  "SEVERITY_BUTTON_STYLE = [(''critical'', ''danger''), (''high'', ''danger''), (''medium'', ''primary''),
     (''low'', ''default''), (''info'', ''default'')]"

definition slack_validate :: "json str_dict \<Rightarrow> string option" where
  "slack_validate extra =
     (case text_field extra ''webhook_url'' of
        None \<Rightarrow> Some ''slack: missing `webhook_url` in config''
      | Some u \<Rightarrow> if \<not> py_startswith u ''https://hooks.slack.com/''
                 then Some ''slack: webhook_url must start with https://hooks.slack.com/'' else None)"

definition mrkdwn :: "string \<Rightarrow> json" where
  "mrkdwn t = JObj [(''type'', JStr ''mrkdwn''), (''text'', JStr t)]"

definition slack_render :: "soar_alert \<Rightarrow> string \<Rightarrow> json str_dict" where
  "slack_render al console =
     (let sev = severity_of al; emoji = dict_get SEVERITY_EMOJI sev '':information_source:'';
          style = dict_get SEVERITY_BUTTON_STYLE sev ''default'';
          tags = or_text (py_join '', '' (map backticked (sa_tags al))) dash;
          host = or_text (sa_host_id al) dash; nl = [CHR 0x0A]
      in [(''blocks'', JArr [
            JObj [(''type'', JStr ''header''),
              (''text'', JObj [(''type'', JStr ''plain_text''), (''text'', JStr (emoji @ '' ZaqorinCore alert''))])],
            JObj [(''type'', JStr ''section''),
              (''fields'', JArr [mrkdwn (''*Detector:*'' @ nl @ backticked (sa_detector al)),
                 mrkdwn (''*Severity:*'' @ nl @ backticked sev), mrkdwn (''*Host:*'' @ nl @ backticked host),
                 mrkdwn (''*Tags:*'' @ nl @ tags)])],
            JObj [(''type'', JStr ''section''), (''text'', mrkdwn (or_text (sa_summary al) ''(no summary)''))],
            JObj [(''type'', JStr ''actions''),
              (''elements'', JArr [JObj [(''type'', JStr ''button''),
                 (''text'', JObj [(''type'', JStr ''plain_text''), (''text'', JStr ''View'')]),
                 (''url'', JStr (view_url console al)), (''style'', JStr style)]])]])])"

definition slack_deliver :: "soar_env \<Rightarrow> string \<Rightarrow> backend_config \<Rightarrow> soar_alert \<Rightarrow> string + deliver_outcome" where
  "slack_deliver e base cfg al =
     (case slack_validate (bc_extra cfg) of
        Some err \<Rightarrow> Inr (refused e ''slack'' al err)
      | None \<Rightarrow>
          let body = set_if ''channel'' (truthy_field e (bc_extra cfg) ''channel'')
                       (set_if ''username'' (truthy_field e (bc_extra cfg) ''username'') (slack_render al base));
              raw = dumps_body body; url = the (text_field (bc_extra cfg) ''webhook_url'')
          in http_outcome e ''slack'' al (sv_sha256 e raw) (post_json url raw json_header))"

subsection \<open>Discord\<close>

definition SEVERITY_COLOR :: "int str_dict" where
  "SEVERITY_COLOR = [(''critical'', 0xE74C3C), (''high'', 0xE67E22), (''medium'', 0xF1C40F), (''low'', 0x2ECC71),
     (''info'', 0x3498DB)]"

definition discord_validate :: "json str_dict \<Rightarrow> string option" where
  "discord_validate extra =
     (case text_field extra ''webhook_url'' of
        None \<Rightarrow> Some ''discord: missing `webhook_url` in config''
      | Some u \<Rightarrow> if \<not> py_startswith u ''https://discord.com/api/webhooks/''
                 then Some ''discord: webhook_url must start with https://discord.com/api/webhooks/'' else None)"

definition embed_field :: "string \<Rightarrow> string \<Rightarrow> bool \<Rightarrow> json" where
  "embed_field n v inl = JObj [(''name'', JStr n), (''value'', JStr v), (''inline'', JBool inl)]"

definition discord_render :: "soar_env \<Rightarrow> soar_alert \<Rightarrow> string \<Rightarrow> json str_dict" where
  "discord_render e al console =
     (let sev = severity_of al; host = or_text (sa_host_id al) dash; tags = or_text (py_join '', '' (sa_tags al)) dash
      in [(''username'', JStr ''ZaqorinCore''),
          (''embeds'', JArr [JObj [(''title'', JStr (''ZaqorinCore alert: '' @ sa_detector al)),
             (''description'', JStr (or_text (sa_summary al) ''(no summary)'')),
             (''color'', JInt (dict_get SEVERITY_COLOR sev 0x95A5A6)), (''url'', JStr (view_url console al)),
             (''timestamp'', JStr (sv_now_text e)),
             (''fields'', JArr [embed_field ''Severity'' sev True, embed_field ''Host'' host True,
                embed_field ''Detector'' (sa_detector al) True, embed_field ''Tags'' tags False])]])])"

definition discord_deliver :: "soar_env \<Rightarrow> string \<Rightarrow> backend_config \<Rightarrow> soar_alert \<Rightarrow> string + deliver_outcome" where
  "discord_deliver e base cfg al =
     (case discord_validate (bc_extra cfg) of
        Some err \<Rightarrow> Inr (refused e ''discord'' al err)
      | None \<Rightarrow>
          let body = set_if ''username'' (truthy_field e (bc_extra cfg) ''username'') (discord_render e al base);
              raw = dumps_body body; url = the (text_field (bc_extra cfg) ''webhook_url'')
          in http_outcome e ''discord'' al (sv_sha256 e raw) (post_json url raw json_header))"

subsection \<open>PagerDuty\<close>

definition DEFAULT_SEVERITY_MAP :: "string str_dict" where
  "DEFAULT_SEVERITY_MAP = [(''critical'', ''critical''), (''high'', ''error''), (''medium'', ''warning''),
     (''low'', ''info''), (''info'', ''info'')]"

definition pagerduty_validate :: "json str_dict \<Rightarrow> string option" where
  "pagerduty_validate extra =
     (case text_field extra ''routing_key'' of
        None \<Rightarrow> Some ''pagerduty: missing `routing_key` in config'' | Some k \<Rightarrow> None)"

definition pagerduty_render :: "soar_env \<Rightarrow> json str_dict \<Rightarrow> soar_alert \<Rightarrow> string \<Rightarrow> json str_dict" where
  "pagerduty_render e extra al console =
     (let sev_map = text_map e (map_of extra ''severity_map'') DEFAULT_SEVERITY_MAP;
          url = (if console = [] then [] else view_url console al)
      in [(''routing_key'', JStr (the (text_field extra ''routing_key''))), (''event_action'', JStr ''trigger''),
          (''dedup_key'', JStr (''zaqorin:'' @ sa_id al)),
          (''payload'', JObj [(''summary'', JStr (or_text (sa_summary al) (''ZaqorinCore alert '' @ sa_id al))),
             (''source'', JStr ''zaqorincore''), (''severity'', JStr (dict_get sev_map (severity_of al) ''info'')),
             (''component'', JStr (sa_detector al)), (''group'', JStr ''zaqorincore''),
             (''class'', JStr (sa_detector al)),
             (''custom_details'', JObj [(''alert_id'', JStr (sa_id al)), (''host_id'', JStr (sa_host_id al)),
                (''tags'', JArr (map JStr (sa_tags al))), (''console_url'', JStr url)])])])"

definition pagerduty_deliver :: "soar_env \<Rightarrow> string \<Rightarrow> backend_config \<Rightarrow> soar_alert \<Rightarrow> string + deliver_outcome" where
  "pagerduty_deliver e base cfg al =
     (case pagerduty_validate (bc_extra cfg) of
        Some err \<Rightarrow> Inr (refused e ''pagerduty'' al err)
      | None \<Rightarrow>
          let raw = dumps_body (pagerduty_render e (bc_extra cfg) al base)
          in http_outcome e ''pagerduty'' al (sv_sha256 e raw)
               (post_json ''https://events.pagerduty.com/v2/enqueue'' raw json_header))"

subsection \<open>TheHive\<close>

definition SEVERITY_TO_HIVE :: "int str_dict" where
  "SEVERITY_TO_HIVE = [(''info'', 1), (''low'', 1), (''medium'', 2), (''high'', 3), (''critical'', 4)]"

definition is_http_url :: "string \<Rightarrow> bool" where
  "is_http_url u \<longleftrightarrow> py_startswith u ''http://'' \<or> py_startswith u ''https://''"

definition thehive_validate :: "soar_env \<Rightarrow> json str_dict \<Rightarrow> string option" where
  "thehive_validate e extra =
     (case text_field extra ''api_url'' of
        None \<Rightarrow> Some ''thehive: missing `api_url` in config''
      | Some u \<Rightarrow>
          if \<not> is_http_url u then Some (''thehive: api_url must be http(s), got '' @ sv_repr e u)
          else if text_field extra ''api_key'' = None then Some ''thehive: missing `api_key` in config'' else None)"

definition bullet :: "string \<Rightarrow> string \<Rightarrow> string" where
  "bullet k v = ''- **'' @ k @ ''**: '' @ v"

definition thehive_description :: "soar_alert \<Rightarrow> string" where
  "thehive_description al =
     py_join [CHR 0x0A]
       ([or_text (sa_summary al) ''(no summary)'', [], bullet ''alert_id'' (backticked (sa_id al)),
         bullet ''host_id'' (backticked (sa_host_id al)), bullet ''detector'' (backticked (sa_detector al)),
         bullet ''severity'' (backticked (severity_of al))] @
        (if sa_tags al = [] then [] else [bullet ''tags'' (py_join '', '' (map backticked (sa_tags al)))]) @
        (case sa_evidence al of Some ev \<Rightarrow> if ev = [] then [] else [[], ''### Evidence'', ''```'', ev, ''```''] | None \<Rightarrow> []))"

definition thehive_render :: "soar_env \<Rightarrow> json str_dict \<Rightarrow> soar_alert \<Rightarrow> json str_dict" where
  "thehive_render e extra al =
     set_if ''caseTemplate'' (truthy_field e extra ''case_template'')
       [(''type'', JStr (py_str (sv_texts e) (dict_get extra ''alert_type'' (JStr ''external'')))),
        (''source'', JStr (py_str (sv_texts e) (dict_get extra ''source'' (JStr ''zaqorincore'')))),
        (''sourceRef'', JStr (''zaqorin:'' @ sa_id al)),
        (''title'', JStr (sa_detector al @ '': '' @ or_text (sa_summary al) (sa_id al))),
        (''description'', JStr (thehive_description al)),
        (''severity'', JInt (dict_get SEVERITY_TO_HIVE (severity_of al) 1)), (''date'', JStr (sv_now_text e)),
        (''tags'', JArr (map JStr (''zaqorincore'' # sa_tags al)))]"

definition thehive_deliver :: "soar_env \<Rightarrow> string \<Rightarrow> backend_config \<Rightarrow> soar_alert \<Rightarrow> string + deliver_outcome" where
  "thehive_deliver e base cfg al =
     (case thehive_validate e (bc_extra cfg) of
        Some err \<Rightarrow> Inr (refused e ''thehive'' al err)
      | None \<Rightarrow>
          let extra = bc_extra cfg; raw = dumps_body (thehive_render e extra al);
              url = strip_slash (the (text_field extra ''api_url'')) @ ''/api/v1/alert'';
              headers = json_header @ [(''Authorization'', ''Bearer '' @ the (text_field extra ''api_key''))]
          in http_outcome e ''thehive'' al (sv_sha256 e raw) (post_json url raw headers))"

subsection \<open>Jira\<close>

definition DEFAULT_PRIORITY :: "string str_dict" where
  "DEFAULT_PRIORITY = [(''critical'', ''Highest''), (''high'', ''High''), (''medium'', ''Medium''), (''low'', ''Low''),
     (''info'', ''Low'')]"

definition adf_text :: "string \<Rightarrow> json" where
  "adf_text t = JObj [(''type'', JStr ''paragraph''), (''content'', JArr [JObj [(''type'', JStr ''text''), (''text'', JStr t)]])]"

definition adf_code :: "string \<Rightarrow> json" where
  "adf_code t = JObj [(''type'', JStr ''codeBlock''), (''attrs'', JObj [(''language'', JStr ''plaintext'')]),
     (''content'', JArr [JObj [(''type'', JStr ''text''), (''text'', JStr t)]])]"

definition jira_validate :: "soar_env \<Rightarrow> json str_dict \<Rightarrow> string option" where
  "jira_validate e extra =
     (case text_field extra ''api_url'' of
        None \<Rightarrow> Some ''jira: missing `api_url` in config''
      | Some u \<Rightarrow>
          if \<not> py_startswith u ''https://'' then Some ''jira: api_url must be https''
          else if truthy_field e extra ''project_key'' = None then Some ''jira: missing `project_key` in config''
          else if truthy_field e extra ''email'' = None then Some ''jira: missing `email` in config''
          else if truthy_field e extra ''api_token'' = None then Some ''jira: missing `api_token` in config''
          else None)"

definition jira_content :: "soar_alert \<Rightarrow> string \<Rightarrow> json list" where
  "jira_content al console =
     [adf_text (or_text (sa_summary al) ''(no summary)'')] @
     (if console = [] then [] else [adf_text (''console: '' @ view_url console al)]) @
     [adf_text (''host: '' @ sa_host_id al), adf_text (''detector: '' @ sa_detector al)] @
     (if sa_tags al = [] then [] else [adf_text (''tags: '' @ py_join '', '' (sa_tags al))]) @
     (case sa_evidence al of Some ev \<Rightarrow> if ev = [] then [] else [adf_code ev] | None \<Rightarrow> [])"

definition jira_render :: "soar_env \<Rightarrow> json str_dict \<Rightarrow> soar_alert \<Rightarrow> string \<Rightarrow> json str_dict" where
  "jira_render e extra al console =
     (let priority = map_of (text_map e (map_of extra ''priority_map'') DEFAULT_PRIORITY) (severity_of al);
          base = [(''project'', JObj [(''key'', JStr (the (truthy_field e extra ''project_key'')))]),
                  (''issuetype'', JObj [(''name'', JStr (py_str (sv_texts e) (dict_get extra ''issue_type'' (JStr ''Task''))))]),
                  (''summary'', JStr (sa_detector al @ '': '' @ or_text (sa_summary al) (sa_id al))),
                  (''description'', JObj [(''type'', JStr ''doc''), (''version'', JInt 1),
                     (''content'', JArr (jira_content al console))]),
                  (''labels'', JArr (map JStr (''zaqorincore'' # sa_tags al)))]
      in [(''fields'', JObj (case priority of
            Some p \<Rightarrow> if p = [] then base else base @ [(''priority'', JObj [(''name'', JStr p)])] | None \<Rightarrow> base))])"

definition jira_auth_header :: "soar_env \<Rightarrow> json str_dict \<Rightarrow> string" where
  "jira_auth_header e extra =
     ''Basic '' @ sv_b64 e (the (truthy_field e extra ''email'') @ '':'' @ the (truthy_field e extra ''api_token''))"

definition jira_deliver :: "soar_env \<Rightarrow> string \<Rightarrow> backend_config \<Rightarrow> soar_alert \<Rightarrow> string + deliver_outcome" where
  "jira_deliver e base cfg al =
     (case jira_validate e (bc_extra cfg) of
        Some err \<Rightarrow> Inr (refused e ''jira'' al err)
      | None \<Rightarrow>
          let extra = bc_extra cfg; raw = dumps_body (jira_render e extra al base);
              url = strip_slash (the (text_field extra ''api_url'')) @ ''/rest/api/3/issue'';
              headers = json_header @ [(''Accept'', ''application/json''), (''Authorization'', jira_auth_header e extra)]
          in http_outcome e ''jira'' al (sv_sha256 e raw) (post_json url raw headers))"

subsection \<open>The generic webhook and its address guard\<close>

definition ip4 :: "int \<Rightarrow> int \<Rightarrow> int \<Rightarrow> int \<Rightarrow> int" where
  "ip4 a b c d = a * 2 ^ 24 + b * 2 ^ 16 + c * 2 ^ 8 + d"

definition SSRF_BLOCKED_NETWORKS :: "ip_net list" where
  "SSRF_BLOCKED_NETWORKS =
     [Net4 (ip4 127 0 0 0) 8, Net4 (ip4 10 0 0 0) 8, Net4 (ip4 172 16 0 0) 12, Net4 (ip4 192 168 0 0) 16,
      Net4 (ip4 169 254 0 0) 16, Net4 (ip4 0 0 0 0) 8, Net4 (ip4 100 64 0 0) 10, Net4 (ip4 224 0 0 0) 4,
      Net4 (ip4 240 0 0 0) 4, Net6 1 128, Net6 (0xfc00 * 2 ^ 112) 7, Net6 (0xfe80 * 2 ^ 112) 10]"

definition ssrf_allowlist :: "(string \<rightharpoonup> string) \<Rightarrow> string set" where
  "ssrf_allowlist env =
     set (map (py_lower \<circ> py_strip)
       (filter (\<lambda>h. py_strip h \<noteq> [])
          (py_split (CHR '','') (case env ''ZAQORIN_SOAR_WEBHOOK_URL_ALLOWLIST'' of None \<Rightarrow> [] | Some s \<Rightarrow> s))))"

definition is_blocked_address :: "string \<Rightarrow> bool" where
  "is_blocked_address addr =
     (case ip_address addr of None \<Rightarrow> True | Some ip \<Rightarrow> list_ex (ip_in ip) SSRF_BLOCKED_NETWORKS)"

fun first_blocked :: "string list \<Rightarrow> string list \<Rightarrow> string option" where
  \<comment> \<open>the loop over the resolved addresses; an empty text is an empty \<open>sockaddr\<close>\<close>
  "first_blocked seen [] = None"
| "first_blocked seen (a # as) =
     (if a = [] \<or> a \<in> set seen then first_blocked seen as
      else if is_blocked_address a then Some a
      else first_blocked (a # seen) as)"

definition validate_webhook_url :: "soar_env \<Rightarrow> string \<Rightarrow> string + string option" where
  \<comment> \<open>\<open>Inl\<close> is the \<open>ValueError\<close> of \<open>urlparse\<close>; \<open>None\<close> means safe\<close>
  "validate_webhook_url e url =
     (if url = [] then Inr (Some ''generic_webhook: missing or non-string `url` in config'')
      else case urlparse url of
        None \<Rightarrow> Inl ''ValueError''
      | Some p \<Rightarrow>
          if url_scheme p \<notin> {''http'', ''https''}
          then Inr (Some (''generic_webhook: url must be http(s), got '' @ sv_repr e url))
          else case url_hostname p of
            None \<Rightarrow> Inr (Some (''generic_webhook: url has no hostname: '' @ sv_repr e url))
          | Some h \<Rightarrow>
              let host = py_lower h
              in if host \<in> ssrf_allowlist (sv_environ e) then Inr None
                 else if ip_address host \<noteq> None then
                   (if is_blocked_address host
                    then Inr (Some (''generic_webhook: url host '' @ sv_repr e host @ '' is in a blocked range (loopback / RFC1918 / link-local / '' @
                         ''multicast / reserved). Set ZAQORIN_SOAR_WEBHOOK_URL_ALLOWLIST to opt in.'')) else Inr None)
                 else case sv_dns e host of
                   Dns_gaierror x \<Rightarrow> Inr (Some (''generic_webhook: cannot resolve hostname '' @ sv_repr e host @ '': '' @ x))
                 | Dns_addrs as \<Rightarrow>
                     (case first_blocked [] as of
                        Some a \<Rightarrow> Inr (Some (''generic_webhook: url host '' @ sv_repr e host @
                                    '' resolves to blocked address '' @ sv_repr e a @
                                    ''. Set ZAQORIN_SOAR_WEBHOOK_URL_ALLOWLIST to opt in.''))
                      | None \<Rightarrow> Inr None))"

definition webhook_template :: "soar_env \<Rightarrow> backend_config \<Rightarrow> string + string" where
  \<comment> \<open>the template source, or the error kept by the constructor\<close>
  "webhook_template e cfg =
     (let src = py_str (sv_texts e) (dict_get (bc_extra cfg) ''template'' (JStr []))
      in if py_strip src \<noteq> [] then
           (case sv_parse_template e src of
              Some err \<Rightarrow> Inl (''generic_webhook: template parse error: '' @ err) | None \<Rightarrow> Inr src)
         else if bc_enabled cfg then Inl ''generic_webhook: `template` is empty''
         else Inl ''generic_webhook: `template` is missing or invalid'')"

definition webhook_validate :: "soar_env \<Rightarrow> backend_config \<Rightarrow> string + string option" where
  "webhook_validate e cfg =
     (case text_field (bc_extra cfg) ''url'' of
        None \<Rightarrow> Inr (Some ''generic_webhook: missing `url` in config'')
      | Some u \<Rightarrow>
          if \<not> is_http_url u then Inr (Some (''generic_webhook: url must be http(s), got '' @ sv_repr e u))
          else bind_res (validate_webhook_url e u)
            (\<lambda>err. case err of
               Some x \<Rightarrow> Inr (Some x)
             | None \<Rightarrow> (case webhook_template e cfg of Inl x \<Rightarrow> Inr (Some x) | Inr src \<Rightarrow> Inr None)))"

definition webhook_context :: "soar_env \<Rightarrow> soar_alert \<Rightarrow> string \<Rightarrow> json" where
  "webhook_context e al console =
     JObj [(''alert'', JObj [(''id'', JStr (sa_id al)), (''host_id'', JStr (sa_host_id al)),
              (''detector'', JStr (sa_detector al)), (''severity'', JStr (sa_severity al)),
              (''summary'', JStr (sa_summary al)), (''tags'', JArr (map JStr (sa_tags al))),
              (''evidence'', JStr (case sa_evidence al of None \<Rightarrow> [] | Some x \<Rightarrow> x)),
              (''metadata'', JObj (map (\<lambda>(k, v). (k, JStr v)) (sa_metadata al)))]),
           (''console_url'', JStr (strip_slash console)), (''ts'', JStr (sv_now_text e))]"

definition webhook_headers :: "soar_env \<Rightarrow> json str_dict \<Rightarrow> string str_dict" where
  "webhook_headers e extra =
     (let T = sv_texts e;
          h0 = [(''Content-Type'', py_str T (dict_get extra ''content_type'' (JStr ''application/json'')))];
          h1 = (case truthy_field e extra ''auth_header'' of None \<Rightarrow> h0 | Some a \<Rightarrow> dict_set ''Authorization'' a h0)
      in case map_of extra ''headers'' of
           Some (JObj kvs) \<Rightarrow> fold (\<lambda>(k, v). dict_set k (py_str T v)) kvs h1
         | _ \<Rightarrow> h1)"

definition webhook_deliver :: "soar_env \<Rightarrow> string \<Rightarrow> backend_config \<Rightarrow> soar_alert \<Rightarrow> string + deliver_outcome" where
  "webhook_deliver e base cfg al =
     bind_res (webhook_validate e cfg)
       (\<lambda>err. case err of
          Some x \<Rightarrow> Inr (refused e ''generic_webhook'' al x)
        | None \<Rightarrow>
            (case webhook_template e cfg of
               Inl x \<Rightarrow> Inl x
             | Inr src \<Rightarrow>
                 (case sv_render_template e src (webhook_context e al base) of
                    Template_error x \<Rightarrow> Inr (refused e ''generic_webhook'' al (''template render error: '' @ x))
                  | Render_other x \<Rightarrow> Inl x
                  | Rendered body \<Rightarrow>
                      http_outcome e ''generic_webhook'' al (sv_sha256 e body)
                        \<lparr>hm_method = py_upper (py_str (sv_texts e) (dict_get (bc_extra cfg) ''method'' (JStr ''POST''))),
                         hm_url = the (text_field (bc_extra cfg) ''url''), hm_body = body,
                         hm_headers = webhook_headers e (bc_extra cfg)\<rparr>)))"

subsection \<open>All backends\<close>

definition stub_deliver :: "soar_env \<Rightarrow> string \<Rightarrow> soar_alert \<Rightarrow> string + deliver_outcome" where
  \<comment> \<open>the \<open>NotImplemented\<close> stand-in\<close>
  "stub_deliver e name al =
     Inr (refused e name al ''backend not implemented in this release (Slice 1 scaffolding; see ADR-008)'')"

definition deliver_by :: "soar_env \<Rightarrow> string \<Rightarrow> string \<Rightarrow> backend_config \<Rightarrow> soar_alert \<Rightarrow> string + deliver_outcome" where
  "deliver_by e base name cfg al =
     (if name = ''generic_webhook'' then webhook_deliver e base cfg al
      else if name = ''slack'' then slack_deliver e base cfg al
      else if name = ''discord'' then discord_deliver e base cfg al
      else if name = ''pagerduty'' then pagerduty_deliver e base cfg al
      else if name = ''thehive'' then thehive_deliver e base cfg al
      else if name = ''jira'' then jira_deliver e base cfg al
      else stub_deliver e name al)"

section \<open>What the backends guarantee\<close>

subsection \<open>The contract of a backend\<close>

text \<open>
  The worker decides on retries from the status code and the dead-letter flag alone.  The
  contract says what they mean: nothing was sent because the configuration is bad, or a
  request was sent, its hash is reported, and the flag marks exactly the client errors.
\<close>

definition classified :: "soar_env \<Rightarrow> string \<Rightarrow> soar_alert \<Rightarrow> deliver_outcome \<Rightarrow> bool" where
  "classified e name al out \<longleftrightarrow>
     (let r = do_result out
      in dl_backend r = name \<and> dl_alert_id r = sa_id al \<and>
         ((do_payload_sha256 out = [] \<and> dl_status_code r = 0 \<and> dl_dead_lettered r \<and> dl_error r \<noteq> None) \<or>
          (\<exists>msg. do_payload_sha256 out = sv_sha256 e (hm_body msg) \<and>
             (case sv_http e msg of
                Http_status st t \<Rightarrow> dl_status_code r = st \<and> (dl_dead_lettered r \<longleftrightarrow> 400 \<le> st \<and> st < 500) \<and>
                                    (dl_error r = None \<longleftrightarrow> st < 400)
              | Http_network x \<Rightarrow> dl_status_code r = 0 \<and> \<not> dl_dead_lettered r \<and> dl_error r \<noteq> None
              | Http_other x \<Rightarrow> False))))"

lemma classified_refused: "classified e name al (refused e name al x)"
  by (simp add: classified_def refused_def)

lemma classified_http:
  assumes "http_outcome e name al (sv_sha256 e (hm_body msg)) msg = Inr out"
  shows "classified e name al out"
proof (cases "sv_http e msg")
  case (Http_status st t)
  with assms show ?thesis by (auto simp: classified_def http_outcome_def Let_def intro!: exI [of _ msg])
next
  case (Http_network x)
  with assms show ?thesis by (auto simp: classified_def http_outcome_def Let_def intro!: exI [of _ msg])
next
  case (Http_other x)
  with assms show ?thesis by (simp add: http_outcome_def)
qed

lemma classified_sent:
  "http_outcome e name al (sv_sha256 e b) \<lparr>hm_method = m, hm_url = u, hm_body = b, hm_headers = h\<rparr> = Inr out \<Longrightarrow>
   classified e name al out"
  by (rule classified_http [where msg = "\<lparr>hm_method = m, hm_url = u, hm_body = b, hm_headers = h\<rparr>"]) simp

lemma classified_facts:
  assumes "classified e name al out"
  shows "dl_backend (do_result out) = name"
    and "dl_dead_lettered (do_result out) \<Longrightarrow> dl_status_code (do_result out) = 0 \<or>
           400 \<le> dl_status_code (do_result out) \<and> dl_status_code (do_result out) < 500"
    and "200 \<le> dl_status_code (do_result out) \<Longrightarrow> dl_status_code (do_result out) < 400 \<Longrightarrow>
           \<not> dl_dead_lettered (do_result out) \<and> dl_error (do_result out) = None"
proof -
  let ?r = "do_result out"
  have n: "dl_backend ?r = name" using assms by (auto simp: classified_def Let_def)
  have "(dl_dead_lettered ?r \<longrightarrow> dl_status_code ?r = 0 \<or> 400 \<le> dl_status_code ?r \<and> dl_status_code ?r < 500) \<and>
    (200 \<le> dl_status_code ?r \<and> dl_status_code ?r < 400 \<longrightarrow> \<not> dl_dead_lettered ?r \<and> dl_error ?r = None)"
  proof (cases "do_payload_sha256 out = [] \<and> dl_status_code ?r = 0 \<and> dl_dead_lettered ?r \<and> dl_error ?r \<noteq> None")
    case False
    then obtain msg where m: "case sv_http e msg of
        Http_status st t \<Rightarrow> dl_status_code ?r = st \<and> (dl_dead_lettered ?r \<longleftrightarrow> 400 \<le> st \<and> st < 500) \<and>
                            (dl_error ?r = None \<longleftrightarrow> st < 400)
      | Http_network x \<Rightarrow> dl_status_code ?r = 0 \<and> \<not> dl_dead_lettered ?r \<and> dl_error ?r \<noteq> None
      | Http_other x \<Rightarrow> False"
      using assms unfolding classified_def Let_def by blast
    show ?thesis by (cases "sv_http e msg") (use m in auto)
  qed auto
  with n show "dl_backend ?r = name"
    "dl_dead_lettered ?r \<Longrightarrow> dl_status_code ?r = 0 \<or> 400 \<le> dl_status_code ?r \<and> dl_status_code ?r < 500"
    "200 \<le> dl_status_code ?r \<Longrightarrow> dl_status_code ?r < 400 \<Longrightarrow> \<not> dl_dead_lettered ?r \<and> dl_error ?r = None"
    by blast+
qed

locale delivery_backend =
  fixes deliver :: "soar_env \<Rightarrow> string \<Rightarrow> backend_config \<Rightarrow> soar_alert \<Rightarrow> string + deliver_outcome" and name :: string
  assumes contract: "deliver e base cfg al = Inr out \<Longrightarrow> classified e name al out"
begin

lemma names_itself: "deliver e base cfg al = Inr out \<Longrightarrow> dl_backend (do_result out) = name"
  by (rule classified_facts(1) [OF contract])

lemma dead_letter_status:
  assumes "deliver e base cfg al = Inr out" "dl_dead_lettered (do_result out)"
  shows "dl_status_code (do_result out) = 0 \<or> 400 \<le> dl_status_code (do_result out) \<and> dl_status_code (do_result out) < 500"
  by (rule classified_facts(2) [OF contract, OF assms])

lemma success_is_clean:
  assumes "deliver e base cfg al = Inr out"
    and "200 \<le> dl_status_code (do_result out)" "dl_status_code (do_result out) < 400"
  shows "\<not> dl_dead_lettered (do_result out) \<and> dl_error (do_result out) = None"
  by (rule classified_facts(3) [OF contract, OF assms])

end

interpretation slack: delivery_backend slack_deliver "''slack''"
  by unfold_locales (auto simp: slack_deliver_def Let_def post_json_def classified_refused
        intro: classified_sent split: option.split_asm)

interpretation discord: delivery_backend discord_deliver "''discord''"
  by unfold_locales (auto simp: discord_deliver_def Let_def post_json_def classified_refused
        intro: classified_sent split: option.split_asm)

interpretation pagerduty: delivery_backend pagerduty_deliver "''pagerduty''"
  by unfold_locales (auto simp: pagerduty_deliver_def Let_def post_json_def classified_refused
        intro: classified_sent split: option.split_asm)

interpretation thehive: delivery_backend thehive_deliver "''thehive''"
  by unfold_locales (auto simp: thehive_deliver_def Let_def post_json_def classified_refused
        intro: classified_sent split: option.split_asm)

interpretation jira: delivery_backend jira_deliver "''jira''"
  by unfold_locales (auto simp: jira_deliver_def Let_def post_json_def classified_refused
        intro: classified_sent split: option.split_asm)

interpretation webhook: delivery_backend webhook_deliver "''generic_webhook''"
  by unfold_locales (auto simp: webhook_deliver_def bind_res_Inr_iff classified_refused
        intro: classified_sent split: option.split_asm sum.split_asm jinja_result.split_asm)

text \<open>
  C28: Every backend keeps the contract the retry logic of the worker builds on: an outcome
  names the backend and the alert, and either nothing was sent and it is marked as a dead
  letter with status 0, or a request was sent whose body has the reported hash, with the
  status of the answer, marked as a dead letter exactly for client errors (400 to 499), with
  an error text exactly from 400 on; a network failure is status 0 and not marked.
\<close>

theorem delivery_outcomes_classified:
  assumes "deliver_by e base name cfg al = Inr out"
  shows "classified e name al out"
proof -
  consider "name = ''generic_webhook''" "webhook_deliver e base cfg al = Inr out"
    | "name = ''slack''" "slack_deliver e base cfg al = Inr out"
    | "name = ''discord''" "discord_deliver e base cfg al = Inr out"
    | "name = ''pagerduty''" "pagerduty_deliver e base cfg al = Inr out"
    | "name = ''thehive''" "thehive_deliver e base cfg al = Inr out"
    | "name = ''jira''" "jira_deliver e base cfg al = Inr out"
    | "stub_deliver e name al = Inr out"
    using assms unfolding deliver_by_def by meson
  then show ?thesis
    by cases (simp_all add: webhook.contract slack.contract discord.contract pagerduty.contract
                thehive.contract jira.contract, auto simp: stub_deliver_def classified_refused)
qed

definition demo_soar_env :: "(http_msg \<Rightarrow> http_reply) \<Rightarrow> soar_env" where
  "demo_soar_env http = \<lparr>sv_texts = demo_texts, sv_http = http, sv_started = 0, sv_elapsed_ms = 5,
     sv_now_text = ''2026-01-01T00:00:00+00:00'', sv_sha256 = (\<lambda>s. s), sv_b64 = (\<lambda>s. s), sv_repr = (\<lambda>s. s),
     sv_environ = Map.empty, sv_dns = (\<lambda>h. Dns_addrs [''203.0.113.9'']), sv_parse_template = (\<lambda>s. None),
     sv_render_template = (\<lambda>s v. Rendered s)\<rparr>"

definition demo_alert :: soar_alert where
  "demo_alert = \<lparr>sa_id = ''a1'', sa_host_id = ''h1'', sa_detector = ''ssh_bruteforce'', sa_severity = ''high'',
     sa_tags = [], sa_summary = ''brute force'', sa_evidence = None, sa_metadata = []\<rparr>"

definition demo_backend :: "string \<Rightarrow> json str_dict \<Rightarrow> backend_config" where
  "demo_backend n extra = \<lparr>bc_name = n, bc_enabled = True, bc_cooldown_sec = 60, bc_severity_min = ''low'',
     bc_tags_filter = [], bc_max_retries = 2, bc_timeout_sec = 10, bc_extra = extra\<rparr>"

theorem delivery_outcomes_classified_witness:
  "\<exists>out. deliver_by (demo_soar_env (\<lambda>m. Http_status 404 ''gone'')) [] ''slack''
       (demo_backend ''slack'' [(''webhook_url'', JStr ''https://hooks.slack.com/x'')]) demo_alert = Inr out \<and>
     classified (demo_soar_env (\<lambda>m. Http_status 404 ''gone'')) ''slack'' demo_alert out \<and> dl_dead_lettered (do_result out)"
proof -
  let ?e = "demo_soar_env (\<lambda>m. Http_status 404 ''gone'')"
  let ?c = "demo_backend ''slack'' [(''webhook_url'', JStr ''https://hooks.slack.com/x'')]"
  have "text_field (bc_extra ?c) ''webhook_url'' = Some ''https://hooks.slack.com/x''"
    by (simp add: demo_backend_def text_field_def)
  moreover have "slack_validate (bc_extra ?c) = None"
    by (simp add: slack_validate_def demo_backend_def text_field_def py_startswith_def)
  ultimately obtain out where d: "deliver_by ?e [] ''slack'' ?c demo_alert = Inr out" "dl_dead_lettered (do_result out)"
    by (simp add: deliver_by_def slack_deliver_def Let_def http_outcome_def demo_soar_env_def)
  then show ?thesis using delivery_outcomes_classified [OF d(1)] by blast
qed

subsection \<open>The address guard\<close>

definition public_v4 :: "int \<Rightarrow> bool" where
  \<comment> \<open>in terms of the first two octets\<close>
  "public_v4 n \<longleftrightarrow>
     (let a = n div 2 ^ 24; b = n div 2 ^ 16 mod 256
      in a \<notin> {0, 10, 127} \<and> a < 224 \<and> \<not> (a = 172 \<and> 16 \<le> b \<and> b < 32) \<and> \<not> (a = 192 \<and> b = 168) \<and>
         \<not> (a = 169 \<and> b = 254) \<and> \<not> (a = 100 \<and> 64 \<le> b \<and> b < 128))"

fun public_ip :: "ip_addr \<Rightarrow> bool" where
  "public_ip (V4 n) = public_v4 n"
| "public_ip (V6 n) = (n \<noteq> 1 \<and> n div 2 ^ 121 \<noteq> 0xfc div 2 \<and> n div 2 ^ 118 \<noteq> 0xfe80 div 64)"

lemma digit_eq:
  fixes a c :: int
  assumes "0 \<le> c" "c < k" "0 \<le> C" "C < k"
  shows "a * k + c = A * k + C \<longleftrightarrow> a = A \<and> c = C"
proof
  assume e: "a * k + c = A * k + C"
  have "(a * k + c) div k = a" "(A * k + C) div k = A" using assms by simp_all
  with e have "a = A" by simp
  with e show "a = A \<and> c = C" by simp
qed simp

lemma blocked_v4_iff:
  assumes "0 \<le> n" "n < 2 ^ 32"
  shows "list_ex (ip_in (V4 n)) SSRF_BLOCKED_NETWORKS \<longleftrightarrow> \<not> public_v4 n"
proof -
  define a where "a = n div 2 ^ 24"
  define b where "b = n div 2 ^ 16 mod 256"
  have m: "n div 2 ^ 16 = a * 256 + b"
    using div_mult_mod_eq [of "n div 2 ^ 16" 256] by (simp add: a_def b_def zdiv_zmult2_eq [symmetric])
  have bounds: "0 \<le> b" "b < 256" "0 \<le> a" "a < 256"
    using assms by (simp_all add: a_def b_def)
  have wide: "n div 2 ^ 20 = (a * 256 + b) div 16" "n div 2 ^ 22 = (a * 256 + b) div 64" "n div 2 ^ 28 = a div 16"
  proof -
    have "n div 2 ^ 20 = n div 2 ^ 16 div 16" "n div 2 ^ 22 = n div 2 ^ 16 div 64" "n div 2 ^ 28 = n div 2 ^ 24 div 16"
      by (simp_all add: zdiv_zmult2_eq [symmetric])
    then show "n div 2 ^ 20 = (a * 256 + b) div 16" "n div 2 ^ 22 = (a * 256 + b) div 64" "n div 2 ^ 28 = a div 16"
      unfolding m a_def [symmetric] .
  qed
  have d16: "(a * 256 + b) div 16 = a * 16 + b div 16" "0 \<le> b div 16" "b div 16 < 16" using bounds by simp_all
  have c16: "b div 16 = 1 \<longleftrightarrow> 16 \<le> b \<and> b < 32" by presburger
  have p12: "(a * 256 + b) div 16 = 2753 \<longleftrightarrow> a = 172 \<and> 16 \<le> b \<and> b < 32"
    unfolding d16(1) c16 [symmetric] using digit_eq [OF d16(2,3), of 1 a 172] by simp
  have d64: "(a * 256 + b) div 64 = a * 4 + b div 64" "0 \<le> b div 64" "b div 64 < 4" using bounds by simp_all
  have c64: "b div 64 = 1 \<longleftrightarrow> 64 \<le> b \<and> b < 128" by presburger
  have p10: "(a * 256 + b) div 64 = 401 \<longleftrightarrow> a = 100 \<and> 64 \<le> b \<and> b < 128"
    unfolding d64(1) c64 [symmetric] using digit_eq [OF d64(2,3), of 1 a 100] by simp
  have p16: "a * 256 + b = 49320 \<longleftrightarrow> a = 192 \<and> b = 168" "a * 256 + b = 43518 \<longleftrightarrow> a = 169 \<and> b = 254"
    using digit_eq [OF bounds(1,2), of 168 a 192] digit_eq [OF bounds(1,2), of 254 a 169] by simp_all
  have p4: "a div 16 = 14 \<or> a div 16 = 15 \<longleftrightarrow> \<not> a < 224" using bounds by presburger
  have nets: "list_ex (ip_in (V4 n)) SSRF_BLOCKED_NETWORKS \<longleftrightarrow>
      a = 127 \<or> a = 10 \<or> (a * 256 + b) div 16 = 2753 \<or> a * 256 + b = 49320 \<or> a * 256 + b = 43518 \<or> a = 0 \<or>
      (a * 256 + b) div 64 = 401 \<or> a div 16 = 14 \<or> a div 16 = 15"
    using m wide a_def by (simp add: SSRF_BLOCKED_NETWORKS_def ip4_def)
  show ?thesis
    unfolding public_v4_def Let_def a_def [symmetric] b_def [symmetric] nets p12 p10 p16
    using p4 by blast
qed

lemma v4_octet_range:
  assumes "v4_octet s = Some n"
  shows "0 \<le> n \<and> n < 256"
proof -
  have d: "s \<noteq> []" "\<And>c. c \<in> set s \<Longrightarrow> py_isdigit c" and n: "py_int s = Some n" "n \<le> 255"
    using assms by (auto simp: v4_octet_def list_all_iff split: if_split_asm option.split_asm)
  have "0 \<le> n" using n(1) py_int_digits [OF d] by auto
  with n(2) show ?thesis by simp
qed

lemma ip4_of_range:
  assumes "ip4_of s = Some n"
  shows "0 \<le> n \<and> n < 2 ^ 32"
proof -
  obtain a b c d where m: "map v4_octet (py_split (CHR ''.'') s) = [Some a, Some b, Some c, Some d]"
    and n: "n = a * 2 ^ 24 + b * 2 ^ 16 + c * 2 ^ 8 + d"
    using assms by (auto simp: ip4_of_def split: list.split_asm option.split_asm)
  have "0 \<le> x \<and> x < 256" if "Some x \<in> {Some a, Some b, Some c, Some d}" for x
  proof -
    have "Some x \<in> set (map v4_octet (py_split (CHR ''.'') s))" using that m by simp
    then show ?thesis using v4_octet_range by (metis (no_types, lifting) imageE list.set_map)
  qed
  then have "0 \<le> a" "a < 256" "0 \<le> b" "b < 256" "0 \<le> c" "c < 256" "0 \<le> d" "d < 256" by simp_all
  then show ?thesis unfolding n by simp
qed

lemma blocked_v6_iff: "list_ex (ip_in (V6 n)) SSRF_BLOCKED_NETWORKS \<longleftrightarrow> \<not> public_ip (V6 n)"
  by (simp add: SSRF_BLOCKED_NETWORKS_def)

lemma is_blocked_iff: "is_blocked_address a \<longleftrightarrow> (case ip_address a of Some ip \<Rightarrow> \<not> public_ip ip | None \<Rightarrow> True)"
proof (cases "ip4_of a")
  case (Some n)
  then show ?thesis using blocked_v4_iff [of n] ip4_of_range [of a n] by (simp add: is_blocked_address_def ip_address_def)
next
  case None
  then show ?thesis using blocked_v6_iff by (simp add: is_blocked_address_def ip_address_def split: option.split)
qed

lemma first_blocked_None:
  "(\<forall>a \<in> set seen. \<not> is_blocked_address a) \<Longrightarrow>
   first_blocked seen as = None \<longleftrightarrow> (\<forall>a \<in> set as. a = [] \<or> \<not> is_blocked_address a)"
  by (induction seen as rule: first_blocked.induct) auto

definition public_address :: "string \<Rightarrow> bool" where
  "public_address a \<longleftrightarrow> (case ip_address a of Some ip \<Rightarrow> public_ip ip | None \<Rightarrow> False)"

definition guard_passes :: "soar_env \<Rightarrow> string \<Rightarrow> bool" where
  "guard_passes e host \<longleftrightarrow>
     host \<in> ssrf_allowlist (sv_environ e) \<or>
     (if ip_address host \<noteq> None then public_address host
      else (case sv_dns e host of
              Dns_gaierror x \<Rightarrow> False | Dns_addrs as \<Rightarrow> list_all (\<lambda>a. a = [] \<or> public_address a) as))"

lemma is_blocked_public: "is_blocked_address a \<longleftrightarrow> \<not> public_address a"
  by (simp add: is_blocked_iff public_address_def split: option.split)

text \<open>
  C13: The webhook guard, exactly.  A URL is accepted if and only if it parses, its scheme is
  \<open>http\<close> or \<open>https\<close> and its host, lower-cased, is on the operator's list, or is an
  address literal outside the private, loopback, link-local, shared, multicast and reserved
  ranges (stated by octets for IPv4), or is a name all of whose resolved addresses are
  outside them; a name that does not resolve is refused.
\<close>

theorem webhook_guard_exact:
  "validate_webhook_url e url = Inr None \<longleftrightarrow>
     (case urlparse url of
        None \<Rightarrow> False
      | Some p \<Rightarrow> url_scheme p \<in> {''http'', ''https''} \<and>
          (case url_hostname p of None \<Rightarrow> False | Some h \<Rightarrow> guard_passes e (py_lower h)))"
proof (cases "urlparse url")
  case None
  then show ?thesis by (simp add: validate_webhook_url_def)
next
  case (Some p)
  have "urlparse [] = Some \<lparr>url_scheme = [], url_hostname = None\<rparr>" by code_simp
  then have url: "url \<noteq> [] \<or> url_scheme p = []" using Some by auto
  show ?thesis
  proof (cases "url_hostname p")
    case None
    then show ?thesis using Some by (simp add: validate_webhook_url_def)
  next
    case h: (Some h)
    have "(case first_blocked [] as of Some a \<Rightarrow> Inr (Some (f a)) | None \<Rightarrow> Inr None) = (Inr None :: string + string option) \<longleftrightarrow>
        list_all (\<lambda>a. a = [] \<or> public_address a) as" for as f
      using first_blocked_None [of "[]" as] by (auto simp: is_blocked_public list_all_iff split: option.split)
    then show ?thesis
      using Some h url
      by (auto simp: validate_webhook_url_def guard_passes_def Let_def is_blocked_public split: dns_result.split)
  qed
qed

text \<open>
  The guard has a hole: an IPv4-mapped IPv6 literal of the loopback address is accepted
  without being on the operator's list, since an IPv6 address is in no IPv4 network.
\<close>

theorem guard_accepts_mapped_loopback:
  "validate_webhook_url e ''http://[::ffff:127.0.0.1]:8000/hook'' = Inr None \<and>
   is_blocked_address ''127.0.0.1'' \<and> ip_address ''::ffff:127.0.0.1'' = Some (V6 (0xffff * 2 ^ 32 + ip4 127 0 0 1))"
proof -
  have v6: "ip4_of ''::ffff:127.0.0.1'' = None" "expand_v4_tail [[], [], ''ffff'', ''127.0.0.1''] =
      Some [[], [], ''ffff'', ''7f00'', ''1'']" "py_split (CHR '':'') ''::ffff:127.0.0.1'' = [[], [], ''ffff'', ''127.0.0.1'']"
    "skip_indices [[], [], ''ffff'', ''7f00'', ''1''] = [1]"
    "hextet ''ffff'' = Some 0xffff" "hextet ''7f00'' = Some 0x7f00" "hextet ''1'' = Some 1"
    "py_partition (CHR ''%'') ''::ffff:127.0.0.1'' = (''::ffff:127.0.0.1'', [], [])"
    by code_simp+
  have ip1: "ip_address ''::ffff:127.0.0.1'' = Some (V6 (0xffff * 2 ^ 32 + ip4 127 0 0 1))"
    by (simp add: ip_address_def ip6_of_def v6 ip6_parts_def ip4_def)
  have "ip4_of ''127.0.0.1'' = Some (ip4 127 0 0 1)" by code_simp
  then have ip3: "is_blocked_address ''127.0.0.1''"
    by (simp add: is_blocked_iff ip_address_def public_v4_def ip4_def)
  have ip2: "\<not> is_blocked_address ''::ffff:127.0.0.1''"
    by (simp add: is_blocked_iff ip1 ip4_def)
  note ip = ip1 ip2 ip3
  let ?n = "''[::ffff:127.0.0.1]:8000''"
  have u: "split_scheme (clean_url ''http://[::ffff:127.0.0.1]:8000/hook'') = (''http'', ''//[::ffff:127.0.0.1]:8000/hook'')"
    "bracketed ?n = ''::ffff:127.0.0.1''" "lower_host (host_info ?n) = ''::ffff:127.0.0.1''"
    "py_lower ''::ffff:127.0.0.1'' = ''::ffff:127.0.0.1''"
    by code_simp+
  have "netloc_of ''//[::ffff:127.0.0.1]:8000/hook'' = Some ?n"
    using u(2) ip1 by (simp add: netloc_of_def bracket_ok_def py_startswith_def)
  then have p: "urlparse ''http://[::ffff:127.0.0.1]:8000/hook'' =
      Some \<lparr>url_scheme = ''http'', url_hostname = Some ''::ffff:127.0.0.1''\<rparr>"
    using u(1,3) by (simp add: urlparse_def)
  have "validate_webhook_url e ''http://[::ffff:127.0.0.1]:8000/hook'' = Inr None"
    using p u(4) ip(1,2) by (simp add: validate_webhook_url_def Let_def)
  with ip show ?thesis by blast
qed

end
