(* ===== verification/Soar_Worker.thy ===== *)
theory Soar_Worker
  imports Soar_Backends "HOL-Library.Multiset"
begin

section \<open>The forwarding worker\<close>

text \<open>
  \<open>soar/worker.py\<close> without its read paths (theory Soar_Api).  The state
  holds the bounded queue, the deliveries taken off it whose task has not run yet, the
  in-memory trackers, the rows of \<open>soar_deliveries\<close> and the dead-letter directory
  (file name and text).  What a run of one delivery meets from outside is its environment, a
  function of the attempt: the backend environment, clock readings, whether the stop event
  is set, whether the database takes the row.  Date formatting and \<open>json.load\<close> are
  parameters.  The tasks of one drain run concurrently; a run is one step of the model, in
  any order.
\<close>

subsection \<open>State\<close>

datatype soar_backend = Real string backend_config | Stub string

fun backend_name :: "soar_backend \<Rightarrow> string" where
  "backend_name (Real n c) = n"
| "backend_name (Stub n) = n"

record pending_delivery =
  pd_alert :: soar_alert
  pd_backend_name :: string
  pd_backend :: soar_backend
  pd_config :: backend_config
  pd_attempt :: int
  pd_next_eligible_at :: rat

record soar_delivery =
  sd_alert_id :: "string option"
  sd_backend :: string
  sd_status_code :: int
  sd_attempted_at :: rat
  sd_duration_ms :: int
  sd_attempt :: int
  sd_error :: "string option"
  sd_dead_lettered :: bool
  sd_payload_sha256 :: "string option"

type_synonym cooldown_id = "string \<times> string \<times> string"

record soar_state =
  sw_queue :: "pending_delivery list"
  sw_running :: "pending_delivery list"
  sw_cooldowns :: "(cooldown_id \<times> rat) list"
  sw_enqueued :: "string list"
  sw_finished :: "(string \<times> string) list"
  sw_deliveries :: "soar_delivery list"
  sw_files :: "string str_dict"

record stored_alert =
  ar_id :: string
  ar_host_id :: "string option"
  ar_detector :: string
  ar_severity :: string
  ar_summary :: string
  ar_detail :: json
  ar_created_at :: rat

record dl_env =
  k_strftime :: "rat \<Rightarrow> string"
  k_isoformat :: "rat \<Rightarrow> string"
  k_sha256 :: "string \<Rightarrow> string"
  k_dir_ok :: bool                         \<comment> \<open>the directory can be created\<close>
  k_write_ok :: "string \<Rightarrow> bool"           \<comment> \<open>the file can be written\<close>

record worker_env = dl_env +
  k_soar :: "int \<Rightarrow> soar_env"
  k_base_url :: string
  k_is_uuid :: "string \<Rightarrow> bool"
  k_now :: "int \<Rightarrow> rat"                    \<comment> \<open>monotonic clock before an attempt\<close>
  k_after :: "int \<Rightarrow> rat"                  \<comment> \<open>and after it\<close>
  k_stop_set :: "int \<Rightarrow> bool"
  k_stop_during :: "int \<Rightarrow> bool"           \<comment> \<open>the stop event fires during the back-off\<close>
  k_persist_ok :: "int \<Rightarrow> bool"

definition BACKOFF_SCHEDULE :: "int list" where
  "BACKOFF_SCHEDULE = [1, 5, 25, 125, 625]"

subsection \<open>Dead letters\<close>

definition is_dead_letter_candidate :: "delivery_result \<Rightarrow> int \<Rightarrow> backend_config \<Rightarrow> bool" where
  "is_dead_letter_candidate r attempt cfg \<longleftrightarrow>
     (dl_dead_lettered r \<and> 400 \<le> dl_status_code r \<and> dl_status_code r < 500) \<or>
     (attempt > bc_max_retries cfg \<and> dl_status_code r \<ge> 500) \<or>
     (attempt > bc_max_retries cfg \<and> dl_status_code r = 0)"

definition opt_json :: "string option \<Rightarrow> json" where
  "opt_json s = (case s of None \<Rightarrow> JNull | Some t \<Rightarrow> JStr t)"

definition dead_letter_name :: "'a dl_env_scheme \<Rightarrow> soar_alert \<Rightarrow> delivery_result \<Rightarrow> string" where
  "dead_letter_name k al r =
     k_strftime k (dl_attempted_at r) @ ''-'' @
     or_text (take 8 (filter (\<lambda>c. c \<noteq> CHR ''-'') (sa_id al))) ''alert'' @ ''.json''"

definition dead_letter_body :: "'a dl_env_scheme \<Rightarrow> pending_delivery \<Rightarrow> deliver_outcome \<Rightarrow> int \<Rightarrow> json str_dict" where
  "dead_letter_body k item out attempt =
     (let al = pd_alert item; r = do_result out
      in [(''ts'', JStr (k_isoformat k (dl_attempted_at r))), (''backend'', JStr (pd_backend_name item)),
          (''alert'', JObj [(''id'', JStr (sa_id al)), (''host_id'', JStr (sa_host_id al)),
             (''detector'', JStr (sa_detector al)), (''severity'', JStr (sa_severity al)),
             (''tags'', JArr (map JStr (sa_tags al))), (''summary'', JStr (sa_summary al)),
             (''evidence'', opt_json (sa_evidence al)),
             (''metadata'', JObj (map (\<lambda>(a, b). (a, JStr b)) (sa_metadata al)))]),
          (''status_code'', JInt (dl_status_code r)), (''error'', opt_json (dl_error r)),
          (''attempt'', JInt attempt), (''payload_sha256'', JStr (do_payload_sha256 out))])"

definition sealed_body :: "'a dl_env_scheme \<Rightarrow> json str_dict \<Rightarrow> json str_dict" where
  "sealed_body k body = dict_set ''file_sha256'' (JStr (k_sha256 k (dumps_sorted_indent (JObj body)))) body"

definition maybe_dead_letter ::
  "'a dl_env_scheme \<Rightarrow> pending_delivery \<Rightarrow> deliver_outcome \<Rightarrow> int \<Rightarrow> soar_state \<Rightarrow> soar_state" where
  "maybe_dead_letter k item out attempt s =
     (if \<not> is_dead_letter_candidate (do_result out) attempt (pd_config item) then s
      else if \<not> k_dir_ok k then s
      else let name = dead_letter_name k (pd_alert item) (do_result out)
           in if \<not> k_write_ok k name then s
              else s\<lparr>sw_files := dict_set name
                       (dumps_sorted_indent (JObj (sealed_body k (dead_letter_body k item out attempt)))) (sw_files s)\<rparr>)"

definition queue_full_outcome :: "rat \<Rightarrow> pending_delivery \<Rightarrow> deliver_outcome" where
  "queue_full_outcome now item =
     \<lparr>do_result = \<lparr>dl_backend = pd_backend_name item, dl_alert_id = sa_id (pd_alert item), dl_status_code = 0,
        dl_attempted_at = now, dl_duration_ms = 0, dl_error = Some ''queue full'', dl_dead_lettered = True\<rparr>,
      do_payload_sha256 = []\<rparr>"

definition dead_letter_queue_full :: "'a dl_env_scheme \<Rightarrow> rat \<Rightarrow> pending_delivery \<Rightarrow> soar_state \<Rightarrow> soar_state" where
  "dead_letter_queue_full k now item s =
     maybe_dead_letter k item (queue_full_outcome now item) (pd_attempt item) s"

subsection \<open>Polling\<close>

definition detail_list :: "json \<Rightarrow> string \<Rightarrow> json" where
  "detail_list d key = (case d of JObj kvs \<Rightarrow> dict_get kvs key JNull | _ \<Rightarrow> JNull)"

definition alert_of_row :: "py_texts \<Rightarrow> stored_alert \<Rightarrow> soar_alert" where
  "alert_of_row T row =
     \<lparr>sa_id = ar_id row, sa_host_id = (case ar_host_id row of None \<Rightarrow> [] | Some h \<Rightarrow> h),
      sa_detector = ar_detector row, sa_severity = ar_severity row,
      sa_tags = (case detail_list (ar_detail row) ''tags'' of JArr ts \<Rightarrow> map (py_str T) ts | _ \<Rightarrow> []),
      sa_summary = ar_summary row,
      sa_evidence = (case detail_list (ar_detail row) ''evidence'' of JStr x \<Rightarrow> Some x | _ \<Rightarrow> None),
      sa_metadata = (case detail_list (ar_detail row) ''metadata'' of
                       JObj m \<Rightarrow> map (\<lambda>(a, b). (a, py_str T b)) m | _ \<Rightarrow> [])\<rparr>"

definition cd_key :: "string \<Rightarrow> soar_alert \<Rightarrow> cooldown_id" where
  "cd_key name al = (name, sa_host_id al, sa_detector al)"

definition accepts :: "soar_state \<Rightarrow> rat \<Rightarrow> soar_alert \<Rightarrow> string \<Rightarrow> backend_config \<Rightarrow> bool" where
  \<comment> \<open>the filter chain: enabled, severity, tags, cooldown\<close>
  "accepts s now al name cfg \<longleftrightarrow>
     bc_enabled cfg \<and> severity_meets (sa_severity al) (bc_severity_min cfg) \<and>
     (bc_tags_filter cfg = [] \<or> set (bc_tags_filter cfg) \<inter> set (sa_tags al) \<noteq> {}) \<and>
     \<not> now - dict_get (sw_cooldowns s) (cd_key name al) 0 < of_int (bc_cooldown_sec cfg)"

definition put_or_drop :: "'a dl_env_scheme \<Rightarrow> int \<Rightarrow> rat \<Rightarrow> pending_delivery \<Rightarrow> soar_state \<Rightarrow> soar_state" where
  \<comment> \<open>\<open>put_nowait\<close>, dropping the oldest item when the queue is full\<close>
  "put_or_drop k queue_max now item s =
     (if int (length (sw_queue s)) < queue_max then s\<lparr>sw_queue := sw_queue s @ [item]\<rparr>
      else let s1 = (case sw_queue s of
                       [] \<Rightarrow> s
                     | dropped # rest \<Rightarrow> dead_letter_queue_full k now dropped (s\<lparr>sw_queue := rest\<rparr>))
           in if int (length (sw_queue s1)) < queue_max then s1\<lparr>sw_queue := sw_queue s1 @ [item]\<rparr>
              else dead_letter_queue_full k now item s1)"

definition enqueue_backend ::
  "'a dl_env_scheme \<Rightarrow> soar_config \<Rightarrow> rat \<Rightarrow> (string \<Rightarrow> rat) \<Rightarrow> soar_alert \<Rightarrow> string \<times> soar_backend \<Rightarrow> soar_state \<Rightarrow> soar_state" where
  \<comment> \<open>the body of the loop over the registered backends\<close>
  "enqueue_backend k cfg utc clk al nb s =
     (case map_of (sc_backends cfg) (fst nb) of
        None \<Rightarrow> s
      | Some bc \<Rightarrow>
          if \<not> accepts s (clk (fst nb)) al (fst nb) bc then s
          else put_or_drop k (sc_queue_max cfg) utc
                 \<lparr>pd_alert = al, pd_backend_name = fst nb, pd_backend = snd nb, pd_config = bc, pd_attempt = 1,
                  pd_next_eligible_at = clk (fst nb)\<rparr>
                 (s\<lparr>sw_enqueued := List.insert (sa_id al) (sw_enqueued s)\<rparr>))"

definition enqueue_row ::
  "'a dl_env_scheme \<Rightarrow> py_texts \<Rightarrow> soar_config \<Rightarrow> soar_backend backends \<Rightarrow> rat \<Rightarrow> (string \<Rightarrow> rat) \<Rightarrow> stored_alert \<Rightarrow>
   soar_state \<Rightarrow> soar_state" where
  "enqueue_row k T cfg reg utc clk row s =
     (if ar_id row \<in> set (sw_enqueued s) then s
      else fold (enqueue_backend k cfg utc clk (alert_of_row T row)) (get_backends reg) s)"

definition poll_once ::
  "'a dl_env_scheme \<Rightarrow> py_texts \<Rightarrow> soar_config \<Rightarrow> soar_backend backends \<Rightarrow> rat \<Rightarrow> (string \<Rightarrow> rat) \<Rightarrow>
   stored_alert list \<Rightarrow> soar_state \<Rightarrow> soar_state" where
  "poll_once k T cfg reg utc clk table s =
     fold (enqueue_row k T cfg reg utc clk)
       (take 200 (rev (sort_key ar_created_at (filter (\<lambda>r. ar_created_at r \<ge> utc - 60) table)))) s"

subsection \<open>Delivering\<close>

definition drain_queue_once :: "soar_state \<Rightarrow> soar_state" where
  \<comment> \<open>up to 16 items become tasks (the stop event not being set)\<close>
  "drain_queue_once s =
     s\<lparr>sw_running := sw_running s @ take 16 (sw_queue s), sw_queue := drop 16 (sw_queue s)\<rparr>"

definition worker_tick ::
  "'a dl_env_scheme \<Rightarrow> py_texts \<Rightarrow> soar_config \<Rightarrow> soar_backend backends \<Rightarrow> rat \<Rightarrow> (string \<Rightarrow> rat) \<Rightarrow>
   stored_alert list option \<Rightarrow> soar_state \<Rightarrow> soar_state" where
  \<comment> \<open>one turn of the loop of \<open>_run\<close>; \<open>None\<close>: the query failed, which is logged\<close>
  "worker_tick k T cfg reg utc clk table s =
     drain_queue_once
       (case table of
          None \<Rightarrow> s
        | Some rows \<Rightarrow> if sc_enabled cfg then poll_once k T cfg reg utc clk rows s else s)"

definition mark_cooldown :: "rat \<Rightarrow> pending_delivery \<Rightarrow> soar_state \<Rightarrow> soar_state" where
  "mark_cooldown now item s =
     s\<lparr>sw_cooldowns := dict_set (cd_key (pd_backend_name item) (pd_alert item)) now (sw_cooldowns s)\<rparr>"

definition await_deliver :: "worker_env \<Rightarrow> int \<Rightarrow> pending_delivery \<Rightarrow> deliver_outcome" where
  \<comment> \<open>an exception becomes an outcome; the stand-in returns no awaitable\<close>
  "await_deliver w attempt item =
     (let e = k_soar w attempt;
          res = (case pd_backend item of
                   Real n c \<Rightarrow> deliver_by e (k_base_url w) n c (pd_alert item)
                 | Stub n \<Rightarrow> Inl ''TypeError: object DeliverOutcome cannot be used in await expression'')
      in case res of
           Inr out \<Rightarrow> out
         | Inl x \<Rightarrow> refused e (pd_backend_name item) (pd_alert item) (''backend exception: '' @ x))"

definition delivery_row :: "worker_env \<Rightarrow> int \<Rightarrow> pending_delivery \<Rightarrow> deliver_outcome \<Rightarrow> soar_delivery" where
  "delivery_row w attempt item out =
     (let r = do_result out
      in \<lparr>sd_alert_id = (if k_is_uuid w (sa_id (pd_alert item)) then Some (sa_id (pd_alert item)) else None),
          sd_backend = pd_backend_name item, sd_status_code = dl_status_code r,
          sd_attempted_at = dl_attempted_at r, sd_duration_ms = dl_duration_ms r, sd_attempt = attempt,
          sd_error = dl_error r, sd_dead_lettered = dl_dead_lettered r,
          sd_payload_sha256 = (if do_payload_sha256 out = [] then None else Some (do_payload_sha256 out))\<rparr>)"

definition persist_attempt :: "worker_env \<Rightarrow> int \<Rightarrow> pending_delivery \<Rightarrow> deliver_outcome \<Rightarrow> soar_state \<Rightarrow> soar_state option" where
  "persist_attempt w attempt item out s =
     (if \<not> k_persist_ok w attempt then None
      else Some (s\<lparr>sw_deliveries := sw_deliveries s @ [delivery_row w attempt item out]\<rparr>))"

definition backoff :: "int \<Rightarrow> int" where
  "backoff attempt = BACKOFF_SCHEDULE ! nat (min (attempt - 1) (int (length BACKOFF_SCHEDULE) - 1))"

datatype run_end = Run_done | Run_stopped | Run_crashed

definition succeeded :: "delivery_result \<Rightarrow> bool" where
  "succeeded r \<longleftrightarrow> 200 \<le> dl_status_code r \<and> dl_status_code r < 400"

function run_loop ::
  "worker_env \<Rightarrow> pending_delivery \<Rightarrow> int \<Rightarrow> rat \<Rightarrow> soar_state \<Rightarrow> run_end \<times> soar_state" where
  "run_loop w item attempt next_at s =
     (if attempt > bc_max_retries (pd_config item) + 1 then (Run_done, s)
      else if attempt > 1 \<and> k_stop_set w attempt then (Run_stopped, s)
      else if k_now w attempt < next_at \<and> k_stop_during w attempt then (Run_stopped, s)
      else
        let out = await_deliver w attempt item; r = do_result out
        in (case persist_attempt w attempt item out s of
              None \<Rightarrow> (Run_crashed, s)
            | Some s1 \<Rightarrow>
                if dl_dead_lettered r then (Run_done, maybe_dead_letter w item out attempt s1)
                else if succeeded r then (Run_done, mark_cooldown (k_after w attempt) item s1)
                else if attempt > bc_max_retries (pd_config item) then (Run_done, maybe_dead_letter w item out attempt s1)
                else run_loop w item (attempt + 1) (k_after w attempt + of_int (backoff attempt)) s1))"
  by pat_completeness auto
termination
  by (relation "measure (\<lambda>(w, item, attempt, next_at, s). nat (bc_max_retries (pd_config item) + 2 - attempt))") auto

declare run_loop.simps [simp del]

definition run_one :: "worker_env \<Rightarrow> pending_delivery \<Rightarrow> soar_state \<Rightarrow> run_end \<times> soar_state" where
  "run_one w item s =
     (case run_loop w item (pd_attempt item) (pd_next_eligible_at item) s of
        (Run_done, s1) \<Rightarrow> (Run_done, s1\<lparr>sw_finished := List.insert (sa_id (pd_alert item), pd_backend_name item) (sw_finished s1)\<rparr>)
      | (x, s1) \<Rightarrow> (x, s1))"

section \<open>What the worker guarantees\<close>

subsection \<open>Retries\<close>

definition result_at :: "worker_env \<Rightarrow> pending_delivery \<Rightarrow> int \<Rightarrow> delivery_result" where
  "result_at w item k = do_result (await_deliver w k item)"

definition transient :: "delivery_result \<Rightarrow> bool" where
  "transient r \<longleftrightarrow> \<not> dl_dead_lettered r \<and> \<not> succeeded r"

definition final_effect :: "worker_env \<Rightarrow> pending_delivery \<Rightarrow> int \<Rightarrow> soar_state \<Rightarrow> soar_state" where
  "final_effect w item n s =
     (if dl_dead_lettered (result_at w item n) \<or> \<not> succeeded (result_at w item n)
      then maybe_dead_letter w item (await_deliver w n item) n s
      else mark_cooldown (k_after w n) item s)"

definition with_rows :: "worker_env \<Rightarrow> pending_delivery \<Rightarrow> int \<Rightarrow> int \<Rightarrow> soar_state \<Rightarrow> soar_state" where
  "with_rows w item a n s =
     s\<lparr>sw_deliveries := sw_deliveries s @ map (\<lambda>k. delivery_row w k item (await_deliver w k item)) [a..n]\<rparr>"

lemma with_rows_empty: "with_rows w item a (a - 1) s = s"
  by (simp add: with_rows_def)

lemma with_rows_step:
  "a \<le> n \<Longrightarrow> with_rows w item (a + 1) n
     (s\<lparr>sw_deliveries := sw_deliveries s @ [delivery_row w a item (await_deliver w a item)]\<rparr>) = with_rows w item a n s"
  by (simp add: with_rows_def upto_rec1 [of a n])

definition run_spec :: "worker_env \<Rightarrow> pending_delivery \<Rightarrow> int \<Rightarrow> soar_state \<Rightarrow> run_end \<times> soar_state \<Rightarrow> int \<Rightarrow> bool" where
  \<comment> \<open>a run from attempt \<open>a\<close> on recorded the attempts \<open>a\<close> to \<open>n\<close>\<close>
  "run_spec w item a s res n \<longleftrightarrow>
     a - 1 \<le> n \<and> n \<le> bc_max_retries (pd_config item) + 1 \<and>
     (\<forall>k. a \<le> k \<and> k < n \<longrightarrow> transient (result_at w item k)) \<and>
     (if fst res = Run_done
      then a \<le> n \<and> (transient (result_at w item n) \<longrightarrow> n = bc_max_retries (pd_config item) + 1) \<and>
           snd res = final_effect w item n (with_rows w item a n s)
      else snd res = with_rows w item a n s \<and> (a \<le> n \<longrightarrow> transient (result_at w item n)))"

definition undisturbed :: "worker_env \<Rightarrow> bool" where
  "undisturbed w \<longleftrightarrow> (\<forall>k. \<not> k_stop_set w k \<and> \<not> k_stop_during w k \<and> k_persist_ok w k)"

lemma run_loop_spec:
  assumes "a \<le> bc_max_retries (pd_config item) + 1"
  shows "(\<exists>n. run_spec w item a s (run_loop w item a t s) n) \<and>
    (undisturbed w \<longrightarrow> fst (run_loop w item a t s) = Run_done)"
  using assms
proof (induction w item a t s rule: run_loop.induct)
  case (1 w item a t s)
  let ?max = "bc_max_retries (pd_config item)"
  let ?r = "result_at w item a"
  let ?s1 = "s\<lparr>sw_deliveries := sw_deliveries s @ [delivery_row w a item (await_deliver w a item)]\<rparr>"
  have one: "with_rows w item a a s = ?s1" by (simp add: with_rows_def)
  consider (stop) "(a > 1 \<and> k_stop_set w a) \<or> (k_now w a < t \<and> k_stop_during w a)"
    | (crash) "\<not> ((a > 1 \<and> k_stop_set w a) \<or> (k_now w a < t \<and> k_stop_during w a))" "\<not> k_persist_ok w a"
    | (go) "\<not> ((a > 1 \<and> k_stop_set w a) \<or> (k_now w a < t \<and> k_stop_during w a))" "k_persist_ok w a"
    by blast
  then show ?case
  proof cases
    case stop
    then have "run_loop w item a t s = (Run_stopped, s)" using "1.prems" by (auto simp: run_loop.simps [of w item a t s])
    moreover have "\<not> undisturbed w" using stop by (auto simp: undisturbed_def)
    ultimately show ?thesis
      using "1.prems" by (auto simp: run_spec_def with_rows_empty intro!: exI [of _ "a - 1"])
  next
    case crash
    then have "run_loop w item a t s = (Run_crashed, s)"
      using "1.prems" by (auto simp: run_loop.simps [of w item a t s] persist_attempt_def Let_def)
    moreover have "\<not> undisturbed w" using crash by (auto simp: undisturbed_def)
    ultimately show ?thesis
      using "1.prems" by (auto simp: run_spec_def with_rows_empty intro!: exI [of _ "a - 1"])
  next
    case go
    show ?thesis
    proof (cases "transient ?r \<and> a \<le> ?max")
      case False
      then have "run_loop w item a t s = (Run_done, final_effect w item a ?s1)"
        using go "1.prems"
        by (auto simp: run_loop.simps [of w item a t s] persist_attempt_def Let_def final_effect_def result_at_def transient_def)
      then show ?thesis
        using False "1.prems" one by (auto simp: run_spec_def intro!: exI [of _ a])
    next
      case True
      let ?t = "k_after w a + of_int (backoff a)"
      have rec: "run_loop w item a t s = run_loop w item (a + 1) ?t ?s1"
        using True go "1.prems"
        by (auto simp: run_loop.simps [of w item a t s] persist_attempt_def Let_def result_at_def transient_def)
      have IH: "(\<exists>n. run_spec w item (a + 1) ?s1 (run_loop w item (a + 1) ?t ?s1) n) \<and>
          (undisturbed w \<longrightarrow> fst (run_loop w item (a + 1) ?t ?s1) = Run_done)"
        by (rule "1.IH") (use True go "1.prems" in \<open>auto simp: persist_attempt_def result_at_def transient_def\<close>)
      then obtain n where n: "run_spec w item (a + 1) ?s1 (run_loop w item (a + 1) ?t ?s1) n" by blast
      have "a \<le> n" using n by (simp add: run_spec_def)
      then have "with_rows w item (a + 1) n ?s1 = with_rows w item a n s" by (rule with_rows_step)
      moreover have "transient (result_at w item k)" if "a \<le> k" "k < n" for k
        using that n True by (cases "k = a") (auto simp: run_spec_def)
      ultimately have "run_spec w item a s (run_loop w item a t s) n"
        using n \<open>a \<le> n\<close> True unfolding rec run_spec_def by (cases "n = a") (auto split: if_split_asm)
      with IH show ?thesis unfolding rec by auto
    qed
  qed
qed

lemma files_with_rows [simp]: "sw_files (with_rows w item a n s) = sw_files s"
  by (simp add: with_rows_def)

lemma rows_maybe_dead_letter [simp]: "sw_deliveries (maybe_dead_letter k item out a s) = sw_deliveries s"
  by (simp add: maybe_dead_letter_def Let_def)


definition demo_worker :: "(int \<Rightarrow> http_reply) \<Rightarrow> worker_env" where
  "demo_worker reply = \<lparr>k_strftime = (\<lambda>t. ''20260101T000000Z''), k_isoformat = (\<lambda>t. ''2026-01-01''), k_sha256 = (\<lambda>s. s),
     k_dir_ok = True, k_write_ok = (\<lambda>f. True), k_soar = (\<lambda>k. demo_soar_env (\<lambda>m. reply k)), k_base_url = [],
     k_is_uuid = (\<lambda>s. True), k_now = (\<lambda>k. of_int k), k_after = (\<lambda>k. of_int k), k_stop_set = (\<lambda>k. False),
     k_stop_during = (\<lambda>k. False), k_persist_ok = (\<lambda>k. True)\<rparr>"

definition demo_pending :: pending_delivery where
  "demo_pending =
     (let c = demo_backend ''slack'' [(''webhook_url'', JStr ''https://hooks.slack.com/x'')]
      in \<lparr>pd_alert = demo_alert, pd_backend_name = ''slack'', pd_backend = Real ''slack'' c, pd_config = c, pd_attempt = 1,
          pd_next_eligible_at = 0\<rparr>)"

definition empty_soar :: soar_state where
  "empty_soar = \<lparr>sw_queue = [], sw_running = [], sw_cooldowns = [], sw_enqueued = [], sw_finished = [],
     sw_deliveries = [], sw_files = []\<rparr>"


subsection \<open>The queue\<close>

inductive soar_step :: "soar_config \<Rightarrow> soar_backend backends \<Rightarrow> soar_state \<Rightarrow> soar_state \<Rightarrow> bool" for cfg reg where
  step_poll: "soar_step cfg reg s (poll_once (k :: dl_env) T cfg reg utc clk table s)"
| step_drain: "soar_step cfg reg s (drain_queue_once s)"
| step_run: "item \<in> set (sw_running s) \<Longrightarrow>
     soar_step cfg reg s (snd (run_one w item (s\<lparr>sw_running := remove1 item (sw_running s)\<rparr>)))"

definition pair_of :: "pending_delivery \<Rightarrow> string \<times> string" where
  "pair_of item = (sa_id (pd_alert item), pd_backend_name item)"

definition pairs :: "soar_state \<Rightarrow> (string \<times> string) list" where
  "pairs s = map pair_of (sw_queue s) @ map pair_of (sw_running s) @ sw_finished s"

definition soar_inv :: "soar_config \<Rightarrow> soar_state \<Rightarrow> bool" where
  "soar_inv cfg s \<longleftrightarrow> int (length (sw_queue s)) \<le> sc_queue_max cfg \<and> distinct (pairs s) \<and>
     fst ` set (pairs s) \<subseteq> set (sw_enqueued s)"

lemma maybe_dead_letter_frame [simp]:
  "sw_queue (maybe_dead_letter k item out a s) = sw_queue s"
  "sw_running (maybe_dead_letter k item out a s) = sw_running s"
  "sw_finished (maybe_dead_letter k item out a s) = sw_finished s"
  "sw_enqueued (maybe_dead_letter k item out a s) = sw_enqueued s"
  by (simp_all add: maybe_dead_letter_def Let_def)

lemma put_or_drop_frame:
  assumes "int (length (sw_queue s)) \<le> m" "1 \<le> m"
  obtains q where "sw_queue (put_or_drop k m now item s) = q @ [item]" "q = sw_queue s \<or> q = tl (sw_queue s)"
    "int (length (q @ [item])) \<le> m" "sw_running (put_or_drop k m now item s) = sw_running s"
    "sw_finished (put_or_drop k m now item s) = sw_finished s"
    "sw_enqueued (put_or_drop k m now item s) = sw_enqueued s"
proof (cases "int (length (sw_queue s)) < m")
  case True
  then show thesis by (intro that [of "sw_queue s"]) (simp_all add: put_or_drop_def)
next
  case False
  then obtain d rest where "sw_queue s = d # rest" using assms by (cases "sw_queue s") auto
  with False assms show thesis
    by (intro that [of rest]) (simp_all add: put_or_drop_def dead_letter_queue_full_def Let_def)
qed

definition fresh_for :: "string \<Rightarrow> string set \<Rightarrow> soar_state \<Rightarrow> bool" where
  "fresh_for i ns s \<longleftrightarrow> (\<forall>n \<in> ns. (i, n) \<notin> set (pairs s))"

lemma distinct_replace_front:
  assumes "distinct (xs @ ys)" "set q \<subseteq> set xs" "distinct q" "x \<notin> set (xs @ ys)"
  shows "distinct (q @ [x] @ ys)"
  using assms by auto

lemma put_or_drop_inv:
  assumes inv: "soar_inv cfg s" "1 \<le> sc_queue_max cfg" and i: "sa_id (pd_alert item) \<in> set (sw_enqueued s)"
    and fresh: "pair_of item \<notin> set (pairs s)"
  shows "soar_inv cfg (put_or_drop k (sc_queue_max cfg) now item s) \<and>
    set (pairs (put_or_drop k (sc_queue_max cfg) now item s)) \<subseteq> insert (pair_of item) (set (pairs s))"
proof -
  have len: "int (length (sw_queue s)) \<le> sc_queue_max cfg" using inv(1) by (simp add: soar_inv_def)
  obtain q where q: "sw_queue (put_or_drop k (sc_queue_max cfg) now item s) = q @ [item]"
    "q = sw_queue s \<or> q = tl (sw_queue s)" "int (length (q @ [item])) \<le> sc_queue_max cfg"
    and rest: "sw_running (put_or_drop k (sc_queue_max cfg) now item s) = sw_running s"
    "sw_finished (put_or_drop k (sc_queue_max cfg) now item s) = sw_finished s"
    "sw_enqueued (put_or_drop k (sc_queue_max cfg) now item s) = sw_enqueued s"
    by (rule put_or_drop_frame [OF len inv(2), of k now item])
  have sub: "set q \<subseteq> set (sw_queue s)" "distinct (map pair_of q)"
  proof -
    have d: "distinct (map pair_of (sw_queue s))" using inv(1) by (simp add: soar_inv_def pairs_def)
    show "set q \<subseteq> set (sw_queue s)" using q(2) by (metis list.set_sel(2) subsetI tl_Nil)
    show "distinct (map pair_of q)" using q(2) d by (auto simp: map_tl distinct_tl)
  qed
  have p: "pairs (put_or_drop k (sc_queue_max cfg) now item s) =
      map pair_of q @ [pair_of item] @ map pair_of (sw_running s) @ sw_finished s"
    using q(1) rest by (simp add: pairs_def)
  have "distinct (map pair_of q @ [pair_of item] @ map pair_of (sw_running s) @ sw_finished s)"
    by (rule distinct_replace_front [of "map pair_of (sw_queue s)"])
      (use inv(1) fresh sub(2) image_mono [OF sub(1), of pair_of] in \<open>simp_all add: soar_inv_def pairs_def\<close>)
  moreover have s: "set (pairs (put_or_drop k (sc_queue_max cfg) now item s)) \<subseteq> insert (pair_of item) (set (pairs s))"
    using sub(1) unfolding p by (auto simp: pairs_def)
  moreover have "fst ` insert (pair_of item) (set (pairs s)) \<subseteq> set (sw_enqueued s)"
    using inv(1) i by (simp add: soar_inv_def pair_of_def)
  moreover have "fst ` set (pairs (put_or_drop k (sc_queue_max cfg) now item s)) \<subseteq> set (sw_enqueued s)"
    using image_mono [OF s, of fst] calculation(3) by (rule subset_trans)
  ultimately have "soar_inv cfg (put_or_drop k (sc_queue_max cfg) now item s)"
    using q(1,3) rest(3) by (simp add: soar_inv_def p)
  with s show ?thesis by blast
qed

lemma enqueue_backend_inv:
  assumes inv: "soar_inv cfg s" "1 \<le> sc_queue_max cfg" and fresh: "fresh_for (sa_id al) (insert (fst nb) ns) s"
    and "fst nb \<notin> ns"
  shows "soar_inv cfg (enqueue_backend k cfg utc clk al nb s) \<and> fresh_for (sa_id al) ns (enqueue_backend k cfg utc clk al nb s)"
proof (cases "map_of (sc_backends cfg) (fst nb)")
  case None
  then show ?thesis using inv fresh by (simp add: enqueue_backend_def fresh_for_def)
next
  case (Some bc)
  show ?thesis
  proof (cases "accepts s (clk (fst nb)) al (fst nb) bc")
    case False
    then show ?thesis using Some inv fresh by (simp add: enqueue_backend_def fresh_for_def)
  next
    case True
    let ?s = "s\<lparr>sw_enqueued := List.insert (sa_id al) (sw_enqueued s)\<rparr>"
    let ?item = "\<lparr>pd_alert = al, pd_backend_name = fst nb, pd_backend = snd nb, pd_config = bc, pd_attempt = 1,
                  pd_next_eligible_at = clk (fst nb)\<rparr>"
    have "set (sw_enqueued s) \<subseteq> set (List.insert (sa_id al) (sw_enqueued s))" by auto
    then have "soar_inv cfg ?s" using inv(1) by (simp add: soar_inv_def pairs_def) blast
    moreover have "pair_of ?item \<notin> set (pairs ?s)" using fresh by (simp add: fresh_for_def pair_of_def pairs_def)
    ultimately have 1: "soar_inv cfg (put_or_drop k (sc_queue_max cfg) utc ?item ?s)"
      "set (pairs (put_or_drop k (sc_queue_max cfg) utc ?item ?s)) \<subseteq> insert (pair_of ?item) (set (pairs ?s))"
      using put_or_drop_inv [of cfg ?s ?item k utc] inv(2) by simp_all
    have "fresh_for (sa_id al) ns (put_or_drop k (sc_queue_max cfg) utc ?item ?s)"
      unfolding fresh_for_def
    proof
      fix n assume n: "n \<in> ns"
      then have "(sa_id al, n) \<noteq> pair_of ?item" using assms(4) by (auto simp: pair_of_def)
      moreover have "(sa_id al, n) \<notin> set (pairs ?s)" using fresh n by (simp add: fresh_for_def pairs_def)
      ultimately show "(sa_id al, n) \<notin> set (pairs (put_or_drop k (sc_queue_max cfg) utc ?item ?s))"
        using 1(2) by blast
    qed
    with 1(1) Some True show ?thesis by (simp add: enqueue_backend_def)
  qed
qed

lemma enqueue_fold_inv:
  assumes "soar_inv cfg s" "1 \<le> sc_queue_max cfg" "fresh_for (sa_id al) (fst ` set reg) s" "distinct (map fst reg)"
  shows "soar_inv cfg (fold (enqueue_backend k cfg utc clk al) reg s)"
  using assms
proof (induction reg arbitrary: s)
  case (Cons nb reg)
  have "soar_inv cfg (enqueue_backend k cfg utc clk al nb s) \<and>
      fresh_for (sa_id al) (fst ` set reg) (enqueue_backend k cfg utc clk al nb s)"
    using Cons.prems by (intro enqueue_backend_inv) auto
  then show ?case using Cons by simp
qed simp

lemma enqueue_row_inv:
  assumes "soar_inv cfg s" "1 \<le> sc_queue_max cfg" "distinct (map fst reg)"
  shows "soar_inv cfg (enqueue_row k T cfg reg utc clk row s)"
proof (cases "ar_id row \<in> set (sw_enqueued s)")
  case False
  have "sa_id (alert_of_row T row) = ar_id row" by (simp add: alert_of_row_def)
  then have "fresh_for (sa_id (alert_of_row T row)) (fst ` set reg) s"
    using assms(1) False by (force simp: fresh_for_def soar_inv_def)
  then show ?thesis
    using assms False by (simp add: enqueue_row_def get_backends_def enqueue_fold_inv)
qed (simp add: enqueue_row_def assms)

lemma poll_once_inv:
  assumes "soar_inv cfg s" "1 \<le> sc_queue_max cfg" "distinct (map fst reg)"
  shows "soar_inv cfg (poll_once k T cfg reg utc clk table s)"
proof -
  have "soar_inv cfg (fold (enqueue_row k T cfg reg utc clk) rows s)" for rows
    using assms by (induction rows arbitrary: s) (simp_all add: enqueue_row_inv)
  then show ?thesis by (simp add: poll_once_def)
qed

lemma drain_inv: "soar_inv cfg s \<Longrightarrow> soar_inv cfg (drain_queue_once s)"
proof -
  assume inv: "soar_inv cfg s"
  have "map pair_of (sw_queue s) = map pair_of (take 16 (sw_queue s)) @ map pair_of (drop 16 (sw_queue s))"
    by (simp flip: map_append)
  then have "mset (pairs (drain_queue_once s)) = mset (pairs s)"
    by (simp add: pairs_def drain_queue_once_def ac_simps)
  then have "distinct (pairs (drain_queue_once s)) \<longleftrightarrow> distinct (pairs s)" "set (pairs (drain_queue_once s)) = set (pairs s)"
    using mset_eq_imp_distinct_iff mset_eq_setD by blast+
  then show "soar_inv cfg (drain_queue_once s)"
    using inv by (auto simp: soar_inv_def drain_queue_once_def)
qed

lemma run_loop_frame:
  "sw_queue (snd (run_loop w item a t s)) = sw_queue s \<and> sw_running (snd (run_loop w item a t s)) = sw_running s \<and>
   sw_finished (snd (run_loop w item a t s)) = sw_finished s \<and> sw_enqueued (snd (run_loop w item a t s)) = sw_enqueued s"
proof (cases "a \<le> bc_max_retries (pd_config item) + 1")
  case True
  then obtain n where "run_spec w item a s (run_loop w item a t s) n"
    using run_loop_spec by blast
  then show ?thesis
    by (auto simp: run_spec_def with_rows_def final_effect_def mark_cooldown_def split: if_split_asm)
next
  case False
  then show ?thesis by (simp add: run_loop.simps [of w item a t s])
qed

lemma run_one_inv:
  assumes inv: "soar_inv cfg s" and item: "item \<in> set (sw_running s)"
  shows "soar_inv cfg (snd (run_one w item (s\<lparr>sw_running := remove1 item (sw_running s)\<rparr>)))"
proof -
  let ?s = "s\<lparr>sw_running := remove1 item (sw_running s)\<rparr>"
  obtain x s1 where l: "run_loop w item (pd_attempt item) (pd_next_eligible_at item) ?s = (x, s1)" by fastforce
  have f: "sw_queue s1 = sw_queue s" "sw_running s1 = remove1 item (sw_running s)" "sw_finished s1 = sw_finished s"
    "sw_enqueued s1 = sw_enqueued s"
    using run_loop_frame [of w item "pd_attempt item" "pd_next_eligible_at item" ?s] l by simp_all
  have "mset (pair_of item # map pair_of (remove1 item (sw_running s))) = mset (map pair_of (sw_running s))"
    using item by (simp flip: image_mset_add_mset)
  then have m: "mset (pair_of item # pairs s1) = mset (pairs s)"
    using f by (simp add: pairs_def)
  have d: "distinct (pair_of item # pairs s1)"
    using mset_eq_imp_distinct_iff [OF m] inv by (simp add: soar_inv_def)
  have e: "fst ` set (pair_of item # pairs s1) \<subseteq> set (sw_enqueued s1)"
    using mset_eq_setD [OF m] inv f(4) by (simp add: soar_inv_def)
  have len: "int (length (sw_queue s1)) \<le> sc_queue_max cfg" using inv f(1) by (simp add: soar_inv_def)
  show ?thesis
  proof (cases x)
    case Run_done
    then show ?thesis
      using l d e len by (auto simp: run_one_def soar_inv_def pairs_def pair_of_def)
  qed (use l d e len in \<open>auto simp: run_one_def soar_inv_def pairs_def\<close>)
qed

lemma soar_step_inv:
  assumes "soar_step cfg reg s s'" "soar_inv cfg s" "1 \<le> sc_queue_max cfg" "distinct (map fst reg)"
  shows "soar_inv cfg s'"
  using assms(1)
proof cases
  case step_poll
  then show ?thesis using assms(2-) by (simp add: poll_once_inv)
next
  case step_drain
  then show ?thesis using assms(2) by (simp add: drain_inv)
next
  case step_run
  then show ?thesis using assms(2) by (simp add: run_one_inv)
qed


interpretation soar_worker: inv_system "soar_step cfg reg"
  "\<lambda>s. soar_inv cfg s \<and> 1 \<le> sc_queue_max cfg \<and> distinct (map fst reg)" for cfg reg
  by unfold_locales (blast intro: soar_step_inv)

lemma worker_tick_steps:
  fixes k :: dl_env
  shows "(soar_step cfg reg)\<^sup>*\<^sup>* s (worker_tick k T cfg reg utc clk table s)"
proof -
  have "(soar_step cfg reg)\<^sup>*\<^sup>* s (case table of None \<Rightarrow> s
        | Some rows \<Rightarrow> if sc_enabled cfg then poll_once k T cfg reg utc clk rows s else s)"
    by (auto split: option.split intro: step_poll)
  then show ?thesis unfolding worker_tick_def by (rule rtranclp.rtrancl_into_rtrancl) (rule step_drain)
qed

text \<open>
  C18: Bounded queue and no double delivery.  From the empty state, whatever is polled,
  drained and run, in whatever order the tasks are scheduled and with whatever outcomes: the
  queue never holds more than \<open>queue_max\<close> items, and one alert is queued, in flight or
  finished at most once for one backend, so a backend is never handed the same alert by two
  tasks.
\<close>

theorem soar_no_double_delivery:
  assumes "(soar_step cfg reg)\<^sup>*\<^sup>* empty_soar s" "1 \<le> sc_queue_max cfg" "distinct (map fst reg)"
  shows "int (length (sw_queue s)) \<le> sc_queue_max cfg \<and>
    distinct (map pair_of (sw_queue s) @ map pair_of (sw_running s) @ sw_finished s) \<and>
    fst ` set (map pair_of (sw_queue s) @ map pair_of (sw_running s) @ sw_finished s) \<subseteq> set (sw_enqueued s)"
proof -
  have "soar_inv cfg empty_soar" using assms(2) by (simp add: soar_inv_def empty_soar_def pairs_def)
  then have "soar_inv cfg s" using soar_worker.run_inv [OF assms(1)] assms(2,3) by simp
  then show ?thesis unfolding soar_inv_def pairs_def .
qed


definition demo_worker_config :: soar_config where
  "demo_worker_config = \<lparr>sc_enabled = True, sc_poll_sec = 5, sc_queue_max = 1, sc_dead_letter_dir = ''dl'', sc_public_base_url = [],
     sc_backends = [(''slack'', pd_config demo_pending)]\<rparr>"

definition demo_dl_env :: dl_env where
  "demo_dl_env = \<lparr>k_strftime = (\<lambda>t. ''20260101T000000Z''), k_isoformat = (\<lambda>t. ''2026-01-01''), k_sha256 = (\<lambda>s. s),
     k_dir_ok = True, k_write_ok = (\<lambda>f. True)\<rparr>"

definition demo_soar_row :: "string \<Rightarrow> stored_alert" where
  "demo_soar_row i = \<lparr>ar_id = i, ar_host_id = Some ''h1'', ar_detector = ''ssh_bruteforce'', ar_severity = ''high'',
     ar_summary = [], ar_detail = JNull, ar_created_at = 100\<rparr>"

theorem soar_no_double_delivery_witness:
  "length (sw_queue (poll_once demo_dl_env demo_texts demo_worker_config [(''slack'', pd_backend demo_pending)] 100 (\<lambda>n. 100)
      [demo_soar_row ''a'', demo_soar_row ''b''] empty_soar)) \<le> 1"
proof -
  have "(soar_step demo_worker_config [(''slack'', pd_backend demo_pending)])\<^sup>*\<^sup>* empty_soar
      (poll_once demo_dl_env demo_texts demo_worker_config [(''slack'', pd_backend demo_pending)] 100 (\<lambda>n. 100)
        [demo_soar_row ''a'', demo_soar_row ''b''] empty_soar)"
    by (intro r_into_rtranclp step_poll)
  then show ?thesis
    using soar_no_double_delivery [of demo_worker_config "[(''slack'', pd_backend demo_pending)]"]
    by (simp add: demo_worker_config_def)
qed

lemma queue_full_not_candidate:
  "pd_attempt item \<le> bc_max_retries (pd_config item) \<Longrightarrow> dead_letter_queue_full k now item s = s"
  by (simp add: dead_letter_queue_full_def maybe_dead_letter_def is_dead_letter_candidate_def queue_full_outcome_def)

text \<open>
  A full queue loses alerts without a trace.  When the queue is full and the backend of
  its oldest item allows at least one retry, putting a new item drops the oldest one and
  writes neither a dead letter nor a delivery row, although \<open>_dead_letter_queue_full\<close> is
  there so \<open>that an alert is never silently lost\<close>; as the alert stays marked as enqueued,
  no later poll queues it again.
\<close>

theorem queue_full_drops_silently:
  assumes "sw_queue s = oldest # rest" "int (length (sw_queue s)) = sc_queue_max cfg"
    and "pd_attempt oldest \<le> bc_max_retries (pd_config oldest)"
  shows "put_or_drop k (sc_queue_max cfg) now item s = s\<lparr>sw_queue := rest @ [item]\<rparr> \<and>
    (ar_id row \<in> set (sw_enqueued s) \<longrightarrow> enqueue_row k T cfg reg utc clk row s = s)"
  using assms by (simp add: put_or_drop_def queue_full_not_candidate enqueue_row_def flip: assms(2))

theorem queue_full_drops_silently_witness:
  "sw_files (put_or_drop demo_dl_env 1 0 demo_pending (empty_soar\<lparr>sw_queue := [demo_pending]\<rparr>)) = []"
  using queue_full_drops_silently [of "empty_soar\<lparr>sw_queue := [demo_pending]\<rparr>" demo_pending "[]" demo_worker_config demo_dl_env 0 demo_pending]
  by (simp add: demo_worker_config_def demo_pending_def demo_backend_def empty_soar_def Let_def)

end
