(* ===== verification/Soar_Api.thy ===== *)
theory Soar_Api
  imports Soar_Worker
begin

section \<open>Dead letters and delivery health over HTTP\<close>

text \<open>
  The read paths of \<open>soar/worker.py\<close> and the endpoints of \<open>api/v1/soar.py\<close>.
  The directory is the list of its files (name and text); \<open>json.load\<close> and SHA-256 are
  parameters.  \<open>running\<close> says whether the application has a worker attached.
\<close>

subsection \<open>Delivery rows\<close>

definition list_deliveries ::
  "string option \<Rightarrow> string option \<Rightarrow> nat \<Rightarrow> soar_delivery list \<Rightarrow> soar_delivery list" where
  "list_deliveries alert_id backend n rows =
     take n (rev (sort_key sd_attempted_at
       (filter (\<lambda>r. (alert_id = None \<or> sd_alert_id r = alert_id) \<and> (backend = None \<or> Some (sd_backend r) = backend)) rows)))"

record health =
  h_total :: nat
  h_success :: nat
  h_client_error :: nat
  h_server_error :: nat
  h_network_error :: nat
  h_dead_lettered :: nat

definition no_health :: health where
  "no_health = \<lparr>h_total = 0, h_success = 0, h_client_error = 0, h_server_error = 0, h_network_error = 0, h_dead_lettered = 0\<rparr>"

definition count_row :: "soar_delivery \<Rightarrow> health \<Rightarrow> health" where
  "count_row r h =
     (let h1 = h\<lparr>h_total := h_total h + 1\<rparr>; c = sd_status_code r;
          h2 = (if 200 \<le> c \<and> c < 400 then h1\<lparr>h_success := h_success h1 + 1\<rparr>
                else if 400 \<le> c \<and> c < 500 then h1\<lparr>h_client_error := h_client_error h1 + 1\<rparr>
                else if c \<ge> 500 then h1\<lparr>h_server_error := h_server_error h1 + 1\<rparr>
                else if c = 0 then h1\<lparr>h_network_error := h_network_error h1 + 1\<rparr>
                else h1)
      in if sd_dead_lettered r then h2\<lparr>h_dead_lettered := h_dead_lettered h2 + 1\<rparr> else h2)"

definition backend_health :: "rat \<Rightarrow> soar_delivery list \<Rightarrow> health str_dict" where
  "backend_health now rows =
     fold (\<lambda>r d. dict_set (sd_backend r) (count_row r (dict_get d (sd_backend r) no_health)) d)
       (filter (\<lambda>r. sd_attempted_at r \<ge> now - 86400) rows) []"

subsection \<open>Dead letters\<close>

datatype 'a read_result = Read_type_error | Read 'a

definition annotate :: "string \<Rightarrow> string \<Rightarrow> json str_dict \<Rightarrow> json str_dict" where
  "annotate base n b = dict_set ''_path'' (JStr (base @ ''/'' @ n)) (dict_set ''_file'' (JStr n) b)"

fun load_letters :: "(string \<Rightarrow> json option) \<Rightarrow> string \<Rightarrow> string str_dict \<Rightarrow> json str_dict list read_result" where
  \<comment> \<open>the loop of \<open>list_dead_letters\<close>: a file that does not parse is skipped, one that is not an object raises\<close>
  "load_letters loads base [] = Read []"
| "load_letters loads base ((n, t) # fs) =
     (case loads t of
        None \<Rightarrow> load_letters loads base fs
      | Some (JObj b) \<Rightarrow>
          (case load_letters loads base fs of
             Read bs \<Rightarrow> Read (annotate base n b # bs) | Read_type_error \<Rightarrow> Read_type_error)
      | Some _ \<Rightarrow> Read_type_error)"

definition json_files :: "string str_dict \<Rightarrow> string str_dict" where
  "json_files fs = filter (\<lambda>f. py_endswith (fst f) ''.json'') fs"

definition list_dead_letters :: "(string \<Rightarrow> json option) \<Rightarrow> string \<Rightarrow> string str_dict \<Rightarrow> json str_dict list read_result" where
  "list_dead_letters loads base fs = load_letters loads base (rev (sort_items (json_files fs)))"

fun first_letter :: "(string \<Rightarrow> json option) \<Rightarrow> string \<Rightarrow> string str_dict \<Rightarrow> json str_dict option read_result" where
  "first_letter loads base [] = Read None"
| "first_letter loads base ((n, t) # fs) =
     (case loads t of
        None \<Rightarrow> first_letter loads base fs
      | Some (JObj b) \<Rightarrow> Read (Some (annotate base n b))
      | Some _ \<Rightarrow> Read_type_error)"

definition get_dead_letter ::
  "(string \<Rightarrow> json option) \<Rightarrow> string \<Rightarrow> string str_dict \<Rightarrow> string \<Rightarrow> json str_dict option read_result" where
  \<comment> \<open>by name or by a prefix of a name (without wildcard characters)\<close>
  "get_dead_letter loads base fs file_id =
     (if CHR ''/'' \<in> set file_id \<or> py_contains file_id ''..'' then Read None
      else case map_of fs file_id of
             Some t \<Rightarrow> first_letter loads base [(file_id, t)]
           | None \<Rightarrow> first_letter loads base (filter (\<lambda>f. py_startswith (fst f) file_id) (json_files fs)))"

definition verify_dead_letter :: "(string \<Rightarrow> string) \<Rightarrow> json str_dict \<Rightarrow> bool" where
  "verify_dead_letter sha body =
     (case map_of body ''file_sha256'' of
        Some (JStr expected) \<Rightarrow>
          expected \<noteq> [] \<and> sha (dumps_sorted_indent (JObj (dict_pop ''file_sha256'' body))) = expected
      | _ \<Rightarrow> False)"

datatype letter_reply = Letter_error int | Letter "json option" bool "json str_dict"

definition read_dead_letter ::
  "(string \<Rightarrow> json option) \<Rightarrow> (string \<Rightarrow> string) \<Rightarrow> string \<Rightarrow> bool \<Rightarrow> string str_dict \<Rightarrow> string \<Rightarrow> letter_reply" where
  "read_dead_letter loads sha base running fs file_id =
     (if \<not> running then Letter_error 503
      else case get_dead_letter loads base fs file_id of
             Read_type_error \<Rightarrow> Letter_error 500
           | Read None \<Rightarrow> Letter_error 404
           | Read (Some body) \<Rightarrow>
               Letter (map_of body ''_file'') (verify_dead_letter sha body) (dict_pop ''_path'' body))"

definition list_dead_letter ::
  "(string \<Rightarrow> json option) \<Rightarrow> string \<Rightarrow> bool \<Rightarrow> string str_dict \<Rightarrow> json str_dict list read_result" where
  "list_dead_letter loads base running fs =
     (if \<not> running then Read []
      else case list_dead_letters loads base fs of
             Read_type_error \<Rightarrow> Read_type_error | Read items \<Rightarrow> Read (map (dict_pop ''_path'') items))"

subsection \<open>Replay\<close>

datatype replay_result = Replay_error int | Replay_queued string string | Replay_other_shape

definition text_list_of :: "py_texts \<Rightarrow> json \<Rightarrow> string list option" where
  \<comment> \<open>\<open>list(v or [])\<close> when it is a list of strings\<close>
  "text_list_of T v =
     (if \<not> py_truthy T v then Some []
      else case v of
        JArr vs \<Rightarrow> if list_all (\<lambda>x. case x of JStr t \<Rightarrow> True | _ \<Rightarrow> False) vs
                  then Some (map (\<lambda>x. case x of JStr t \<Rightarrow> t | _ \<Rightarrow> []) vs) else None
      | _ \<Rightarrow> None)"

definition text_dict_of :: "py_texts \<Rightarrow> json \<Rightarrow> string str_dict option" where
  \<comment> \<open>\<open>dict(v or {})\<close> when it is an object of strings\<close>
  "text_dict_of T v =
     (if \<not> py_truthy T v then Some []
      else case v of
        JObj m \<Rightarrow> if list_all (\<lambda>e. case snd e of JStr t \<Rightarrow> True | _ \<Rightarrow> False) m
                 then Some (map (\<lambda>e. (fst e, case snd e of JStr t \<Rightarrow> t | _ \<Rightarrow> [])) m) else None
      | _ \<Rightarrow> None)"

definition replay_config :: "soar_config \<Rightarrow> string \<Rightarrow> backend_config" where
  "replay_config cfg name =
     (case map_of (sc_backends cfg) name of
        Some c \<Rightarrow> c
      | None \<Rightarrow> \<lparr>bc_name = name, bc_enabled = True, bc_cooldown_sec = 0, bc_severity_min = ''info'', bc_tags_filter = [],
                bc_max_retries = 0, bc_timeout_sec = 10, bc_extra = []\<rparr>)"

definition replay_alert :: "py_texts \<Rightarrow> string \<Rightarrow> json str_dict \<Rightarrow> soar_alert option" where
  \<comment> \<open>\<open>None\<close>: tags, evidence or metadata hold other values than strings, which the worker never
     writes and the alert type does not hold\<close>
  "replay_alert T fresh p =
     (case (text_list_of T (dict_get p ''tags'' (JArr [])), dict_get p ''evidence'' JNull,
            text_dict_of T (dict_get p ''metadata'' (JObj []))) of
        (Some tags, ev, Some m) \<Rightarrow>
          if (case ev of JNull \<Rightarrow> True | JStr x \<Rightarrow> True | _ \<Rightarrow> False)
          then Some \<lparr>sa_id = py_str T (dict_get p ''id'' (JStr fresh)), sa_host_id = py_str T (dict_get p ''host_id'' (JStr [])),
            sa_detector = py_str T (dict_get p ''detector'' (JStr [])), sa_severity = py_str T (dict_get p ''severity'' (JStr ''info'')),
            sa_tags = tags, sa_summary = py_str T (dict_get p ''summary'' (JStr [])),
            sa_evidence = (case ev of JStr x \<Rightarrow> Some x | _ \<Rightarrow> None), sa_metadata = m\<rparr>
          else None
      | _ \<Rightarrow> None)"

definition alert_payload :: "py_texts \<Rightarrow> json str_dict \<Rightarrow> json str_dict option" where
  \<comment> \<open>\<open>body.get("alert", {}) or {}\<close>, \<open>None\<close> for a value without \<open>get\<close>\<close>
  "alert_payload T body =
     (let v = dict_get body ''alert'' (JObj [])
      in if \<not> py_truthy T v then Some [] else case v of JObj p \<Rightarrow> Some p | _ \<Rightarrow> None)"

definition replay_dead_letter ::
  "(string \<Rightarrow> json option) \<Rightarrow> (string \<Rightarrow> string) \<Rightarrow> py_texts \<Rightarrow> string \<Rightarrow> soar_config \<Rightarrow> soar_backend backends \<Rightarrow> bool \<Rightarrow>
   string \<Rightarrow> soar_state \<Rightarrow> replay_result \<times> soar_state" where
  "replay_dead_letter loads sha T fresh cfg reg running file_id s =
     (if \<not> running then (Replay_error 503, s)
      else case get_dead_letter loads (sc_dead_letter_dir cfg) (sw_files s) file_id of
        Read_type_error \<Rightarrow> (Replay_error 500, s)
      | Read None \<Rightarrow> (Replay_error 404, s)
      | Read (Some body) \<Rightarrow>
          if \<not> verify_dead_letter sha body then (Replay_error 409, s)
          else (case map_of body ''backend'' of
            Some (JStr name) \<Rightarrow>
              if name = [] then (Replay_error 400, s)
              else (case map_of (get_backends reg) name of
                      None \<Rightarrow> (Replay_error 400, s)
                    | Some b \<Rightarrow>
                        (case alert_payload T body of
                           None \<Rightarrow> (Replay_error 500, s)
                         | Some p \<Rightarrow>
                        (case replay_alert T fresh p of
                           None \<Rightarrow> (Replay_other_shape, s)
                         | Some al \<Rightarrow>
                             if int (length (sw_queue s)) < sc_queue_max cfg
                             then (Replay_queued (sa_id al) name, s\<lparr>sw_queue := sw_queue s @
                                    [\<lparr>pd_alert = al, pd_backend_name = name, pd_backend = b,
                                      pd_config = replay_config cfg name, pd_attempt = 1, pd_next_eligible_at = 0\<rparr>]\<rparr>)
                             else (Replay_error 503, s))))
          | _ \<Rightarrow> (Replay_error 400, s)))"

section \<open>What the endpoints show\<close>

subsection \<open>Delivery health\<close>

definition health_of :: "soar_delivery list \<Rightarrow> health" where
  "health_of rs =
     (let n = (\<lambda>P. length (filter (\<lambda>r. P (sd_status_code r)) rs))
      in \<lparr>h_total = length rs, h_success = n (\<lambda>c. 200 \<le> c \<and> c < 400), h_client_error = n (\<lambda>c. 400 \<le> c \<and> c < 500),
          h_server_error = n (\<lambda>c. c \<ge> 500), h_network_error = n (\<lambda>c. c = 0),
          h_dead_lettered = length (filter sd_dead_lettered rs)\<rparr>)"

lemma health_of_snoc: "health_of (rs @ [r]) = count_row r (health_of rs)"
  by (simp add: health_of_def count_row_def Let_def)

lemma health_fold:
  "map_of (fold (\<lambda>r d. dict_set (sd_backend r) (count_row r (dict_get d (sd_backend r) no_health)) d) rs []) b =
     (if \<exists>r \<in> set rs. sd_backend r = b then Some (health_of (filter (\<lambda>r. sd_backend r = b) rs)) else None)"
proof (induction rs arbitrary: b rule: rev_induct)
  case (snoc r rs)
  have "health_of [] = no_health" by (simp add: health_of_def no_health_def Let_def)
  then have "dict_get (fold (\<lambda>r d. dict_set (sd_backend r) (count_row r (dict_get d (sd_backend r) no_health)) d) rs []) (sd_backend r) no_health
      = health_of (filter (\<lambda>q. sd_backend q = sd_backend r) rs)"
    using snoc.IH [of "sd_backend r"]
    by (auto simp: dict_get_def filter_empty_conv split: if_split_asm intro!: arg_cong [of "[]" _ health_of, symmetric])
  then show ?case using snoc.IH [of b] by (auto simp: health_of_snoc)
qed simp

text \<open>
  The health view counts exactly.  A backend is listed iff it made an attempt in the last
  24 hours, and its counters are the numbers of those attempts, by status class; the classes
  are disjoint, and only attempts with a status from 1 to 199 are in none of them.
\<close>

theorem backend_health_exact:
  "map_of (backend_health now rows) b =
     (let rs = filter (\<lambda>r. sd_attempted_at r \<ge> now - 86400 \<and> sd_backend r = b) rows
      in if rs = [] then None else Some (health_of rs)) \<and>
   h_success (health_of rs) + h_client_error (health_of rs) + h_server_error (health_of rs) + h_network_error (health_of rs) +
     length (filter (\<lambda>r. sd_status_code r < 200 \<and> sd_status_code r \<noteq> 0) rs) = h_total (health_of rs)"
proof -
  have "h_success (health_of rs) + h_client_error (health_of rs) + h_server_error (health_of rs) + h_network_error (health_of rs) +
     length (filter (\<lambda>r. sd_status_code r < 200 \<and> sd_status_code r \<noteq> 0) rs) = h_total (health_of rs)"
    by (induction rs) (auto simp: health_of_def Let_def)
  moreover have "map_of (backend_health now rows) b =
     (let rs = filter (\<lambda>r. sd_attempted_at r \<ge> now - 86400 \<and> sd_backend r = b) rows
      in if rs = [] then None else Some (health_of rs))"
    by (auto simp: backend_health_def health_fold Let_def filter_empty_conv conj_commute)
  ultimately show ?thesis by blast
qed

subsection \<open>The text of an annotated body is longer\<close>

lemma mset_sort_items: "mset (sort_items kvs) = mset kvs"
proof -
  have "mset (insert_item e d) = add_mset e (mset d)" for e and d :: "'a str_dict"
    by (induction d) auto
  then show ?thesis by (induction kvs) (simp_all add: sort_items_def)
qed

lemma sum_list_mset_cong: "mset xs = mset ys \<Longrightarrow> sum_list (map f xs) = (sum_list (map f ys) :: nat)"
  by (metis mset_map sum_mset_sum_list)

definition item_length :: "nat \<Rightarrow> string \<times> json \<Rightarrow> nat" where
  "item_length n e = length (json_str (fst e)) + length (dumps_indent (n + 2) (snd e)) + n + 6"

lemma length_dumps_object:
  "kvs \<noteq> [] \<Longrightarrow> length (dumps_indent n (JObj kvs)) = n + 2 + sum_list (map (item_length n) kvs)"
  using length_py_join [of "map (\<lambda>(k, v). json_str k @ '': '' @ dumps_indent (n + 2) v) kvs" "'','' @ newline (n + 2)"]
  by (simp add: newline_def comp_def item_length_def [abs_def] case_prod_beta eval_nat_numeral)

lemma length_dumps_array:
  "vs \<noteq> [] \<Longrightarrow> length (dumps_indent n (JArr vs)) = n + 2 + sum_list (map (\<lambda>v. length (dumps_indent (n + 2) v) + n + 4) vs)"
  using length_py_join [of "map (dumps_indent (n + 2)) vs" "'','' @ newline (n + 2)"]
  by (simp add: newline_def comp_def eval_nat_numeral)

lemma sort_items_empty [simp]: "sort_items kvs = [] \<longleftrightarrow> kvs = []"
  using mset_sort_items [of kvs] by (metis mset_zero_iff_right mset_zero_iff)

lemma length_dumps_sorted: "length (dumps_indent n (sort_json v)) = length (dumps_indent n v)"
proof (induction v arbitrary: n rule: sort_json.induct)
  case (1 vs)
  then show ?case
    by (cases "vs = []") (simp_all add: length_dumps_array comp_def cong: map_cong del: dumps_indent.simps)
next
  case (2 kvs)
  have "item_length n (k, sort_json v) = item_length n (k, v)" if "(k, v) \<in> set kvs" for k v
    using 2 that by (simp add: item_length_def)
  then have e: "map (item_length n \<circ> (\<lambda>(k, v). (k, sort_json v))) kvs = map (item_length n) kvs"
    by (auto intro!: map_cong)
  show ?case
  proof (cases "kvs = []")
    case False
    then show ?thesis
      using e sum_list_mset_cong [OF mset_sort_items, of "item_length n" "map (\<lambda>(k, v). (k, sort_json v)) kvs"]
      by (simp only: sort_json.simps length_dumps_object sort_items_empty map_is_Nil_conv not_False_eq_True map_map e)
  qed (simp add: sort_items_def)
qed simp_all


lemma length_dumps_sorted_indent:
  "kvs \<noteq> [] \<Longrightarrow> length (dumps_sorted_indent (JObj kvs)) = 2 + sum_list (map (item_length 0) kvs)"
  unfolding dumps_sorted_indent_def length_dumps_sorted by (simp add: length_dumps_object del: dumps_indent.simps)

lemma item_length_sorted: "item_length n (k, sort_json v) = item_length n (k, v)"
  by (simp add: item_length_def length_dumps_sorted)

definition loaded :: "json str_dict \<Rightarrow> json str_dict" where
  \<comment> \<open>what \<open>json.load\<close> reads back from the text\<close>
  "loaded d = sort_items (map (\<lambda>(k, v). (k, sort_json v)) d)"

lemma sum_item_length_loaded: "sum_list (map (item_length 0) (loaded d)) = sum_list (map (item_length 0) d)"
  unfolding loaded_def sum_list_mset_cong [OF mset_sort_items]
  by (simp add: comp_def case_prod_beta item_length_sorted)

lemma keys_loaded: "fst ` set (loaded d) = fst ` set d"
  by (force simp: loaded_def set_sort_items)

lemma dict_set_fresh: "k \<notin> fst ` set d \<Longrightarrow> dict_set k v d = d @ [(k, v)]"
  by (induction k v d rule: dict_set.induct) auto

lemma pop_loaded_length:
  assumes "h \<notin> fst ` set b"
  shows "sum_list (map (item_length 0) (dict_pop h (loaded (b @ [(h, JStr x)])))) = sum_list (map (item_length 0) b)"
proof -
  have "filter (\<lambda>e. fst e \<noteq> h) (map (\<lambda>(k, v). (k, sort_json v)) b @ [(h, JStr x)]) = map (\<lambda>(k, v). (k, sort_json v)) b"
    using assms by (force simp: filter_id_conv)
  moreover have "mset (dict_pop h (loaded (b @ [(h, JStr x)]))) =
      mset (filter (\<lambda>e. fst e \<noteq> h) (map (\<lambda>(k, v). (k, sort_json v)) b @ [(h, JStr x)]))"
    unfolding dict_pop_def loaded_def mset_filter mset_sort_items by simp
  ultimately have "mset (dict_pop h (loaded (b @ [(h, JStr x)]))) = mset (map (\<lambda>(k, v). (k, sort_json v)) b)"
    by (simp only:)
  then have "sum_list (map (item_length 0) (dict_pop h (loaded (b @ [(h, JStr x)])))) =
      sum_list (map (item_length 0) (map (\<lambda>(k, v). (k, sort_json v)) b))"
    by (rule sum_list_mset_cong)
  then show ?thesis by (simp add: comp_def case_prod_beta item_length_sorted)
qed

lemma map_of_loaded:
  assumes "distinct (map fst d)" shows "map_of (loaded d) k = map_option sort_json (map_of d k)"
proof -
  let ?m = "map (\<lambda>(k, v). (k, sort_json v)) d"
  have "map fst ?m = map fst d" by (simp add: comp_def case_prod_beta)
  then have d: "distinct (map fst ?m)" using assms by (simp only:)
  have "mset (map fst (loaded d)) = mset (map fst ?m)" unfolding loaded_def mset_map mset_sort_items by simp
  then have "distinct (map fst (loaded d))" using d mset_eq_imp_distinct_iff by blast
  then have "map_of (loaded d) = map_of ?m"
    using d by (subst map_of_inject_set) (auto simp: loaded_def set_sort_items)
  then show ?thesis by (simp add: map_of_map)
qed

text \<open>Adding \<open>_file\<close> and \<open>_path\<close> to a sealed body breaks its seal.\<close>

lemma annotated_seal_broken:
  assumes inj: "inj sha" and keys: "distinct (map fst b)" "{''file_sha256'', ''_file'', ''_path''} \<inter> fst ` set b = {}" "b \<noteq> []"
  shows "\<not> verify_dead_letter sha (annotate base n (loaded (b @ [(''file_sha256'', JStr (sha (dumps_sorted_indent (JObj b))))])))"
proof -
  let ?s = "b @ [(''file_sha256'', JStr (sha (dumps_sorted_indent (JObj b))))]"
  let ?p = "dict_pop ''file_sha256'' (loaded ?s)"
  have l: "fst ` set (loaded ?s) = insert ''file_sha256'' (fst ` set b)" by (simp add: keys_loaded)
  have a: "annotate base n (loaded ?s) = loaded ?s @ [(''_file'', JStr n), (''_path'', JStr (base @ ''/'' @ n))]"
    using l keys(2) by (simp add: annotate_def dict_set_fresh)
  have p: "dict_pop ''file_sha256'' (annotate base n (loaded ?s)) = ?p @ [(''_file'', JStr n), (''_path'', JStr (base @ ''/'' @ n))]"
    by (simp add: a dict_pop_def)
  have "length (dumps_sorted_indent (JObj (dict_pop ''file_sha256'' (annotate base n (loaded ?s))))) >
      length (dumps_sorted_indent (JObj b))"
    unfolding p using keys(2,3) pop_loaded_length [of "''file_sha256''" b]
    by (simp add: length_dumps_sorted_indent) (simp add: item_length_def)
  then have ne: "sha (dumps_sorted_indent (JObj (dict_pop ''file_sha256'' (annotate base n (loaded ?s))))) \<noteq>
      sha (dumps_sorted_indent (JObj b))"
    using injD [OF inj] by (metis less_irrefl)
  have "map_of b ''file_sha256'' = None" using keys(2) by (auto simp: map_of_eq_None_iff)
  then have "map_of ?s ''file_sha256'' = Some (JStr (sha (dumps_sorted_indent (JObj b))))" by (simp add: map_add_def)
  moreover have "distinct (map fst ?s)" using keys by auto
  ultimately have "map_of (loaded ?s) ''file_sha256'' = Some (JStr (sha (dumps_sorted_indent (JObj b))))"
    by (simp add: map_of_loaded)
  then have "map_of (annotate base n (loaded ?s)) ''file_sha256'' = Some (JStr (sha (dumps_sorted_indent (JObj b))))"
    by (simp add: annotate_def)
  then show ?thesis using ne by (simp add: verify_dead_letter_def)
qed


subsection \<open>Replay\<close>

lemma dead_letter_body_keys:
  "map fst (dead_letter_body k item out a) = [''ts'', ''backend'', ''alert'', ''status_code'', ''error'', ''attempt'', ''payload_sha256'']"
  by (simp add: dead_letter_body_def Let_def)

lemma sealed_body_eq:
  "sealed_body k (dead_letter_body k item out a) =
     dead_letter_body k item out a @ [(''file_sha256'', JStr (k_sha256 k (dumps_sorted_indent (JObj (dead_letter_body k item out a)))))]"
proof -
  have "''file_sha256'' \<notin> fst ` set (dead_letter_body k item out a)"
    unfolding set_map [symmetric] dead_letter_body_keys by simp
  then show ?thesis by (simp add: sealed_body_def dict_set_fresh)
qed

lemma written_seal_broken:
  assumes "inj (k_sha256 k)"
  shows "\<not> verify_dead_letter (k_sha256 k) (annotate base n (loaded (sealed_body k (dead_letter_body k item out a))))"
  unfolding sealed_body_eq
proof (rule annotated_seal_broken [OF assms])
  show "distinct (map fst (dead_letter_body k item out a))" by (simp add: dead_letter_body_keys)
  show "{''file_sha256'', ''_file'', ''_path''} \<inter> fst ` set (dead_letter_body k item out a) = {}"
    unfolding set_map [symmetric] dead_letter_body_keys by simp
  show "dead_letter_body k item out a \<noteq> []" by (simp add: dead_letter_body_def Let_def)
qed

text \<open>
  A dead letter cannot be replayed.  For every file the worker writes, with SHA-256
  without collisions and \<open>json.load\<close> reading back what \<open>json.dumps\<close> wrote, the read
  endpoint calls the file invalid and the replay endpoint refuses it with 409 and queues
  nothing: \<open>get_dead_letter\<close> adds \<open>_file\<close> and \<open>_path\<close> to the body before
  \<open>verify_dead_letter\<close> hashes it.
\<close>

theorem replay_always_refused:
  fixes k :: dl_env and item :: pending_delivery and out :: deliver_outcome and a :: int and s :: soar_state
  defines "body \<equiv> sealed_body k (dead_letter_body k item out a)" and "name \<equiv> dead_letter_name k (pd_alert item) (do_result out)"
    and "s' \<equiv> maybe_dead_letter k item out a s"
  assumes "inj (k_sha256 k)" "loads (dumps_sorted_indent (JObj body)) = Some (sort_json (JObj body))"
    and "is_dead_letter_candidate (do_result out) a (pd_config item)" "k_dir_ok k" "k_write_ok k name"
    and "CHR ''/'' \<notin> set name" "\<not> py_contains name ''..''"
  shows "replay_dead_letter loads (k_sha256 k) T fresh cfg reg True name s' = (Replay_error 409, s') \<and>
    (\<exists>b. read_dead_letter loads (k_sha256 k) (sc_dead_letter_dir cfg) True (sw_files s') name = Letter (Some (JStr name)) False b)"
proof -
  have "map_of (sw_files s') name = Some (dumps_sorted_indent (JObj body))"
    using assms(6-8) by (simp add: s'_def maybe_dead_letter_def body_def name_def Let_def)
  then have g: "get_dead_letter loads (sc_dead_letter_dir cfg) (sw_files s') name =
      Read (Some (annotate (sc_dead_letter_dir cfg) name (loaded body)))"
    using assms(5,9,10) by (simp add: get_dead_letter_def loaded_def)
  have v: "\<not> verify_dead_letter (k_sha256 k) (annotate (sc_dead_letter_dir cfg) name (loaded body))"
    unfolding body_def by (rule written_seal_broken) (rule assms(4))
  have "map_of (annotate (sc_dead_letter_dir cfg) name (loaded body)) ''_file'' = Some (JStr name)"
    by (simp add: annotate_def)
  with g v show ?thesis by (simp add: replay_dead_letter_def read_dead_letter_def)
qed

definition demo_refusal :: deliver_outcome where
  "demo_refusal =
     \<lparr>do_result = \<lparr>dl_backend = ''slack'', dl_alert_id = ''a1'', dl_status_code = 404, dl_attempted_at = 0, dl_duration_ms = 3,
        dl_error = Some ''gone'', dl_dead_lettered = True\<rparr>, do_payload_sha256 = ''abc''\<rparr>"

theorem replay_always_refused_witness:
  "let b = sealed_body demo_dl_env (dead_letter_body demo_dl_env demo_pending demo_refusal 1);
       s = maybe_dead_letter demo_dl_env demo_pending demo_refusal 1 empty_soar
   in map fst (sw_files s) = [''20260101T000000Z-a1.json''] \<and>
      replay_dead_letter (\<lambda>t. if t = dumps_sorted_indent (JObj b) then Some (sort_json (JObj b)) else None) (\<lambda>s. s) demo_texts ''f''
        demo_worker_config [(''slack'', pd_backend demo_pending)] True ''20260101T000000Z-a1.json'' s = (Replay_error 409, s)"
proof -
  have n: "dead_letter_name demo_dl_env (pd_alert demo_pending) (do_result demo_refusal) = ''20260101T000000Z-a1.json''"
    by (simp add: dead_letter_name_def demo_dl_env_def demo_pending_def demo_refusal_def demo_alert_def or_text_def Let_def)
  have c: "is_dead_letter_candidate (do_result demo_refusal) 1 (pd_config demo_pending)"
    by (simp add: is_dead_letter_candidate_def demo_refusal_def)
  have e: "k_sha256 demo_dl_env = (\<lambda>s. s)" "k_dir_ok demo_dl_env" "k_write_ok demo_dl_env f" for f
    by (simp_all add: demo_dl_env_def)
  have p: "\<not> py_contains ''20260101T000000Z-a1.json'' ''..''" by code_simp
  have "map fst (sw_files (maybe_dead_letter demo_dl_env demo_pending demo_refusal 1 empty_soar)) = [''20260101T000000Z-a1.json'']"
    using c e by (simp add: maybe_dead_letter_def n empty_soar_def Let_def)
  then show ?thesis
    using replay_always_refused [where k = demo_dl_env and item = demo_pending and out = demo_refusal and a = 1 and s = empty_soar
        and T = demo_texts and fresh = "''f''" and cfg = demo_worker_config and reg = "[(''slack'', pd_backend demo_pending)]"] c e p
    by (simp add: n Let_def inj_on_def)
qed

end
