(* ===== verification/Ingest.thy ===== *)
theory Ingest
  imports Ws_Agent Audit_Log
begin

section \<open>Cloudflare Logpush ingest\<close>

text \<open>
  \<open>api/v1/ingest_cloudflare.py\<close>, and what it shares with the generic webhook of theory
  Ingest_Webhook.  A request runs against the tables, the stream and the audit log; one
  commit either appends all its events or fails.  Bytes and texts are character lists; the
  lossy UTF-8 decoder, \<open>json.loads\<close>, \<open>fromisoformat\<close>, HMAC-SHA-256, the clock, fresh
  identifiers and the answers of database and stream are parameters.
\<close>

subsection \<open>Tables and environment\<close>

record ingest_host = host_row +
  ih_first_seen_at :: rat
  ih_hostname :: string
  ih_meta :: "string str_dict"

record ingest_event = event_row +
  ev_received_at :: rat

record ingest_world =
  ig_hosts :: "ingest_host list"
  ig_events :: "ingest_event list"
  ig_published :: "uuid list"
  ig_audit :: audit_state

record ingest_env =
  g_decode :: "string \<Rightarrow> string"                    \<comment> \<open>\<open>decode("utf-8", errors="replace")\<close>\<close>
  g_loads :: "string \<Rightarrow> json option"
  g_fromiso :: "string \<Rightarrow> rat option"
  g_mac :: mac_fun
  g_texts :: py_texts
  g_now :: rat
  g_fresh :: "nat \<Rightarrow> uuid"                         \<comment> \<open>the identifiers drawn by this request\<close>
  g_commit_ok :: "ingest_event list \<Rightarrow> bool"
  g_publish_ok :: "uuid \<Rightarrow> bool"
  g_others :: "ingest_event list"                 \<comment> \<open>committed by others before the stream query\<close>
  g_audit :: audit_env

datatype ingest_reply = Ack int int string | Refused int

definition MAX_METADATA_CHARS :: nat where
  "MAX_METADATA_CHARS = 4096"

definition SCHEMA_VERSION :: string where
  "SCHEMA_VERSION = ''1.0''"

definition truncate_value :: "py_texts \<Rightarrow> json \<Rightarrow> string option" where
  "truncate_value T v =
     (if v = JNull then None
      else let s = py_str T v in Some (if length s > MAX_METADATA_CHARS then take MAX_METADATA_CHARS s else s))"

definition parse_timestamp :: "ingest_env \<Rightarrow> json option \<Rightarrow> rat" where
  "parse_timestamp e raw =
     (case raw of
        Some (JStr s) \<Rightarrow> (case g_fromiso e (py_replace_char (CHR ''Z'') ''+00:00'' s) of Some t \<Rightarrow> t | None \<Rightarrow> g_now e)
      | _ \<Rightarrow> g_now e)"

fun upsert_host :: "rat \<Rightarrow> ingest_host \<Rightarrow> ingest_host list \<Rightarrow> ingest_host list" where
  \<comment> \<open>\<open>INSERT ... ON CONFLICT (id) DO UPDATE SET last_seen_at\<close>\<close>
  "upsert_host now new [] = [new]"
| "upsert_host now new (h # hs) =
     (if host_id h = host_id new then h\<lparr>last_seen_at := now\<rparr> # hs else h # upsert_host now new hs)"

definition ensure_host :: "ingest_env \<Rightarrow> uuid \<Rightarrow> string \<Rightarrow> string str_dict \<Rightarrow> ingest_world \<Rightarrow> ingest_world" where
  "ensure_host e hid name meta w =
     w\<lparr>ig_hosts := upsert_host (g_now e)
         \<lparr>host_id = hid, last_seen_at = g_now e, last_version = Some SCHEMA_VERSION, host_secret = None, auto_block = False,
          ih_first_seen_at = g_now e, ih_hostname = name, ih_meta = meta\<rparr> (ig_hosts w)\<rparr>"

definition body_refused :: "int \<Rightarrow> string option \<Rightarrow> string \<Rightarrow> bool" where
  \<comment> \<open>the Content-Length guard and the length of the body read\<close>
  "body_refused max_bytes content_length body \<longleftrightarrow>
     (case content_length of
        None \<Rightarrow> False
      | Some t \<Rightarrow> (case py_int t of None \<Rightarrow> True | Some n \<Rightarrow> n < 0 \<or> n > max_bytes)) \<or>
     int (length body) > max_bytes"

definition publish_rows :: "ingest_env \<Rightarrow> ingest_event list \<Rightarrow> ingest_world \<Rightarrow> ingest_world" where
  "publish_rows e rows w = w\<lparr>ig_published := ig_published w @ filter (g_publish_ok e) (map ev_id rows)\<rparr>"

subsection \<open>Cloudflare records\<close>

definition SourceCloudflareLogpush :: string where
  "SourceCloudflareLogpush = ''cloudflare_logpush''"

definition CF_MAX_BODY_BYTES :: int where
  "CF_MAX_BODY_BYTES = 5 * 1024 * 1024"

definition MAX_LINE_BYTES :: nat where
  "MAX_LINE_BYTES = 64 * 1024"

definition LOGPUSH_HOST_ID :: uuid where
  "LOGPUSH_HOST_ID = ''b1f4b3e0-0000-0000-0000-000000000001''"

definition DEV_PLACEHOLDER :: string where
  "DEV_PLACEHOLDER = ''zaqorincore-dev-cloudflare-secret-change-me''"

definition cloudflare_secret :: "(string \<rightharpoonup> string) \<Rightarrow> string option" where
  \<comment> \<open>\<open>None\<close>: the module refuses to load\<close>
  "cloudflare_secret env =
     (let secret = (case env ''ZAQORIN_CLOUDFLARE_INGEST_SECRET'' of None \<Rightarrow> '''' | Some s \<Rightarrow> s);
          is_dev = ((case env ''ZAQORIN_ENV'' of None \<Rightarrow> ''production'' | Some v \<Rightarrow> v) \<noteq> ''production'')
      in if secret = [] then (if is_dev then Some DEV_PLACEHOLDER else None)
         else if secret = DEV_PLACEHOLDER \<and> \<not> is_dev then None else Some secret)"

definition CF_TO_METADATA :: "string str_dict" where
  "CF_TO_METADATA =
     [(''ClientIP'', ''src_ip''), (''ClientRequestHost'', ''host''), (''ClientRequestMethod'', ''method''),
      (''ClientRequestURI'', ''uri''), (''EdgeResponseStatus'', ''status''), (''ClientRequestUserAgent'', ''user_agent''),
      (''ClientCountry'', ''country''), (''ClientASN'', ''asn''), (''BotScore'', ''bot_score''), (''WAFAction'', ''waf_action''),
      (''WAFRuleID'', ''waf_rule_id''), (''CacheCacheStatus'', ''cache_status''), (''EdgeStartTimestamp'', ''edge_start_ts''),
      (''EdgeEndTimestamp'', ''edge_end_ts'')]"

definition cf_put :: "py_texts \<Rightarrow> json str_dict \<Rightarrow> string \<times> string \<Rightarrow> string str_dict \<Rightarrow> string str_dict" where
  \<comment> \<open>the body of the loop over the field map\<close>
  "cf_put T rec p out = (case map_of rec (fst p) of
     None \<Rightarrow> out | Some v \<Rightarrow> (case truncate_value T v of None \<Rightarrow> out | Some t \<Rightarrow> dict_set (snd p) t out))"

definition cf_build_metadata :: "py_texts \<Rightarrow> json str_dict \<Rightarrow> string str_dict" where
  "cf_build_metadata T rec = fold (cf_put T rec) CF_TO_METADATA []"

subsection \<open>Authentication\<close>

definition is_ascii :: "string \<Rightarrow> bool" where
  "is_ascii s \<longleftrightarrow> list_all (\<lambda>c. ord c < 128) s"

definition verify_hmac :: "mac_fun \<Rightarrow> string \<Rightarrow> string \<Rightarrow> string \<Rightarrow> bool option" where
  \<comment> \<open>\<open>None\<close>: the \<open>TypeError\<close> of \<open>compare_digest\<close> on a text that is not ASCII\<close>
  "verify_hmac mac secret body presented =
     (if presented = [] then Some False
      else if length presented \<noteq> 64 then Some False
      else if \<not> is_ascii (py_lower presented) then None
      else Some (hexdigest (mac secret body) = py_lower presented))"

subsection \<open>The batch\<close>

fun lines_from :: "string \<Rightarrow> string \<Rightarrow> string list" where
  \<comment> \<open>\<open>bytes.splitlines()\<close>: LF, CR and CRLF end a line\<close>
  "lines_from acc [] = (if acc = [] then [] else [rev acc])"
| "lines_from acc (c # cs) =
     (if c = CHR 0x0A then rev acc # lines_from [] cs
      else if c = CHR 0x0D then
        rev acc # (case cs of d # ds \<Rightarrow> if d = CHR 0x0A then lines_from [] ds else lines_from [] cs | [] \<Rightarrow> [])
      else lines_from (c # acc) cs)"

definition splitlines :: "string \<Rightarrow> string list" where
  "splitlines s = lines_from [] s"

datatype line_result = Blank | Bad_line | Good_line "string str_dict" rat string

definition read_line :: "ingest_env \<Rightarrow> string \<Rightarrow> line_result" where
  "read_line e line0 =
     (let line = (if py_endswith line0 [CHR 0x0D] then butlast line0 else line0)
      in if line = [] then Blank
         else if length line > MAX_LINE_BYTES then Bad_line
         else case safe_loads (g_loads e) (g_decode e line) of
                Inr (JObj rec) \<Rightarrow>
                  Good_line (cf_build_metadata (g_texts e) rec) (parse_timestamp e (map_of rec ''EdgeStartTimestamp'')) (g_decode e line)
              | _ \<Rightarrow> Bad_line)"

definition cf_event :: "ingest_env \<Rightarrow> nat \<Rightarrow> string str_dict \<Rightarrow> rat \<Rightarrow> string \<Rightarrow> ingest_event" where
  "cf_event e i meta t raw =
     \<lparr>ev_id = g_fresh e i, ev_host_id = LOGPUSH_HOST_ID, ev_schema = SCHEMA_VERSION, ev_occurred_at = t,
      ev_source = SourceCloudflareLogpush, ev_raw = raw, ev_metadata = meta, ev_received_at = g_now e\<rparr>"

fun ingest_lines :: "ingest_env \<Rightarrow> string list \<Rightarrow> ingest_event list \<Rightarrow> nat \<Rightarrow> ingest_event list \<times> nat" where
  \<comment> \<open>the loop: the events added to the session and the number of rejected lines\<close>
  "ingest_lines e [] added rejected = (added, rejected)"
| "ingest_lines e (l # ls) added rejected =
     (case read_line e l of
        Blank \<Rightarrow> ingest_lines e ls added rejected
      | Bad_line \<Rightarrow> ingest_lines e ls added (rejected + 1)
      | Good_line meta t raw \<Rightarrow> ingest_lines e ls (added @ [cf_event e (length added) meta t raw]) rejected)"

definition publish_accepted :: "ingest_env \<Rightarrow> nat \<Rightarrow> ingest_world \<Rightarrow> ingest_world" where
  "publish_accepted e accepted w =
     (let rows = filter (\<lambda>r. ev_host_id r = LOGPUSH_HOST_ID \<and> ev_source r = SourceCloudflareLogpush) (ig_events w @ g_others e)
      in publish_rows e (rev (take accepted (rev (sort_key ev_received_at rows)))) w)"

definition ingest_ndjson :: "ingest_env \<Rightarrow> string \<Rightarrow> ingest_world \<Rightarrow> (int + nat \<times> nat) \<times> ingest_world" where
  "ingest_ndjson e body w =
     (let w1 = ensure_host e LOGPUSH_HOST_ID ''cloudflare-logpush''
                 [(''kind'', ''cloudflare_logpush''), (''note'', ''synthesised host for Cloudflare Logpush ingest'')] w;
          (added, rejected) = ingest_lines e (splitlines body) [] 0
      in if \<not> g_commit_ok e added then (Inl 500, w)
         else let w2 = w1\<lparr>ig_events := ig_events w1 @ added\<rparr>;
                  w3 = (if added = [] then w2 else publish_accepted e (length added) w2)
              in (Inr (length added, rejected), w3))"

definition audit_ingest ::
  "ingest_env \<Rightarrow> string \<Rightarrow> string \<Rightarrow> string \<Rightarrow> json str_dict \<Rightarrow> ingest_world \<Rightarrow> ingest_world" where
  "audit_ingest e actor action target extra w =
     w\<lparr>ig_audit := snd (audit_record (g_audit e) actor action target (Some 200) extra (ig_audit w))\<rparr>"

definition ingest_cloudflare_logpush ::
  "ingest_env \<Rightarrow> string \<Rightarrow> string option \<Rightarrow> string option \<Rightarrow> string \<Rightarrow> ingest_world \<Rightarrow> ingest_reply \<times> ingest_world" where
  "ingest_cloudflare_logpush e secret content_length signature body w =
     (if body_refused CF_MAX_BODY_BYTES content_length body then (Refused 413, w)
      else case signature of
        None \<Rightarrow> (Refused 401, w)
      | Some sig \<Rightarrow>
          (case verify_hmac (g_mac e) secret body sig of
             None \<Rightarrow> (Refused 500, w)
           | Some False \<Rightarrow> (Refused 401, w)
           | Some True \<Rightarrow>
               if body = [] then (Refused 422, w)
               else case ingest_ndjson e body w of
                      (Inl code, w1) \<Rightarrow> (Refused code, w1)
                    | (Inr (accepted, rejected), w1) \<Rightarrow>
                        (Ack (int accepted) (int rejected) SourceCloudflareLogpush,
                         audit_ingest e ''cloudflare_logpush'' ''ingest cloudflare'' LOGPUSH_HOST_ID
                           [(''accepted'', JInt (int accepted)), (''rejected'', JInt (int rejected)),
                            (''source'', JStr SourceCloudflareLogpush)] w1)))"

section \<open>What the endpoint guarantees\<close>

subsection \<open>Lines and events\<close>

fun good_line :: "line_result \<Rightarrow> (string str_dict \<times> rat \<times> string) option" where
  "good_line (Good_line m t raw) = Some (m, t, raw)"
| "good_line _ = None"

definition cf_events :: "ingest_env \<Rightarrow> nat \<Rightarrow> string list \<Rightarrow> ingest_event list" where
  \<comment> \<open>one event per well-formed line, in order\<close>
  "cf_events e n ls = map (\<lambda>(i, m, t, raw). cf_event e i m t raw) (enumerate n (List.map_filter (good_line \<circ> read_line e) ls))"

lemma cf_events_simps:
  "cf_events e n [] = []"
  "cf_events e n (l # ls) = (case read_line e l of
      Good_line m t raw \<Rightarrow> cf_event e n m t raw # cf_events e (Suc n) ls | _ \<Rightarrow> cf_events e n ls)"
  by (simp_all add: cf_events_def List.map_filter_simps split: line_result.split)

lemma ingest_lines_eq:
  "ingest_lines e ls added r = (added @ cf_events e (length added) ls, r + length (filter (\<lambda>l. read_line e l = Bad_line) ls))"
  by (induction e ls added r rule: ingest_lines.induct) (simp_all add: cf_events_simps split: line_result.split)

lemma lines_counted:
  "length (cf_events e n ls) + length (filter (\<lambda>l. read_line e l = Bad_line) ls) =
     length (filter (\<lambda>l. read_line e l \<noteq> Blank) ls)"
  by (induction ls arbitrary: n) (auto simp: cf_events_simps split: line_result.split)

subsection \<open>Metadata\<close>

definition bounded_metadata :: "string set \<Rightarrow> string str_dict \<Rightarrow> bool" where
  "bounded_metadata ks m \<longleftrightarrow> list_all (\<lambda>(k, v). k \<in> ks \<and> length v \<le> MAX_METADATA_CHARS) m"

lemma truncate_value_length: "truncate_value T v = Some t \<Longrightarrow> length t \<le> MAX_METADATA_CHARS"
  by (auto simp: truncate_value_def Let_def split: if_split_asm)

lemma bounded_dict_set:
  "bounded_metadata ks m \<Longrightarrow> k \<in> ks \<Longrightarrow> length v \<le> MAX_METADATA_CHARS \<Longrightarrow> bounded_metadata ks (dict_set k v m)"
  using set_dict_set_subset [of k v m] by (fastforce simp: bounded_metadata_def list_all_iff)

lemma cf_put_bounded: "bounded_metadata ks m \<Longrightarrow> snd p \<in> ks \<Longrightarrow> bounded_metadata ks (cf_put T rec p m)"
  by (auto simp: cf_put_def bounded_dict_set truncate_value_length split: option.split)

lemma cf_metadata_bounded: "bounded_metadata (snd ` set CF_TO_METADATA) (cf_build_metadata T rec)"
proof -
  have "bounded_metadata ks (fold (cf_put T rec) ps m)" if "bounded_metadata ks m" "snd ` set ps \<subseteq> ks" for ks ps m
    using that by (induction ps arbitrary: m) (simp_all add: cf_put_bounded)
  then show ?thesis by (simp add: cf_build_metadata_def bounded_metadata_def)
qed

text \<open>Every key holds the truncated text of its own field; \<open>src_ip\<close> is \<open>ClientIP\<close>.\<close>

lemma cf_metadata_lookup:
  assumes "(f, k) \<in> set CF_TO_METADATA"
  shows "map_of (cf_build_metadata T rec) k = Option.bind (map_of rec f) (truncate_value T)"
proof -
  have put: "map_of (cf_put T rec p m) k = (if k = snd p \<and> Option.bind (map_of rec (fst p)) (truncate_value T) \<noteq> None
      then Option.bind (map_of rec (fst p)) (truncate_value T) else map_of m k)" for p m
    by (auto simp: cf_put_def split: option.split)
  have fold: "map_of (fold (cf_put T rec) ps m) k = (if (f, k) \<in> set ps \<and> Option.bind (map_of rec f) (truncate_value T) \<noteq> None
      then Option.bind (map_of rec f) (truncate_value T) else map_of m k)"
    if "distinct (map snd ps)" "\<forall>g. (g, k) \<in> set ps \<longrightarrow> g = f" for ps m
    using that
  proof (induction ps arbitrary: m)
    case (Cons p ps)
    have IH: "map_of (fold (cf_put T rec) ps m') k =
        (if (f, k) \<in> set ps \<and> Option.bind (map_of rec f) (truncate_value T) \<noteq> None
         then Option.bind (map_of rec f) (truncate_value T) else map_of m' k)" for m'
      by (rule Cons.IH) (use Cons.prems in auto)
    show ?case
    proof (cases "snd p = k")
      case True
      then have "p = (f, k)" using Cons.prems(2) by (cases p) auto
      moreover have "(f, k) \<notin> set ps" using Cons.prems(1) True by (auto intro: rev_image_eqI)
      ultimately show ?thesis by (simp add: IH put)
    next
      case False
      then have "(f, k) \<in> set (p # ps) \<longleftrightarrow> (f, k) \<in> set ps" by auto
      then show ?thesis using False by (auto simp: IH put)
    qed
  qed simp
  have d: "distinct (map snd CF_TO_METADATA)" by (simp add: CF_TO_METADATA_def)
  then have "\<forall>g. (g, k) \<in> set CF_TO_METADATA \<longrightarrow> g = f"
    using assms by (metis (no_types, lifting) distinct_map inj_onD prod.sel)
  from fold [OF d this, of "[]"]
  have "map_of (cf_build_metadata T rec) k = (if Option.bind (map_of rec f) (truncate_value T) \<noteq> None
      then Option.bind (map_of rec f) (truncate_value T) else None)"
    unfolding cf_build_metadata_def using assms by simp
  then show ?thesis by (cases "Option.bind (map_of rec f) (truncate_value T)") simp_all
qed


subsection \<open>The endpoint\<close>

definition cf_batch_ok :: "ingest_env \<Rightarrow> string \<Rightarrow> string \<Rightarrow> string option \<Rightarrow> bool" where
  "cf_batch_ok e secret body signature \<longleftrightarrow>
     (\<exists>sig. signature = Some sig \<and> py_lower sig = hexdigest (g_mac e secret body)) \<and> body \<noteq> [] \<and>
     int (length body) \<le> CF_MAX_BODY_BYTES"

definition cf_event_ok :: "ingest_env \<Rightarrow> ingest_event \<Rightarrow> bool" where
  "cf_event_ok e ev \<longleftrightarrow> ev_host_id ev = LOGPUSH_HOST_ID \<and> ev_source ev = SourceCloudflareLogpush \<and>
     ev_received_at ev = g_now e \<and> bounded_metadata (snd ` set CF_TO_METADATA) (ev_metadata ev)"

lemma cf_events_ok: "list_all (cf_event_ok e) (cf_events e n ls)"
proof (induction ls arbitrary: n)
  case (Cons l ls)
  have "read_line e l = Good_line m t raw \<Longrightarrow> bounded_metadata (snd ` set CF_TO_METADATA) m" for m t raw
    by (auto simp: read_line_def Let_def cf_metadata_bounded split: if_split_asm sum.split_asm json.split_asm)
  then show ?case
    using Cons.IH by (auto simp: cf_events_simps cf_event_ok_def cf_event_def split: line_result.split)
qed (simp add: cf_events_simps)

lemma events_frame [simp]:
  "ig_events (ensure_host e h n m w) = ig_events w" "ig_events (publish_rows e rs w) = ig_events w"
  "ig_events (audit_ingest e a b c x w) = ig_events w"
  "ig_published (ensure_host e h n m w) = ig_published w" "ig_published (audit_ingest e a b c x w) = ig_published w"
  by (simp_all add: ensure_host_def publish_rows_def audit_ingest_def)

lemma verify_hmac_True: "verify_hmac mac secret body sig = Some True \<Longrightarrow> py_lower sig = hexdigest (mac secret body)"
  by (simp add: verify_hmac_def split: if_split_asm)

lemma ingest_ndjson_cases:
  "ingest_ndjson e body w = (let evs = cf_events e 0 (splitlines body);
       w1 = ensure_host e LOGPUSH_HOST_ID ''cloudflare-logpush''
              [(''kind'', ''cloudflare_logpush''), (''note'', ''synthesised host for Cloudflare Logpush ingest'')] w;
       w2 = w1\<lparr>ig_events := ig_events w @ evs\<rparr>
     in if \<not> g_commit_ok e evs then (Inl 500, w)
        else (Inr (length evs, length (filter (\<lambda>l. read_line e l = Bad_line) (splitlines body))),
              if evs = [] then w2 else publish_accepted e (length evs) w2))"
  by (simp add: ingest_ndjson_def ingest_lines_eq Let_def)



subsection \<open>The stream\<close>

lemma insort_key_append:
  "(\<forall>y \<in> set ys. f x \<le> f y) \<Longrightarrow> insort_key f x (zs @ ys) = insort_key f x zs @ ys"
  by (induction zs) (auto simp: insort_is_Cons)

lemma sort_key_append_late:
  assumes "\<forall>x \<in> set xs. \<forall>y \<in> set ys. f x \<le> f y"
  shows "sort_key f (xs @ ys) = sort_key f xs @ sort_key f ys"
  using assms by (induction xs) (simp_all add: insort_key_append)

lemma sort_key_same:
  fixes f :: "'a \<Rightarrow> rat"
  shows "\<forall>y \<in> set ys. f y = t \<Longrightarrow> sort_key f ys = ys"
  by (induction ys) (auto simp: insort_is_Cons)

text \<open>
  Every stored event of a batch is announced.  When no other request commits in between
  and the clock does not run backwards, the stream gets exactly the identifiers of the batch,
  in the order of the lines, less those the stream refused; when another batch commits first,
  its rows can take the place of this one's (the query asks for the latest rows, not for this
  batch's rows).
\<close>

theorem cloudflare_batch_published:
  assumes "list_all (\<lambda>ev. ev_received_at ev \<le> g_now e) (ig_events w)" "g_others e = []"
    and "ingest_cloudflare_logpush e secret content_length signature body w = (Ack a r s, w')"
  shows "ig_published w' = ig_published w @ filter (g_publish_ok e) (map ev_id (cf_events e 0 (splitlines body)))"
proof -
  let ?evs = "cf_events e 0 (splitlines body)"
  let ?P = "\<lambda>r. ev_host_id r = LOGPUSH_HOST_ID \<and> ev_source r = SourceCloudflareLogpush"
  have ok: "\<forall>ev \<in> set ?evs. ?P ev \<and> ev_received_at ev = g_now e"
    using cf_events_ok [of e 0 "splitlines body"] by (auto simp: list_all_iff cf_event_ok_def)
  then have f: "filter ?P (ig_events w @ ?evs) = filter ?P (ig_events w) @ ?evs" by (simp add: filter_id_conv)
  have "sort_key ev_received_at (filter ?P (ig_events w @ ?evs)) = sort_key ev_received_at (filter ?P (ig_events w)) @ ?evs"
    unfolding f using assms(1) ok sort_key_same [of ?evs ev_received_at "g_now e"]
    by (subst sort_key_append_late) (auto simp: list_all_iff)
  then have p: "publish_accepted e (length ?evs) (w1\<lparr>ig_events := ig_events w @ ?evs\<rparr>) =
      publish_rows e ?evs (w1\<lparr>ig_events := ig_events w @ ?evs\<rparr>)" for w1
    using assms(2) by (simp add: publish_accepted_def)
  show ?thesis
    using assms(3) p
    by (auto simp: ingest_cloudflare_logpush_def ingest_ndjson_cases Let_def publish_rows_def
        split: if_split_asm option.split_asm bool.split_asm)
qed

lemma newer_rows_published_instead:
  assumes "list_all (\<lambda>r. ev_received_at r \<le> t) (ig_events w)"
    and "list_all (\<lambda>r. t < ev_received_at r \<and> ev_host_id r = LOGPUSH_HOST_ID \<and> ev_source r = SourceCloudflareLogpush) (g_others e)"
  shows "publish_accepted e (length (g_others e)) w = publish_rows e (sort_key ev_received_at (g_others e)) w"
proof -
  let ?P = "\<lambda>r. ev_host_id r = LOGPUSH_HOST_ID \<and> ev_source r = SourceCloudflareLogpush"
  have "filter ?P (ig_events w @ g_others e) = filter ?P (ig_events w) @ g_others e"
    using assms(2) by (auto simp: list_all_iff filter_id_conv)
  moreover have "sort_key ev_received_at (filter ?P (ig_events w) @ g_others e) =
      sort_key ev_received_at (filter ?P (ig_events w)) @ sort_key ev_received_at (g_others e)"
    using assms by (intro sort_key_append_late) (fastforce simp: list_all_iff)
  ultimately show ?thesis by (simp add: publish_accepted_def)
qed

definition demo_ingest_env :: ingest_env where
  "demo_ingest_env = \<lparr>g_decode = (\<lambda>s. s), g_loads = (\<lambda>s. if s = ''{}'' then Some (JObj [(''ClientIP'', JStr ''203.0.113.9'')]) else None),
     g_fromiso = (\<lambda>s. None), g_mac = (\<lambda>k b. replicate 32 7),
     g_texts = \<lparr>t_float_int = (\<lambda>_. None), t_float_zero = (\<lambda>_. False), t_repr = (\<lambda>_. '''')\<rparr>,
     g_now = 100, g_fresh = (\<lambda>n. ''id''), g_commit_ok = (\<lambda>evs. True), g_publish_ok = (\<lambda>i. True), g_others = [],
     g_audit = \<lparr>a_today = ''d'', a_now_iso = ''t'', a_open_ok = True, a_write_ok = True\<rparr>\<rparr>"

definition demo_ingest_world :: ingest_world where
  "demo_ingest_world = \<lparr>ig_hosts = [], ig_events = [], ig_published = [],
     ig_audit = \<lparr>audit_log = [], persist_dir = None, persist_handle = None, persist_file = None, persist_date = None,
       persist_warned = False, audit_files = []\<rparr>\<rparr>"

definition demo_batch :: string where
  "demo_batch = ''{}'' @ [CHR 0x0A] @ ''{'' @ [CHR 0x0A]"

lemma demo_lines: "splitlines demo_batch = [''{}'', ''{'']"
  by (simp add: splitlines_def demo_batch_def)

lemma demo_read:
  "read_line demo_ingest_env ''{}'' =
     Good_line (cf_build_metadata (g_texts demo_ingest_env) [(''ClientIP'', JStr ''203.0.113.9'')]) 100 ''{}''"
  "read_line demo_ingest_env ''{'' = Bad_line"
  by (simp_all add: read_line_def demo_ingest_env_def py_endswith_def suffix_to_prefix MAX_LINE_BYTES_def safe_loads_def MAX_JSON_DEPTH_def
      parse_timestamp_def)

theorem cloudflare_batch_published_witness:
  "\<exists>w'. ingest_cloudflare_logpush demo_ingest_env ''k'' None (Some (hexdigest (replicate 32 7))) demo_batch demo_ingest_world =
       (Ack 1 1 ''cloudflare_logpush'', w') \<and> ig_published w' = [''id'']"
proof -
  let ?e = demo_ingest_env
  let ?s = "Some (hexdigest (replicate 32 7))"
  have len: "length (hexdigest (replicate 32 7)) = 64" by simp
  then have ne: "hexdigest (replicate 32 7) \<noteq> []" by (metis list.size(3) zero_neq_numeral)
  have asc: "is_ascii (py_lower (hexdigest (replicate 32 7)))" by code_simp
  have v: "verify_hmac (g_mac ?e) ''k'' demo_batch (hexdigest (replicate 32 7)) = Some True"
    using len asc ne by (simp add: verify_hmac_def demo_ingest_env_def)
  have n: "\<not> body_refused CF_MAX_BODY_BYTES None demo_batch"
    by (simp add: body_refused_def CF_MAX_BODY_BYTES_def demo_batch_def)
  have ev: "cf_events ?e 0 (splitlines demo_batch) =
      [cf_event ?e 0 (cf_build_metadata (g_texts ?e) [(''ClientIP'', JStr ''203.0.113.9'')]) 100 ''{}'']"
    by (simp add: demo_lines cf_events_simps demo_read)
  have c: "g_commit_ok ?e evs" for evs by (simp add: demo_ingest_env_def)
  have nd: "\<exists>w1. ingest_ndjson ?e demo_batch demo_ingest_world = (Inr (1, 1), w1)"
    unfolding ingest_ndjson_cases Let_def ev using c by (simp add: demo_lines demo_read)
  have "demo_batch \<noteq> []" by (simp add: demo_batch_def)
  then obtain w' where w': "ingest_cloudflare_logpush ?e ''k'' None ?s demo_batch demo_ingest_world = (Ack 1 1 ''cloudflare_logpush'', w')"
    using n v nd by (auto simp: ingest_cloudflare_logpush_def SourceCloudflareLogpush_def)
  have "ig_published w' = ig_published demo_ingest_world @
      filter (g_publish_ok ?e) (map ev_id (cf_events ?e 0 (splitlines demo_batch)))"
    by (rule cloudflare_batch_published [OF _ _ w']) (simp_all add: demo_ingest_world_def demo_ingest_env_def)
  then have "ig_published w' = [''id'']" unfolding ev by (simp add: demo_ingest_world_def demo_ingest_env_def cf_event_def)
  with w' show ?thesis by blast
qed

end
