(* ===== verification/Ingest_Webhook.thy ===== *)
theory Ingest_Webhook
  imports Ingest
begin

section \<open>Generic webhook ingest\<close>

text \<open>
  \<open>api/v1/ingest_webhook.py\<close> behind its API-key dependency (theory Auth).  The four
  translators turn a decoded body into records of recognised fields and a proposed source;
  the handler stores one event per record with a source address.  The tables, the
  environment and the stream are those of theory Ingest.
\<close>

subsection \<open>Constants\<close>

definition SourceWebhookDefault :: string where
  "SourceWebhookDefault = ''webhook''"

definition WH_MAX_BODY_BYTES :: int where
  "WH_MAX_BODY_BYTES = 1 * 1024 * 1024"

definition RECOGNISED_FIELDS :: "string list" where
  "RECOGNISED_FIELDS = [''src_ip'', ''host'', ''method'', ''uri'', ''status'', ''user_agent'', ''referer'', ''country'', ''asn'',
     ''bot_score'', ''waf_action'', ''waf_rule_id'', ''cache_status'', ''occurred_at'']"

definition WEBHOOK_HOST_ID :: uuid where
  "WEBHOOK_HOST_ID = ''b1f4b3e0-0000-0000-0000-000000000002''"

subsection \<open>Translators\<close>

fun scalar :: "json \<Rightarrow> bool" where
  "scalar (JStr s) = True" | "scalar (JInt i) = True" | "scalar (JFloat t) = True" | "scalar (JBool b) = True" | "scalar _ = False"

definition put_field :: "py_texts \<Rightarrow> string \<times> json \<Rightarrow> json str_dict \<Rightarrow> json str_dict" where
  \<comment> \<open>the body of the loop of \<open>_filter_fields\<close>\<close>
  "put_field T kv out =
     (if fst kv \<notin> set RECOGNISED_FIELDS then out
      else if snd kv = JNull then out
      else dict_set (fst kv) (if scalar (snd kv) then snd kv else JStr (py_str T (snd kv))) out)"

definition filter_fields :: "py_texts \<Rightarrow> json str_dict \<Rightarrow> json str_dict" where
  "filter_fields T rec = fold (put_field T) rec []"

fun object_of :: "json \<Rightarrow> json str_dict option" where
  "object_of (JObj kvs) = Some kvs" | "object_of _ = None"

definition translate_generic :: "py_texts \<Rightarrow> json str_dict \<Rightarrow> json str_dict list \<times> string" where
  "translate_generic T body =
     (case map_of body ''events'' of
        Some (JArr items) \<Rightarrow> (map (filter_fields T) (List.map_filter object_of items), [])
      | Some _ \<Rightarrow> ([], [])
      | None \<Rightarrow> ([filter_fields T body], []))"

definition translate_splunk_hec :: "py_texts \<Rightarrow> json str_dict \<Rightarrow> json str_dict list \<times> string" where
  "translate_splunk_hec T body =
     (case map_of body ''event'' of
        Some (JObj inner) \<Rightarrow>
          ([filter_fields T inner], case map_of body ''sourcetype'' of Some (JStr s) \<Rightarrow> s | _ \<Rightarrow> [])
      | _ \<Rightarrow> ([], []))"

definition hit_source :: "json \<Rightarrow> json str_dict option" where
  "hit_source hit = Option.bind (object_of hit) (\<lambda>h. Option.bind (map_of h ''_source'') object_of)"

definition translate_elastic_webhook :: "py_texts \<Rightarrow> json str_dict \<Rightarrow> json str_dict list \<times> string" where
  "translate_elastic_webhook T body =
     (case map_of body ''hits'' of
        Some (JObj hits) \<Rightarrow>
          (case map_of hits ''hits'' of
             Some (JArr inner) \<Rightarrow> (map (filter_fields T) (List.map_filter hit_source inner), [])
           | _ \<Rightarrow> ([], []))
      | _ \<Rightarrow> ([], []))"

function kv_findall :: "string \<Rightarrow> string str_dict" where
  \<comment> \<open>\<open>re.findall(r"(\w+)=(\S+)", s)\<close>\<close>
  "kv_findall s =
     (if s = [] then []
      else let k = takeWhile py_isword s; r = dropWhile py_isword s
           in if k \<noteq> [] \<and> r \<noteq> [] \<and> hd r = CHR ''='' \<and> takeWhile (\<lambda>c. \<not> py_isspace c) (tl r) \<noteq> []
              then (k, takeWhile (\<lambda>c. \<not> py_isspace c) (tl r)) # kv_findall (dropWhile (\<lambda>c. \<not> py_isspace c) (tl r))
              else kv_findall (tl s))"
  by pat_completeness auto
termination
proof (relation "measure length", goal_cases)
  case (2 s k r)
  have "length (dropWhile (\<lambda>c. \<not> py_isspace c) (tl r)) \<le> length (tl r)" by (rule length_dropWhile_le)
  also have "length (tl r) < length s"
  proof -
    have "length r \<le> length s" using 2(3) length_dropWhile_le [of py_isword s] by simp
    then show ?thesis using 2(1) by (cases s) auto
  qed
  finally show ?case by simp
qed auto

declare kv_findall.simps [simp del]

definition sumo_record :: "ingest_env \<Rightarrow> json \<Rightarrow> json str_dict option" where
  \<comment> \<open>one turn of the loop over \<open>records\<close>; \<open>None\<close> is \<open>continue\<close> without a record\<close>
  "sumo_record e rec =
     (case Option.bind (object_of rec) (\<lambda>r. map_of r ''message'') of
        Some (JStr msg) \<Rightarrow>
          Some (case safe_loads (g_loads e) msg of
                  Inr (JObj parsed) \<Rightarrow> filter_fields (g_texts e) parsed
                | _ \<Rightarrow>
                    let pairs = kv_findall msg
                    in if pairs \<noteq> []
                       then filter_fields (g_texts e) (fold (\<lambda>(k, v). dict_set k (JStr v)) pairs [])
                       else [(''user_agent'', JStr (take MAX_METADATA_CHARS msg))])
      | _ \<Rightarrow> None)"

definition translate_sumo_logic :: "ingest_env \<Rightarrow> json str_dict \<Rightarrow> json str_dict list \<times> string" where
  "translate_sumo_logic e body =
     (case map_of body ''records'' of
        Some (JArr rs) \<Rightarrow> (List.map_filter (sumo_record e) rs, [])
      | _ \<Rightarrow> ([], []))"

definition text_or :: "string option \<Rightarrow> string \<Rightarrow> string" where
  \<comment> \<open>\<open>a or b\<close> for a text that may be \<open>None\<close>\<close>
  "text_or a b = (case a of None \<Rightarrow> b | Some s \<Rightarrow> if s = [] then b else s)"

definition pick_translator ::
  "ingest_env \<Rightarrow> string option \<Rightarrow> string option \<Rightarrow> json str_dict \<Rightarrow> json str_dict list \<times> string" where
  "pick_translator e vendor header_source =
     (let chosen = py_lower (text_or vendor (text_or header_source ''generic''))
      in if chosen = ''splunk_hec'' then translate_splunk_hec (g_texts e)
         else if chosen = ''elastic_webhook'' then translate_elastic_webhook (g_texts e)
         else if chosen = ''sumo_logic'' then translate_sumo_logic e
         else translate_generic (g_texts e))"

subsection \<open>Storing\<close>

definition put_metadata :: "py_texts \<Rightarrow> string \<times> json \<Rightarrow> string str_dict \<Rightarrow> string str_dict" where
  "put_metadata T kv out =
     (if fst kv = ''occurred_at'' then out
      else case truncate_value T (snd kv) of None \<Rightarrow> out | Some t \<Rightarrow> dict_set (fst kv) t out)"

definition wh_build_metadata :: "py_texts \<Rightarrow> json str_dict \<Rightarrow> string str_dict" where
  "wh_build_metadata T rec = fold (put_metadata T) rec []"

definition set_default :: "string \<Rightarrow> string \<Rightarrow> string str_dict \<Rightarrow> string str_dict" where
  "set_default k v d = (if map_of d k = None then dict_set k v d else d)"

definition cut_text :: "string \<Rightarrow> string" where
  \<comment> \<open>\<open>_truncate(s) or s\<close> for a text\<close>
  "cut_text s = (if length s > MAX_METADATA_CHARS then take MAX_METADATA_CHARS s else s)"

definition wh_metadata :: "py_texts \<Rightarrow> string \<Rightarrow> string \<Rightarrow> json str_dict \<Rightarrow> string str_dict" where
  "wh_metadata T vendor src_ip rec =
     dict_set ''vendor'' (cut_text vendor) (set_default ''src_ip'' (cut_text src_ip) (wh_build_metadata T rec))"

definition wh_event :: "ingest_env \<Rightarrow> string \<Rightarrow> string \<Rightarrow> nat \<Rightarrow> string \<Rightarrow> json str_dict \<Rightarrow> ingest_event" where
  "wh_event e source vendor i src_ip rec =
     \<lparr>ev_id = g_fresh e i, ev_host_id = WEBHOOK_HOST_ID, ev_schema = SCHEMA_VERSION,
      ev_occurred_at = parse_timestamp e (map_of rec ''occurred_at''), ev_source = source, ev_raw = dumps_compact (JObj rec),
      ev_metadata = wh_metadata (g_texts e) vendor src_ip rec, ev_received_at = g_now e\<rparr>"

definition source_address :: "json str_dict \<Rightarrow> string option" where
  "source_address rec = (case map_of rec ''src_ip'' of Some (JStr s) \<Rightarrow> if s = [] then None else Some s | _ \<Rightarrow> None)"

fun store_records ::
  "ingest_env \<Rightarrow> string \<Rightarrow> string \<Rightarrow> json str_dict list \<Rightarrow> ingest_event list \<Rightarrow> nat \<Rightarrow> ingest_event list \<times> nat" where
  "store_records e source vendor [] added rejected = (added, rejected)"
| "store_records e source vendor (rec # recs) added rejected =
     (case source_address rec of
        None \<Rightarrow> store_records e source vendor recs added (rejected + 1)
      | Some ip \<Rightarrow> store_records e source vendor recs (added @ [wh_event e source vendor (length added) ip rec]) rejected)"

definition ingest_records ::
  "ingest_env \<Rightarrow> json str_dict list \<Rightarrow> string \<Rightarrow> string \<Rightarrow> ingest_world \<Rightarrow> (int + nat \<times> nat) \<times> ingest_world" where
  \<comment> \<open>with \<open>_publish_persisted\<close>: the rows of the drawn identifiers (the query leaves their order open)\<close>
  "ingest_records e recs source vendor w =
     (let w1 = ensure_host e WEBHOOK_HOST_ID ''webhook-ingest''
                 [(''kind'', ''webhook''), (''note'', ''synthesised host for generic webhook ingest'')] w;
          (added, rejected) = store_records e source vendor recs [] 0
      in if \<not> g_commit_ok e added then (Inl 500, w)
         else let w2 = w1\<lparr>ig_events := ig_events w1 @ added\<rparr>
              in (Inr (length added, rejected), if added = [] then w2 else publish_rows e added w2))"

definition stripped :: "string option \<Rightarrow> string option" where
  \<comment> \<open>\<open>(x or "").strip() or None\<close>\<close>
  "stripped x = (case x of None \<Rightarrow> None | Some s \<Rightarrow> if py_strip s = [] then None else Some (py_strip s))"

definition detect_source :: "string option \<Rightarrow> json str_dict \<Rightarrow> string \<Rightarrow> string" where
  "detect_source x_event_source parsed vendor_source =
     text_or (stripped x_event_source)
       (text_or (case map_of parsed ''source'' of Some (JStr s) \<Rightarrow> stripped (Some s) | _ \<Rightarrow> None)
         (text_or (Some (py_strip vendor_source)) SourceWebhookDefault))"

definition ingest_webhook ::
  "ingest_env \<Rightarrow> string option \<Rightarrow> string option \<Rightarrow> string option \<Rightarrow> string \<Rightarrow> ingest_world \<Rightarrow> ingest_reply \<times> ingest_world" where
  "ingest_webhook e content_length vendor x_event_source body w =
     (if body_refused WH_MAX_BODY_BYTES content_length body then (Refused 413, w)
      else if body = [] then (Refused 422, w)
      else case safe_loads (g_loads e) (g_decode e body) of
        Inr (JObj parsed) \<Rightarrow>
          (let (recs, vendor_source) = pick_translator e vendor x_event_source parsed;
               source = detect_source x_event_source parsed vendor_source;
               label = text_or vendor (text_or (stripped x_event_source) ''generic'')
           in case ingest_records e recs source label w of
                (Inl code, w1) \<Rightarrow> (Refused code, w1)
              | (Inr (accepted, rejected), w1) \<Rightarrow>
                  (Ack (int accepted) (int rejected) source,
                   audit_ingest e ''webhook'' ''ingest webhook'' source
                     [(''accepted'', JInt (int accepted)), (''rejected'', JInt (int rejected)), (''vendor'', JStr label)] w1))
      | _ \<Rightarrow> (Refused 422, w))"

section \<open>What the endpoint guarantees\<close>

subsection \<open>The contract of a translator\<close>

definition recognised :: "json str_dict \<Rightarrow> bool" where
  "recognised rec \<longleftrightarrow> distinct (map fst rec) \<and> fst ` set rec \<subseteq> set RECOGNISED_FIELDS"

lemma put_field_recognised: "recognised out \<Longrightarrow> recognised (put_field T kv out)"
  by (auto simp: recognised_def put_field_def keys_dict_set distinct_dict_set)

lemma filter_fields_recognised: "recognised (filter_fields T rec)"
proof -
  have "recognised (fold (put_field T) rec out)" if "recognised out" for out
    using that by (induction rec arbitrary: out) (simp_all add: put_field_recognised)
  then show ?thesis by (simp add: filter_fields_def recognised_def)
qed

locale record_translator =
  fixes translate :: "json str_dict \<Rightarrow> json str_dict list \<times> string"
  assumes translate_recognised: "list_all recognised (fst (translate body))"
begin

lemma record_recognised: "rec \<in> set (fst (translate body)) \<Longrightarrow> recognised rec"
  using translate_recognised by (auto simp: list_all_iff)

end

interpretation generic: record_translator "translate_generic T" for T
  by unfold_locales (auto simp: translate_generic_def list_all_iff filter_fields_recognised split: option.split json.split)

interpretation splunk_hec: record_translator "translate_splunk_hec T" for T
  by unfold_locales (auto simp: translate_splunk_hec_def filter_fields_recognised split: option.split json.split)

interpretation elastic_webhook: record_translator "translate_elastic_webhook T" for T
  by unfold_locales (auto simp: translate_elastic_webhook_def list_all_iff filter_fields_recognised split: option.split json.split)

lemma sumo_text_recognised: "recognised [(''user_agent'', v)]"
  by (simp add: recognised_def RECOGNISED_FIELDS_def)

lemma sumo_record_recognised: "sumo_record e r = Some rec \<Longrightarrow> recognised rec"
  by (auto simp: sumo_record_def Let_def filter_fields_recognised sumo_text_recognised
      split: option.split_asm json.split_asm sum.split_asm if_split_asm)

interpretation sumo_logic: record_translator "translate_sumo_logic e" for e
  by unfold_locales
    (auto simp: translate_sumo_logic_def list_all_iff List.map_filter_def sumo_record_recognised split: option.split json.split)

lemmas translators_recognised =
  generic.translate_recognised splunk_hec.translate_recognised elastic_webhook.translate_recognised sumo_logic.translate_recognised

interpretation chosen: record_translator "pick_translator e vendor header_source" for e vendor header_source
  by unfold_locales (simp add: pick_translator_def Let_def translators_recognised)

subsection \<open>Events of a batch\<close>

definition wh_events :: "ingest_env \<Rightarrow> string \<Rightarrow> string \<Rightarrow> nat \<Rightarrow> json str_dict list \<Rightarrow> ingest_event list" where
  \<comment> \<open>one event per record with a source address, in order\<close>
  "wh_events e source vendor n recs =
     map (\<lambda>(i, rec). wh_event e source vendor i (the (source_address rec)) rec)
       (enumerate n (filter (\<lambda>rec. source_address rec \<noteq> None) recs))"

lemma wh_events_simps:
  "wh_events e source vendor n [] = []"
  "wh_events e source vendor n (rec # recs) = (case source_address rec of
      None \<Rightarrow> wh_events e source vendor n recs
    | Some ip \<Rightarrow> wh_event e source vendor n ip rec # wh_events e source vendor (Suc n) recs)"
  by (simp_all add: wh_events_def split: option.split)

lemma store_records_eq:
  "store_records e source vendor recs added r =
     (added @ wh_events e source vendor (length added) recs, r + length (filter (\<lambda>rec. source_address rec = None) recs))"
  by (induction e source vendor recs added r rule: store_records.induct) (simp_all add: wh_events_simps split: option.split)

lemma length_wh_events: "length (wh_events e source vendor n recs) + length (filter (\<lambda>rec. source_address rec = None) recs) = length recs"
  by (induction recs arbitrary: n) (auto simp: wh_events_simps split: option.split)

lemma put_metadata_bounded:
  "bounded_metadata ks m \<Longrightarrow> fst kv \<in> insert ''occurred_at'' ks \<Longrightarrow> bounded_metadata ks (put_metadata T kv m)"
  by (auto simp: put_metadata_def bounded_dict_set truncate_value_length split: option.split)

lemma wh_metadata_bounded:
  assumes "recognised rec"
  shows "bounded_metadata (insert ''vendor'' (set RECOGNISED_FIELDS)) (wh_metadata T vendor ip rec)"
proof -
  let ?K = "insert ''vendor'' (set RECOGNISED_FIELDS)"
  have "bounded_metadata ?K (fold (put_metadata T) rec m)" if "bounded_metadata ?K m" "fst ` set rec \<subseteq> ?K" for m rec
    using that by (induction rec arbitrary: m) (simp_all add: put_metadata_bounded)
  moreover have "fst ` set rec \<subseteq> ?K" using assms by (auto simp: recognised_def)
  ultimately have "bounded_metadata ?K (wh_build_metadata T rec)"
    by (simp add: wh_build_metadata_def bounded_metadata_def)
  then have "bounded_metadata ?K (set_default ''src_ip'' (cut_text ip) (wh_build_metadata T rec))"
    by (auto simp: set_default_def cut_text_def RECOGNISED_FIELDS_def intro!: bounded_dict_set)
  then show ?thesis by (auto simp: wh_metadata_def cut_text_def intro!: bounded_dict_set)
qed


lemma source_address_metadata:
  assumes "source_address rec = Some ip" "recognised rec"
  shows "map_of (wh_metadata T vendor ip rec) ''src_ip'' = Some (cut_text ip)"
proof -
  have v: "map_of rec ''src_ip'' = Some (JStr ip)"
    using assms(1) by (auto simp: source_address_def split: option.split_asm json.split_asm if_split_asm)
  have put: "map_of (put_metadata T kv m) ''src_ip'' =
      (if fst kv = ''src_ip'' \<and> truncate_value T (snd kv) \<noteq> None then truncate_value T (snd kv) else map_of m ''src_ip'')" for kv m
    by (auto simp: put_metadata_def split: option.split)
  have none: "map_of (fold (put_metadata T) r m) ''src_ip'' = map_of m ''src_ip''" if "''src_ip'' \<notin> fst ` set r" for r m
    using that by (induction r arbitrary: m) (auto simp: put)
  have "map_of (fold (put_metadata T) r m) ''src_ip'' = Some (cut_text ip)"
    if "distinct (map fst r)" "map_of r ''src_ip'' = Some (JStr ip)" for r m
    using that
  proof (induction r arbitrary: m)
    case (Cons kv r)
    then show ?case
      by (cases "fst kv = ''src_ip''") (auto simp: none put truncate_value_def cut_text_def py_str_def Let_def)
  qed simp
  then have "map_of (wh_build_metadata T rec) ''src_ip'' = Some (cut_text ip)"
    using assms(2) v by (simp add: wh_build_metadata_def recognised_def)
  then show ?thesis by (simp add: wh_metadata_def set_default_def)
qed

subsection \<open>The endpoint\<close>

definition wh_event_ok :: "ingest_env \<Rightarrow> string \<Rightarrow> json str_dict list \<Rightarrow> ingest_event \<Rightarrow> bool" where
  "wh_event_ok e source recs ev \<longleftrightarrow>
     ev_host_id ev = WEBHOOK_HOST_ID \<and> ev_source ev = source \<and>
     bounded_metadata (insert ''vendor'' (set RECOGNISED_FIELDS)) (ev_metadata ev) \<and>
     (\<exists>rec \<in> set recs. \<exists>ip. source_address rec = Some ip \<and> ev_raw ev = dumps_compact (JObj rec) \<and>
        map_of (ev_metadata ev) ''src_ip'' = Some (cut_text ip))"

lemma wh_events_ok:
  assumes "list_all recognised recs"
  shows "list_all (wh_event_ok e source recs) (wh_events e source vendor n recs)"
proof -
  have "list_all (wh_event_ok e source recs) (wh_events e source vendor n rs)" if "set rs \<subseteq> set recs" for rs
    using that
  proof (induction rs arbitrary: n)
    case (Cons r rs)
    have "recognised r" using assms Cons.prems by (auto simp: list_all_iff)
    moreover have "r \<in> set recs" using Cons.prems by simp
    ultimately have "source_address r = Some ip \<Longrightarrow> wh_event_ok e source recs (wh_event e source vendor n ip r)" for ip
      unfolding wh_event_ok_def wh_event_def by (auto simp: wh_metadata_bounded source_address_metadata intro!: bexI [of _ r])
    then show ?case using Cons by (simp add: wh_events_simps split: option.split)
  qed (simp add: wh_events_simps)
  then show ?thesis by blast
qed

definition wh_parsed :: "ingest_env \<Rightarrow> string \<Rightarrow> json str_dict option" where
  "wh_parsed e body = (case safe_loads (g_loads e) (g_decode e body) of Inr (JObj parsed) \<Rightarrow> Some parsed | _ \<Rightarrow> None)"

lemma ingest_webhook_eq:
  "ingest_webhook e content_length vendor x_event_source body w =
     (if body_refused WH_MAX_BODY_BYTES content_length body then (Refused 413, w)
      else if body = [] then (Refused 422, w)
      else case wh_parsed e body of
        None \<Rightarrow> (Refused 422, w)
      | Some parsed \<Rightarrow>
          let (recs, vendor_source) = pick_translator e vendor x_event_source parsed;
              source = detect_source x_event_source parsed vendor_source;
              label = text_or vendor (text_or (stripped x_event_source) ''generic'');
              evs = wh_events e source label 0 recs;
              w1 = ensure_host e WEBHOOK_HOST_ID ''webhook-ingest''
                     [(''kind'', ''webhook''), (''note'', ''synthesised host for generic webhook ingest'')] w
          in if \<not> g_commit_ok e evs then (Refused 500, w)
             else let w2 = publish_rows e evs (w1\<lparr>ig_events := ig_events w1 @ evs\<rparr>);
                      rejected = length (filter (\<lambda>rec. source_address rec = None) recs)
                  in (Ack (int (length evs)) (int rejected) source,
                      audit_ingest e ''webhook'' ''ingest webhook'' source
                        [(''accepted'', JInt (int (length evs))), (''rejected'', JInt (int rejected)), (''vendor'', JStr label)] w2))"
proof -
  have "publish_rows e [] v = v" for v by (simp add: publish_rows_def)
  then show ?thesis
    by (auto simp: ingest_webhook_def wh_parsed_def ingest_records_def store_records_eq Let_def
        split: sum.split json.split prod.split)
qed


text \<open>
  Free text is lost.  A Sumo Logic message that is neither a JSON object nor holds a
  \<open>key=value\<close> pair is turned into a record with the text under \<open>user_agent\<close>, which has
  no source address: it is always counted as rejected and never stored, although the
  translator keeps the text for the detectors.
\<close>

theorem sumo_text_never_stored:
  assumes "object_of r = Some kvs" "map_of kvs ''message'' = Some (JStr msg)" "g_loads e msg = None" "kv_findall msg = []"
  shows "sumo_record e r = Some [(''user_agent'', JStr (take MAX_METADATA_CHARS msg))] \<and>
    wh_events e source vendor n [the (sumo_record e r)] = []"
  using assms by (auto simp: sumo_record_def safe_loads_def source_address_def wh_events_simps)

theorem sumo_text_never_stored_witness:
  "wh_events demo_ingest_env ''s'' ''v'' 0 [the (sumo_record demo_ingest_env (JObj [(''message'', JStr ''disk full'')]))] = []"
proof -
  have "kv_findall ''disk full'' = []" by code_simp
  moreover have "g_loads demo_ingest_env ''disk full'' = None" by (simp add: demo_ingest_env_def)
  ultimately show ?thesis
    using sumo_text_never_stored [of "JObj [(''message'', JStr ''disk full'')]" "[(''message'', JStr ''disk full'')]" "''disk full''"
      demo_ingest_env "''s''" "''v''" 0] by auto
qed

end
