(* ===== verification/Typosquat.thy ===== *)
theory Typosquat
  imports Prelude
begin

section \<open>Typosquat detection\<close>

text \<open>
  \<open>detection/brand_protection.py\<close>: the row-by-row edit distance, the comparison of an
  observed domain with one brand, and the search through the configured brands.  The edit
  distance is proved to be the least number of single-character edits.
\<close>

subsection \<open>The routine\<close>

primrec lev_inner :: "char \<Rightarrow> nat list \<Rightarrow> nat list \<Rightarrow> nat \<Rightarrow> string \<Rightarrow> nat list" where
  "lev_inner ca prev_row curr_row j [] = curr_row"
| "lev_inner ca prev_row curr_row j (cb # bs) =
     (let insert_cost = curr_row ! (j - 1) + 1;
          delete_cost = prev_row ! j + 1;
          replace_cost = prev_row ! (j - 1) + (if ca \<noteq> cb then 1 else 0)
      in lev_inner ca prev_row (curr_row @ [min (min insert_cost delete_cost) replace_cost]) (j + 1) bs)"

primrec lev_outer :: "string \<Rightarrow> nat list \<Rightarrow> nat \<Rightarrow> string \<Rightarrow> nat list" where
  "lev_outer b prev_row i [] = prev_row"
| "lev_outer b prev_row i (ca # as) = lev_outer b (lev_inner ca prev_row [i] 1 b) (i + 1) as"

definition levenshtein :: "string \<Rightarrow> string \<Rightarrow> nat" where
  "levenshtein a b =
     (if a = b then 0 else if a = [] then length b else if b = [] then length a
      else last (lev_outer b [0..<length b + 1] 1 a))"

definition DEFAULT_PROTECTED_BRANDS :: "string list" where
  "DEFAULT_PROTECTED_BRANDS = [''komatsu.co.id'', ''microsoft.com'', ''google.com'']"

record typosquat_match =
  tm_observed :: string
  tm_brand :: string
  tm_distance :: nat
  tm_length_delta :: nat
  tm_is_legitimate :: bool

definition protected_brands :: "(string \<rightharpoonup> string) \<Rightarrow> string list" where
  "protected_brands env =
     (case env ''ZAQORIN_PROTECTED_BRANDS'' of
        None \<Rightarrow> DEFAULT_PROTECTED_BRANDS
      | Some raw \<Rightarrow>
          if raw = [] then DEFAULT_PROTECTED_BRANDS
          else let parsed = map (\<lambda>part. py_lower (py_strip part)) (filter (\<lambda>part. py_strip part \<noteq> []) (py_split (CHR '','') raw))
               in if parsed = [] then DEFAULT_PROTECTED_BRANDS else parsed)"

definition abs_diff :: "nat \<Rightarrow> nat \<Rightarrow> nat" where
  "abs_diff m n = (m - n) + (n - m)"

definition check_typosquat :: "nat \<Rightarrow> nat \<Rightarrow> string \<Rightarrow> string \<Rightarrow> typosquat_match option" where
  "check_typosquat max_distance max_length_delta observed brand =
     (let obs = py_lower (py_strip observed); b = py_lower (py_strip brand);
          distance = levenshtein obs b; length_delta = abs_diff (length obs) (length b)
      in if distance = 0
         then Some \<lparr>tm_observed = obs, tm_brand = b, tm_distance = 0, tm_length_delta = length_delta, tm_is_legitimate = True\<rparr>
         else if distance \<le> max_distance \<and> length_delta \<le> max_length_delta
         then Some \<lparr>tm_observed = obs, tm_brand = b, tm_distance = distance, tm_length_delta = length_delta, tm_is_legitimate = False\<rparr>
         else None)"

fun first_match :: "nat \<Rightarrow> nat \<Rightarrow> string \<Rightarrow> string list \<Rightarrow> typosquat_match option" where
  "first_match md ml observed [] = None"
| "first_match md ml observed (brand # brands) =
     (case check_typosquat md ml observed brand of Some m \<Rightarrow> Some m | None \<Rightarrow> first_match md ml observed brands)"

definition first_typosquat ::
  "(string \<rightharpoonup> string) \<Rightarrow> nat \<Rightarrow> nat \<Rightarrow> string \<Rightarrow> string list option \<Rightarrow> typosquat_match option" where
  "first_typosquat env md ml observed brands =
     first_match md ml observed
       (case brands of Some bs \<Rightarrow> if bs = [] then protected_brands env else bs | None \<Rightarrow> protected_brands env)"

section \<open>Edit distance\<close>

subsection \<open>The specification: least number of edits\<close>

inductive edit1 :: "'a list \<Rightarrow> 'a list \<Rightarrow> bool" where
  insert_char: "edit1 v (c # v)"
| delete_char: "edit1 (c # v) v"
| replace_char: "edit1 (c # v) (d # v)"
| later_char: "edit1 u v \<Longrightarrow> edit1 (c # u) (c # v)"

definition edit_distance :: "'a list \<Rightarrow> 'a list \<Rightarrow> nat" where
  "edit_distance a b = (LEAST n. (edit1 ^^ n) a b)"

fun ed :: "'a list \<Rightarrow> 'a list \<Rightarrow> nat" where
  "ed [] ys = length ys"
| "ed (x # xs) [] = Suc (length xs)"
| "ed (x # xs) (y # ys) = min (min (Suc (ed (x # xs) ys)) (Suc (ed xs (y # ys)))) ((if x = y then 0 else 1) + ed xs ys)"

lemma ed_Nil2 [simp]: "ed xs [] = length xs"
  by (cases xs) simp_all

lemma ed_insert_right: "ed xs (y # ys) \<le> Suc (ed xs ys)"
  by (cases xs) auto

lemma ed_delete: "ed (x # xs) ys \<le> Suc (ed xs ys)"
  by (cases ys) auto

lemma ed_insert: "ed xs ys \<le> Suc (ed (x # xs) ys)"
proof (induction ys)
  case (Cons y ys)
  then show ?case using ed_insert_right [of xs y ys] by auto
qed simp

lemma ed_replace: "ed (x # xs) ys \<le> Suc (ed (z # xs) ys)"
  by (induction ys) auto

lemma ed_edit1: "edit1 a b \<Longrightarrow> ed a c \<le> Suc (ed b c)"
proof (induction a b arbitrary: c rule: edit1.induct)
  case (later_char u v x)
  show ?case
  proof (induction c)
    case Nil
    then show ?case using later_char.IH [of "[]"] by simp
  next
    case (Cons y c)
    then show ?case using later_char.IH [of c] later_char.IH [of "y # c"] by auto
  qed
qed (simp_all add: ed_insert ed_delete ed_replace)

lemma ed_lower: "(edit1 ^^ n) a b \<Longrightarrow> ed a b \<le> n"
proof (induction n arbitrary: a)
  case 0
  have "ed a a = 0" for a :: "'a list" by (induction a) auto
  then show ?case using 0 by simp
next
  case (Suc n)
  then obtain c where "edit1 a c" "(edit1 ^^ n) c b" by (metis relpowp_Suc_D2)
  then show ?case using Suc.IH [of c] ed_edit1 [of a c b] by simp
qed

lemma edits_later: "(edit1 ^^ n) u v \<Longrightarrow> (edit1 ^^ n) (x # u) (x # v)"
  by (induction n arbitrary: v) (auto intro: later_char)

lemma edits_step: "edit1 a b \<Longrightarrow> (edit1 ^^ n) b c \<Longrightarrow> (edit1 ^^ Suc n) a c"
  by (rule relpowp_Suc_I2)

lemma ed_reached: "(edit1 ^^ ed a b) a b"
proof (induction a b rule: ed.induct)
  case (1 ys)
  show ?case by (induction ys) (auto intro: insert_char)
next
  case (2 x xs)
  have "(edit1 ^^ length xs) xs []" for xs :: "'a list"
    by (induction xs) (simp_all add: edits_step [OF delete_char] del: relpowp.simps(2))
  then show ?case by (simp only: ed.simps) (metis length_Cons)
next
  case (3 x xs y ys)
  have i: "(edit1 ^^ Suc (ed (x # xs) ys)) (x # xs) (y # ys)" by (rule relpowp_Suc_I [OF 3(1) insert_char])
  have d: "(edit1 ^^ Suc (ed xs (y # ys))) (x # xs) (y # ys)" using edits_step [OF delete_char 3(2)] .
  have r: "(edit1 ^^ ((if x = y then 0 else 1) + ed xs ys)) (x # xs) (y # ys)"
    using edits_later [OF 3(3)] edits_step [OF replace_char edits_later [OF 3(3)]] by (auto simp del: relpowp.simps)
  show ?case using i d r by (simp add: min_def del: relpowp.simps)
qed

lemma edit_distance_ed: "edit_distance a b = ed a b"
  unfolding edit_distance_def by (rule Least_equality) (auto intro: ed_reached ed_lower)


subsection \<open>Reversal\<close>

lemma edit1_append: "edit1 u v \<Longrightarrow> edit1 (w @ u) (w @ v)"
  by (induction w) (auto intro: later_char)

lemma edit1_snoc: "edit1 u v \<Longrightarrow> edit1 (u @ w) (v @ w)"
  by (induction u v rule: edit1.induct) (auto intro: edit1.intros)

lemma edit1_rev: "edit1 u v \<Longrightarrow> edit1 (rev u) (rev v)"
proof (induction u v rule: edit1.induct)
  case (insert_char v c)
  show ?case using edit1_append [OF edit1.insert_char [of "[]" c], of "rev v"] by simp
next
  case (delete_char c v)
  show ?case using edit1_append [OF edit1.delete_char [of c "[]"], of "rev v"] by simp
next
  case (replace_char c v d)
  show ?case using edit1_append [OF edit1.replace_char [of c "[]" d], of "rev v"] by simp
next
  case (later_char u v c)
  then show ?case by (simp add: edit1_snoc)
qed

lemma edits_rev: "(edit1 ^^ n) u v \<Longrightarrow> (edit1 ^^ n) (rev u) (rev v)"
  by (induction n arbitrary: v) (auto dest: edit1_rev)

lemma ed_rev: "ed (rev a) (rev b) = ed a b"
proof -
  have "ed (rev a) (rev b) \<le> ed a b" for a b :: "'a list"
    using edits_rev [OF ed_reached [of a b]] by (rule ed_lower)
  from this [of a b] this [of "rev a" "rev b"] show ?thesis by simp
qed

subsection \<open>The rows hold the distances of the prefixes\<close>

definition dist_row :: "string \<Rightarrow> string \<Rightarrow> nat \<Rightarrow> nat list" where
  "dist_row p b n = map (\<lambda>j. ed (rev p) (rev (take j b))) [0..<n]"

lemma dist_row_nth: "j < n \<Longrightarrow> dist_row p b n ! j = ed (rev p) (rev (take j b))"
  by (simp add: dist_row_def)

lemma lev_inner_row:
  "\<lbrakk>bs = drop k b; k \<le> length b\<rbrakk> \<Longrightarrow>
   lev_inner ca (dist_row p b (length b + 1)) (dist_row (p @ [ca]) b (k + 1)) (k + 1) bs = dist_row (p @ [ca]) b (length b + 1)"
proof (induction bs arbitrary: k)
  case (Cons cb bs)
  have k: "k < length b" using Cons.prems by (metis drop_all leI list.simps(3))
  have "cb # bs = b ! k # drop (k + 1) b" using Cons.prems(1) Cons_nth_drop_Suc [OF k] by (simp only: Suc_eq_plus1)
  then have cb: "cb = b ! k" "bs = drop (k + 1) b" by simp_all
  have t: "rev (take (k + 1) b) = cb # rev (take k b)" using k cb by (simp add: take_Suc_conv_app_nth)
  have "dist_row (p @ [ca]) b (k + 2) = dist_row (p @ [ca]) b (k + 1) @
      [min (min (dist_row (p @ [ca]) b (k + 1) ! k + 1) (dist_row p b (length b + 1) ! (k + 1) + 1))
           (dist_row p b (length b + 1) ! k + (if ca \<noteq> cb then 1 else 0))]"
    using k t by (simp add: dist_row_nth) (simp add: dist_row_def)
  then show ?case using Cons.IH [of "k + 1"] cb k by (simp add: Let_def)
qed simp

lemma lev_outer_row:
  "lev_outer b (dist_row p b (length b + 1)) (length p + 1) a = dist_row (p @ a) b (length b + 1)"
proof (induction a arbitrary: p)
  case (Cons ca a)
  have "dist_row (p @ [ca]) b 1 = [length p + 1]" by (simp add: dist_row_def)
  then have "lev_inner ca (dist_row p b (length b + 1)) [length p + 1] 1 b = dist_row (p @ [ca]) b (length b + 1)"
    using lev_inner_row [of b 0 b ca p] by simp
  then show ?case using Cons.IH [of "p @ [ca]"] by simp
qed simp

lemma levenshtein_ed: "levenshtein a b = ed a b"
proof -
  have z: "ed a a = 0" by (rule le_0_eq [THEN iffD1, OF ed_lower]) simp
  have "dist_row [] b (length b + 1) = [0..<length b + 1]"
    by (rule nth_equalityI) (auto simp: dist_row_def nth_append)
  then have "lev_outer b [0..<length b + 1] 1 a = dist_row a b (length b + 1)"
    using lev_outer_row [of b "[]" a] by simp
  then have "last (lev_outer b [0..<length b + 1] 1 a) = ed (rev a) (rev b)"
    by (simp add: dist_row_def)
  then show ?thesis using z by (auto simp: levenshtein_def ed_rev)
qed

text \<open>
  C23: The edit distance is right.  The two-row table computes the least number of
  single-character insertions, deletions and replacements that turn one text into the other,
  for all pairs of texts.
\<close>

theorem levenshtein_least_edits: "levenshtein a b = (LEAST n. (edit1 ^^ n) a b)"
  using edit_distance_ed [of a b] by (simp add: levenshtein_ed edit_distance_def)

subsection \<open>Matches\<close>

lemma ed_length: "abs_diff (length a) (length b) \<le> ed a b"
  by (induction a b rule: ed.induct) (auto simp: abs_diff_def)

lemma ed_zero: "ed a b = 0 \<longleftrightarrow> a = b"
proof
  assume "ed a b = 0"
  then show "a = b" using ed_reached [of a b] by simp
qed (metis ed_lower le_0_eq relpowp_0_I)

lemma edits_within: "(\<exists>m. m \<le> n \<and> (edit1 ^^ m) a b) \<longleftrightarrow> ed a b \<le> n"
  using ed_reached [of a b] ed_lower le_trans by blast

definition norm_domain :: "string \<Rightarrow> string" where
  "norm_domain s = py_lower (py_strip s)"

lemma check_near: "check_typosquat 2 3 observed b \<noteq> None \<longleftrightarrow> ed (norm_domain observed) (norm_domain b) \<le> 2"
  using ed_length [of "norm_domain observed" "norm_domain b"] by (auto simp: check_typosquat_def levenshtein_ed Let_def norm_domain_def)

lemma check_Some:
  "check_typosquat 2 3 observed b = Some m \<Longrightarrow>
   tm_brand m = norm_domain b \<and> tm_observed m = norm_domain observed \<and> tm_distance m = ed (norm_domain observed) (norm_domain b) \<and> tm_distance m \<le> 2 \<and>
   (tm_is_legitimate m \<longleftrightarrow> norm_domain observed = norm_domain b)"
  by (auto simp: check_typosquat_def levenshtein_ed Let_def ed_zero norm_domain_def split: if_split_asm)

lemma first_match_None: "first_match md ml observed brands = None \<longleftrightarrow> list_all (\<lambda>b. check_typosquat md ml observed b = None) brands"
  by (induction brands) (auto split: option.split)

lemma first_match_Some:
  assumes "first_match md ml observed brands = Some m"
  obtains bs b bs' where "brands = bs @ b # bs'" "list_all (\<lambda>b. check_typosquat md ml observed b = None) bs"
    "check_typosquat md ml observed b = Some m"
  using assms
proof (induction brands arbitrary: thesis)
  case (Cons c brands)
  show ?case
  proof (cases "check_typosquat md ml observed c")
    case None
    then have "first_match md ml observed brands = Some m" using Cons.prems(2) by simp
    then obtain bs b bs' where "brands = bs @ b # bs'" "list_all (\<lambda>b. check_typosquat md ml observed b = None) bs"
        "check_typosquat md ml observed b = Some m" using Cons.IH by blast
    then show ?thesis using None by (intro Cons.prems(1) [of "c # bs" b bs']) simp_all
  next
    case (Some m')
    then show ?thesis using Cons.prems(2) by (intro Cons.prems(1) [of "[]" c brands]) simp_all
  qed
qed simp

text \<open>
  What is reported.  With the default limits (distance 2, length difference 3) a brand
  matches exactly when the normalised domain is at most two edits away, and the match is
  called legitimate exactly when the two are equal; the length limit never decides.  The
  search returns the match of the first brand in the list that is near, so a domain that
  equals a later brand is reported as a squat of an earlier one that is two edits away.
\<close>

theorem typosquat_exact:
  "(check_typosquat 2 3 observed brand \<noteq> None \<longleftrightarrow>
      (\<exists>n \<le> 2. (edit1 ^^ n) (py_lower (py_strip observed)) (py_lower (py_strip brand)))) \<and>
   (case first_match 2 3 observed brands of
      None \<Rightarrow> list_all (\<lambda>b. check_typosquat 2 3 observed b = None) brands
    | Some m \<Rightarrow>
        (\<exists>bs b bs'. brands = bs @ b # bs' \<and> list_all (\<lambda>b. check_typosquat 2 3 observed b = None) bs \<and>
           tm_brand m = py_lower (py_strip b) \<and> tm_observed m = py_lower (py_strip observed) \<and>
           tm_distance m = (LEAST n. (edit1 ^^ n) (tm_observed m) (tm_brand m)) \<and> tm_distance m \<le> 2 \<and>
           (tm_is_legitimate m \<longleftrightarrow> tm_observed m = tm_brand m)))"
proof (intro conjI)
  show "check_typosquat 2 3 observed brand \<noteq> None \<longleftrightarrow> (\<exists>n \<le> 2. (edit1 ^^ n) (py_lower (py_strip observed)) (py_lower (py_strip brand)))"
    unfolding check_near edits_within [symmetric] norm_domain_def by blast
  show "case first_match 2 3 observed brands of
      None \<Rightarrow> list_all (\<lambda>b. check_typosquat 2 3 observed b = None) brands
    | Some m \<Rightarrow>
        (\<exists>bs b bs'. brands = bs @ b # bs' \<and> list_all (\<lambda>b. check_typosquat 2 3 observed b = None) bs \<and>
           tm_brand m = py_lower (py_strip b) \<and> tm_observed m = py_lower (py_strip observed) \<and>
           tm_distance m = (LEAST n. (edit1 ^^ n) (tm_observed m) (tm_brand m)) \<and> tm_distance m \<le> 2 \<and>
           (tm_is_legitimate m \<longleftrightarrow> tm_observed m = tm_brand m))"
  proof (cases "first_match 2 3 observed brands")
    case (Some m)
    then obtain bs b bs' where b: "brands = bs @ b # bs'" "list_all (\<lambda>b. check_typosquat 2 3 observed b = None) bs"
        "check_typosquat 2 3 observed b = Some m" by (rule first_match_Some)
    have "tm_distance m = (LEAST n. (edit1 ^^ n) (norm_domain observed) (norm_domain b))"
      using check_Some [OF b(3)] edit_distance_ed [of "norm_domain observed" "norm_domain b"] by (simp add: edit_distance_def)
    then show ?thesis unfolding Some option.case using b(1,2) check_Some [OF b(3)]
      by (intro exI [of _ bs] exI [of _ b] exI [of _ bs']) (simp add: norm_domain_def)
  next
    case None
    then show ?thesis using first_match_None [of 2 3 observed brands] by simp
  qed
qed

end
