(* ===== verification/Sources.thy ===== *)
theory Sources
  imports Auth Audit_Log Ingest
begin

section \<open>Source connectors\<close>

text \<open>
  \<open>api/v1/sources.py\<close> and \<open>models/source.py\<close>, behind the API-key dependency (theory
  Auth): the table of connectors, the four create endpoints with their field checks, status,
  test, key rotation and deletion.  What a request meets from outside is its environment:
  the fresh identifier and keys, the clock, the caller's role, whether the database takes the
  row, and what the test's call to itself gives.  The two-decimal rounding of floats is a
  parameter.
\<close>

subsection \<open>State\<close>

record source_connector =
  cn_id :: uuid
  cn_platform :: string
  cn_name :: "string option"
  cn_config :: "json str_dict"
  cn_api_key :: string
  cn_fingerprint :: string
  cn_status :: string
  cn_events_received :: int
  cn_error_count :: int
  cn_last_event_at :: "rat option"
  cn_created_at :: rat
  cn_updated_at :: rat

record src_world =
  src_rows :: "source_connector list"
  src_audit :: audit_state

datatype selfcall = Sc_status int | Sc_transport_error string | Sc_other

record src_env =
  q_id :: uuid
  q_api_key :: string
  q_signing_secret :: string
  q_now :: rat
  q_base_url :: string
  q_role :: "role option"
  q_commit_ok :: bool
  q_selfcall :: selfcall
  q_round2 :: "rat \<Rightarrow> rat"
  q_audit :: audit_env

record created_out =
  co_row :: source_connector
  co_ingest_url :: string
  co_signing_secret :: string

datatype 'a src_reply = Src_error int | Src_ok 'a

subsection \<open>Constants\<close>

definition SUPPORTED_PLATFORMS :: "string list" where
  "SUPPORTED_PLATFORMS = [''cloudflare'', ''aws'', ''webhook'', ''syslog'']"

definition CF_DATASETS :: "string list" where
  "CF_DATASETS = [''http_requests'', ''spectrum_events'', ''gateway_dns'', ''gateway_http'', ''gateway_network'',
     ''nel_reports'', ''audit_logs'', ''workers_trace_events'']"

definition WEBHOOK_FORMATS :: "string list" where
  "WEBHOOK_FORMATS = [''generic'', ''splunk_hec'', ''elastic_webhook'', ''sumo_logic'']"

definition SYSLOG_PROTOCOLS :: "string list" where
  "SYSLOG_PROTOCOLS = [''udp'', ''tcp'']"

definition SYSLOG_FACILITIES :: "string list" where
  "SYSLOG_FACILITIES = [''kern'', ''user'', ''mail'', ''daemon'', ''auth'', ''syslog'', ''lpr'', ''news'', ''uucp'', ''cron'', ''authpriv'',
     ''ftp'', ''ntp'', ''security'', ''console'', ''local0'', ''local1'', ''local2'', ''local3'', ''local4'', ''local5'', ''local6'', ''local7'']"

definition RATE_MIN_WINDOW_SECONDS :: rat where
  "RATE_MIN_WINDOW_SECONDS = 60"

subsection \<open>Field patterns\<close>

definition is_hex :: "char \<Rightarrow> bool" where
  "is_hex c \<longleftrightarrow> py_isdigit c \<or> (97 \<le> ord c \<and> ord c \<le> 102) \<or> (65 \<le> ord c \<and> ord c \<le> 70)"

definition CF_ZONE_ID_RE :: "string \<Rightarrow> bool" where
  "CF_ZONE_ID_RE = py_dollar (\<lambda>s. length s = 32 \<and> list_all is_hex s)"

definition role_name_char :: "char \<Rightarrow> bool" where
  "role_name_char c \<longleftrightarrow> py_isalnum c \<or> c \<in> set ''+=,.@_-''"

definition AWS_ROLE_ARN_RE :: "string \<Rightarrow> bool" where
  "AWS_ROLE_ARN_RE = py_dollar (\<lambda>s.
     let p = ''arn:aws:iam::''; r = drop (length p) s; n = drop 18 r
     in take (length p) s = p \<and> list_all py_isdigit (take 12 r) \<and> length r \<ge> 12 \<and> take 6 (drop 12 r) = '':role/'' \<and>
        1 \<le> length n \<and> length n \<le> 64 \<and> list_all role_name_char n)"

definition AWS_LOG_GROUP_RE :: "string \<Rightarrow> bool" where
  "AWS_LOG_GROUP_RE = py_dollar (\<lambda>s. 1 \<le> length s \<and> length s \<le> 512 \<and> list_all (\<lambda>c. py_isword c \<or> c = CHR ''-'' \<or> c = CHR ''/'') s)"

definition IPV4_RE :: "string \<Rightarrow> bool" where
  "IPV4_RE = py_dollar (\<lambda>s. length (py_split (CHR ''.'') s) = 4 \<and>
     list_all (\<lambda>p. 1 \<le> length p \<and> length p \<le> 3 \<and> list_all py_isdigit p) (py_split (CHR ''.'') s))"

definition host_label :: "string \<Rightarrow> bool" where
  "host_label l \<longleftrightarrow> 1 \<le> length l \<and> length l \<le> 63 \<and> list_all (\<lambda>c. py_isalnum c \<or> c = CHR ''-'') l \<and>
     py_isalnum (hd l) \<and> py_isalnum (last l)"

definition HOSTNAME_RE :: "string \<Rightarrow> bool" where
  "HOSTNAME_RE = py_dollar (\<lambda>s. 1 \<le> length s \<and> length s \<le> 253 \<and> list_all host_label (py_split (CHR ''.'') s))"

subsection \<open>Bodies\<close>

definition sized :: "nat \<Rightarrow> nat \<Rightarrow> 'a list \<Rightarrow> bool" where
  "sized lo hi xs \<longleftrightarrow> lo \<le> length xs \<and> length xs \<le> hi"

definition opt_sized :: "nat \<Rightarrow> string option \<Rightarrow> bool" where
  "opt_sized hi x \<longleftrightarrow> (case x of None \<Rightarrow> True | Some s \<Rightarrow> length s \<le> hi)"

record cloudflare_in =
  ci_api_token :: string
  ci_zone_id :: string
  ci_datasets :: "string list"
  ci_name :: "string option"

definition cloudflare_in_ok :: "cloudflare_in \<Rightarrow> bool" where
  "cloudflare_in_ok b \<longleftrightarrow> sized 1 512 (ci_api_token b) \<and> sized 32 32 (ci_zone_id b) \<and> sized 1 16 (ci_datasets b) \<and> opt_sized 255 (ci_name b)"

record aws_in =
  ai_role_arn :: string
  ai_log_group :: string
  ai_name :: "string option"

definition aws_in_ok :: "aws_in \<Rightarrow> bool" where
  "aws_in_ok b \<longleftrightarrow> sized 20 2048 (ai_role_arn b) \<and> sized 1 512 (ai_log_group b) \<and> opt_sized 255 (ai_name b)"

record webhook_in =
  wi_name :: string
  wi_format :: string

definition webhook_in_ok :: "webhook_in \<Rightarrow> bool" where
  "webhook_in_ok b \<longleftrightarrow> sized 1 255 (wi_name b) \<and> length (wi_format b) \<le> 64"

record syslog_in =
  si_host :: string
  si_port :: int
  si_protocol :: string
  si_facility :: "string option"
  si_name :: "string option"

definition syslog_in_ok :: "syslog_in \<Rightarrow> bool" where
  "syslog_in_ok b \<longleftrightarrow> sized 1 253 (si_host b) \<and> 1 \<le> si_port b \<and> si_port b \<le> 65535 \<and> length (si_protocol b) \<le> 8 \<and>
     opt_sized 32 (si_facility b) \<and> opt_sized 255 (si_name b)"

definition validate_syslog_host :: "string \<Rightarrow> bool" where
  "validate_syslog_host host =
     (if IPV4_RE host
      then list_all (\<lambda>p. case py_int p of Some v \<Rightarrow> 0 \<le> v \<and> v \<le> 255 | None \<Rightarrow> False) (py_split (CHR ''.'') host)
      else HOSTNAME_RE host)"

definition validate_syslog_facility :: "string option \<Rightarrow> bool" where
  "validate_syslog_facility f = (case f of None \<Rightarrow> True | Some x \<Rightarrow> x \<in> set SYSLOG_FACILITIES)"

subsection \<open>Helpers\<close>

definition fingerprint :: "string \<Rightarrow> string" where
  "fingerprint s = drop (length s - 8) s"

definition or_name :: "string option \<Rightarrow> string \<Rightarrow> string option" where
  "or_name n d = Some (case n of Some s \<Rightarrow> if s = [] then d else s | None \<Rightarrow> d)"

definition compute_rate_per_min :: "(rat \<Rightarrow> rat) \<Rightarrow> rat \<Rightarrow> int \<Rightarrow> rat option \<Rightarrow> rat" where
  "compute_rate_per_min round2 now events_received last_event_at =
     (case last_event_at of
        None \<Rightarrow> 0
      | Some t \<Rightarrow> if events_received = 0 then 0
                 else round2 (of_int events_received / (max RATE_MIN_WINDOW_SECONDS (now - t) / 60)))"

definition ingest_url_for :: "src_env \<Rightarrow> string \<Rightarrow> uuid \<Rightarrow> string option" where
  \<comment> \<open>\<open>None\<close>: the \<open>NameError\<close> of the syslog branch, which reads a name it does not have\<close>
  "ingest_url_for e platform cid =
     (let base = py_rstrip (\<lambda>c. c = CHR ''/'') (q_base_url e)
      in if platform = ''cloudflare'' then Some (base @ ''/api/v1/ingest/cloudflare'')
         else if platform = ''aws'' then Some (base @ ''/api/v1/ingest/aws/'' @ cid)
         else if platform = ''webhook'' then Some (base @ ''/api/v1/ingest/webhook?connector='' @ cid)
         else if platform = ''syslog'' then None
         else Some (base @ ''/api/v1/sources/'' @ cid))"

definition get_connector :: "uuid \<Rightarrow> src_world \<Rightarrow> source_connector option" where
  "get_connector cid w = find (\<lambda>c. cn_id c = cid) (src_rows w)"

definition update_connector :: "uuid \<Rightarrow> (source_connector \<Rightarrow> source_connector) \<Rightarrow> src_world \<Rightarrow> src_world" where
  "update_connector cid f w = w\<lparr>src_rows := map (\<lambda>c. if cn_id c = cid then f c else c) (src_rows w)\<rparr>"

definition actor_of :: "src_env \<Rightarrow> string" where
  "actor_of e = (case q_role e of None \<Rightarrow> ''anonymous'' | Some r \<Rightarrow> role_value r)"

definition audit_source :: "src_env \<Rightarrow> string \<Rightarrow> string \<Rightarrow> json str_dict \<Rightarrow> src_world \<Rightarrow> src_world" where
  "audit_source e action target extra w =
     w\<lparr>src_audit := snd (audit_record (q_audit e) (actor_of e) action target None extra (src_audit w))\<rparr>"

subsection \<open>Creating\<close>

definition new_connector :: "src_env \<Rightarrow> string \<Rightarrow> string option \<Rightarrow> json str_dict \<Rightarrow> source_connector" where
  "new_connector e platform name config =
     \<lparr>cn_id = q_id e, cn_platform = platform, cn_name = name, cn_config = config, cn_api_key = q_api_key e,
      cn_fingerprint = fingerprint (q_api_key e), cn_status = ''active'', cn_events_received = 0, cn_error_count = 0,
      cn_last_event_at = None, cn_created_at = q_now e, cn_updated_at = q_now e\<rparr>"

definition row_fits :: "source_connector \<Rightarrow> bool" where
  \<comment> \<open>the width of the column \<open>name\<close>\<close>
  "row_fits c \<longleftrightarrow> opt_sized 255 (cn_name c)"

definition store_connector ::
  "src_env \<Rightarrow> source_connector \<Rightarrow> string \<Rightarrow> json str_dict \<Rightarrow> src_world \<Rightarrow> created_out src_reply \<times> src_world" where
  \<comment> \<open>the common tail of the create endpoints, from \<open>session.add\<close> on\<close>
  "store_connector e c secret extra w =
     (if \<not> (q_commit_ok e \<and> row_fits c) then (Src_error 500, w)
      else let w1 = w\<lparr>src_rows := src_rows w @ [c]\<rparr>
           in case ingest_url_for e (cn_platform c) (cn_id c) of
                None \<Rightarrow> (Src_error 500, w1)
              | Some url \<Rightarrow>
                  (Src_ok \<lparr>co_row = c, co_ingest_url = url, co_signing_secret = secret\<rparr>,
                   audit_source e (''create source ('' @ cn_platform c @ '')'') (cn_id c) extra w1))"

definition create_cloudflare :: "src_env \<Rightarrow> cloudflare_in \<Rightarrow> src_world \<Rightarrow> created_out src_reply \<times> src_world" where
  "create_cloudflare e b w =
     (if \<not> cloudflare_in_ok b then (Src_error 422, w)
      else if \<not> CF_ZONE_ID_RE (ci_zone_id b) then (Src_error 400, w)
      else if \<not> list_all (\<lambda>d. d \<in> set CF_DATASETS) (ci_datasets b) then (Src_error 400, w)
      else store_connector e
             (new_connector e ''cloudflare'' (or_name (ci_name b) (''cf-'' @ take 8 (ci_zone_id b)))
                [(''zone_id'', JStr (ci_zone_id b)), (''datasets'', JArr (map JStr (ci_datasets b))),
                 (''token_fingerprint'', JStr (fingerprint (ci_api_token b)))])
             (q_signing_secret e)
             [(''zone_id'', JStr (ci_zone_id b)), (''datasets'', JArr (map JStr (ci_datasets b)))] w)"

definition create_aws :: "src_env \<Rightarrow> aws_in \<Rightarrow> src_world \<Rightarrow> created_out src_reply \<times> src_world" where
  "create_aws e b w =
     (if \<not> aws_in_ok b then (Src_error 422, w)
      else if \<not> AWS_ROLE_ARN_RE (ai_role_arn b) then (Src_error 400, w)
      else if \<not> AWS_LOG_GROUP_RE (ai_log_group b) then (Src_error 400, w)
      else store_connector e
             (new_connector e ''aws'' (or_name (ai_name b) (''aws-'' @ last (py_split (CHR ''/'') (ai_log_group b))))
                [(''role_arn'', JStr (ai_role_arn b)), (''log_group'', JStr (ai_log_group b))])
             (q_signing_secret e) [(''log_group'', JStr (ai_log_group b))] w)"

definition create_webhook :: "src_env \<Rightarrow> webhook_in \<Rightarrow> src_world \<Rightarrow> created_out src_reply \<times> src_world" where
  "create_webhook e b w =
     (if \<not> webhook_in_ok b then (Src_error 422, w)
      else if wi_format b \<notin> set WEBHOOK_FORMATS then (Src_error 400, w)
      else store_connector e (new_connector e ''webhook'' (Some (wi_name b)) [(''format'', JStr (wi_format b))])
             (q_signing_secret e) [(''format'', JStr (wi_format b))] w)"

definition create_syslog :: "src_env \<Rightarrow> syslog_in \<Rightarrow> src_world \<Rightarrow> created_out src_reply \<times> src_world" where
  "create_syslog e b w =
     (if \<not> syslog_in_ok b then (Src_error 422, w)
      else if \<not> validate_syslog_host (si_host b) then (Src_error 400, w)
      else if si_protocol b \<notin> set SYSLOG_PROTOCOLS then (Src_error 400, w)
      else if \<not> validate_syslog_facility (si_facility b) then (Src_error 400, w)
      else store_connector e
             (new_connector e ''syslog'' (or_name (si_name b) (''syslog-'' @ si_host b @ '':'' @ py_str_int (si_port b)))
                ([(''host'', JStr (si_host b)), (''port'', JInt (si_port b)), (''protocol'', JStr (si_protocol b))] @
                 (case si_facility b of None \<Rightarrow> [] | Some f \<Rightarrow> [(''facility'', JStr f)])))
             []
             [(''host'', JStr (si_host b)), (''port'', JInt (si_port b)), (''protocol'', JStr (si_protocol b))] w)"

subsection \<open>Reading, testing, rotating, deleting\<close>

definition connector_to_out :: "source_connector \<Rightarrow> source_connector" where
  \<comment> \<open>without the secret, which list and status never include\<close>
  "connector_to_out c = c\<lparr>cn_api_key := []\<rparr>"

definition list_sources :: "src_world \<Rightarrow> source_connector list" where
  "list_sources w = map connector_to_out (rev (sort_key cn_created_at (src_rows w)))"

record source_status =
  ss_id :: uuid
  ss_events_received :: int
  ss_last_event_at :: "rat option"
  ss_error_count :: int
  ss_rate_per_min :: rat
  ss_status :: string

definition get_status :: "src_env \<Rightarrow> uuid \<Rightarrow> src_world \<Rightarrow> source_status src_reply" where
  "get_status e cid w =
     (case get_connector cid w of
        None \<Rightarrow> Src_error 404
      | Some c \<Rightarrow> Src_ok \<lparr>ss_id = cn_id c, ss_events_received = cn_events_received c, ss_last_event_at = cn_last_event_at c,
          ss_error_count = cn_error_count c,
          ss_rate_per_min = compute_rate_per_min (q_round2 e) (q_now e) (cn_events_received c) (cn_last_event_at c),
          ss_status = cn_status c\<rparr>)"

record test_result =
  tr_delivered :: bool
  tr_status_code :: int

definition config_text :: "source_connector \<Rightarrow> string \<Rightarrow> string" where
  "config_text c key = (case map_of (cn_config c) key of Some (JStr s) \<Rightarrow> s | _ \<Rightarrow> [])"

definition bump :: "src_env \<Rightarrow> source_connector \<Rightarrow> source_connector" where
  "bump e c = c\<lparr>cn_events_received := cn_events_received c + 1, cn_last_event_at := Some (q_now e), cn_updated_at := q_now e\<rparr>"

definition rebump :: "src_env \<Rightarrow> source_connector \<Rightarrow> source_connector" where
  "rebump e c = c\<lparr>cn_events_received := cn_events_received c + 1, cn_last_event_at := Some (q_now e)\<rparr>"

definition test_connector :: "src_env \<Rightarrow> uuid \<Rightarrow> src_world \<Rightarrow> test_result src_reply \<times> src_world" where
  \<comment> \<open>the answer without its explanatory text; an answer without \<open>detail\<close> is a 500\<close>
  "test_connector e cid w =
     (case get_connector cid w of
        None \<Rightarrow> (Src_error 404, w)
      | Some c \<Rightarrow>
          if cn_platform c = ''syslog'' then (Src_ok \<lparr>tr_delivered = True, tr_status_code = 200\<rparr>, w)
          else if cn_platform c = ''cloudflare'' then
            (if \<not> CF_ZONE_ID_RE (config_text c ''zone_id'') \<or>
                (case map_of (cn_config c) ''datasets'' of Some (JArr ds) \<Rightarrow> ds = [] | _ \<Rightarrow> True)
             then (Src_error 500, w)
             else if \<not> q_commit_ok e then (Src_error 500, w)
             else (Src_ok \<lparr>tr_delivered = True, tr_status_code = 200\<rparr>, update_connector cid (bump e) w))
          else if cn_platform c = ''aws'' then
            (if \<not> AWS_ROLE_ARN_RE (config_text c ''role_arn'') then (Src_ok \<lparr>tr_delivered = False, tr_status_code = 400\<rparr>, w)
             else if \<not> AWS_LOG_GROUP_RE (config_text c ''log_group'') then (Src_ok \<lparr>tr_delivered = False, tr_status_code = 400\<rparr>, w)
             else if \<not> q_commit_ok e then (Src_error 500, w)
             else (Src_ok \<lparr>tr_delivered = True, tr_status_code = 200\<rparr>, update_connector cid (bump e) w))
          else if \<not> q_commit_ok e then (Src_error 500, w)
          else
            (let w1 = update_connector cid (bump e) w
             in case q_selfcall e of
                  Sc_status code \<Rightarrow> (Src_ok \<lparr>tr_delivered = (code = 200), tr_status_code = code\<rparr>, w1)
                | Sc_transport_error x \<Rightarrow>
                    (Src_ok \<lparr>tr_delivered = False, tr_status_code = 0\<rparr>, update_connector cid (rebump e) w1)
                | Sc_other \<Rightarrow> (Src_error 500, w1)))"

definition rotate_connector_key :: "src_env \<Rightarrow> uuid \<Rightarrow> src_world \<Rightarrow> created_out src_reply \<times> src_world" where
  "rotate_connector_key e cid w =
     (case get_connector cid w of
        None \<Rightarrow> (Src_error 404, w)
      | Some c \<Rightarrow>
          if \<not> q_commit_ok e then (Src_error 500, w)
          else let c1 = c\<lparr>cn_api_key := q_api_key e, cn_fingerprint := fingerprint (q_api_key e), cn_updated_at := q_now e\<rparr>;
                   w1 = update_connector cid (\<lambda>_. c1) w
               in case ingest_url_for e (cn_platform c1) (cn_id c1) of
                    None \<Rightarrow> (Src_error 500, w1)
                  | Some url \<Rightarrow> (Src_ok \<lparr>co_row = c1, co_ingest_url = url,
                      co_signing_secret = (if cn_platform c1 \<noteq> ''syslog'' then q_signing_secret e else [])\<rparr>, w1))"

definition delete_connector :: "src_env \<Rightarrow> uuid \<Rightarrow> src_world \<Rightarrow> unit src_reply \<times> src_world" where
  "delete_connector e cid w =
     (case get_connector cid w of
        None \<Rightarrow> (Src_error 404, w)
      | Some c \<Rightarrow>
          if \<not> q_commit_ok e then (Src_error 500, w)
          else (Src_ok (), audit_source e ''delete source'' (cn_id c) [(''platform'', JStr (cn_platform c))]
                  (w\<lparr>src_rows := filter (\<lambda>r. cn_id r \<noteq> cid) (src_rows w)\<rparr>)))"

definition verify_webhook_signature :: "mac_fun \<Rightarrow> string \<Rightarrow> string \<Rightarrow> string \<Rightarrow> bool option" where
  "verify_webhook_signature mac secret body signature_hex =
     (if signature_hex = [] \<or> secret = [] then Some False else verify_hmac mac secret body signature_hex)"

section \<open>What the connector table guarantees\<close>

subsection \<open>The invariant\<close>

definition valid_config :: "string \<Rightarrow> json str_dict \<Rightarrow> bool" where
  "valid_config platform cfg \<longleftrightarrow>
     (if platform = ''cloudflare''
      then (\<exists>z ds fp. cfg = [(''zone_id'', JStr z), (''datasets'', JArr (map JStr ds)), (''token_fingerprint'', JStr fp)] \<and>
              length z = 32 \<and> list_all is_hex z \<and> ds \<noteq> [] \<and> set ds \<subseteq> set CF_DATASETS \<and> length fp \<le> 8)
      else if platform = ''aws''
      then (\<exists>a g. cfg = [(''role_arn'', JStr a), (''log_group'', JStr g)] \<and> AWS_ROLE_ARN_RE a \<and> AWS_LOG_GROUP_RE g)
      else if platform = ''webhook'' then (\<exists>f. cfg = [(''format'', JStr f)] \<and> f \<in> set WEBHOOK_FORMATS)
      else if platform = ''syslog''
      then (\<exists>h p t. take 3 cfg = [(''host'', JStr h), (''port'', JInt p), (''protocol'', JStr t)] \<and>
              validate_syslog_host h \<and> 1 \<le> p \<and> p \<le> 65535 \<and> t \<in> set SYSLOG_PROTOCOLS)
      else False)"

definition valid_connector :: "source_connector \<Rightarrow> bool" where
  "valid_connector c \<longleftrightarrow> cn_platform c \<in> set SUPPORTED_PLATFORMS \<and> valid_config (cn_platform c) (cn_config c) \<and>
     cn_fingerprint c = fingerprint (cn_api_key c) \<and> cn_status c = ''active'' \<and> cn_error_count c = 0 \<and>
     0 \<le> cn_events_received c \<and> (cn_events_received c = 0 \<longleftrightarrow> cn_last_event_at c = None)"

definition src_inv :: "src_world \<Rightarrow> bool" where
  "src_inv w \<longleftrightarrow> distinct (map cn_id (src_rows w)) \<and> list_all valid_connector (src_rows w)"

inductive src_step :: "src_world \<Rightarrow> src_world \<Rightarrow> bool" where
  step_cloudflare: "q_id e \<notin> cn_id ` set (src_rows w) \<Longrightarrow> src_step w (snd (create_cloudflare e b1 w))"
| step_aws: "q_id e \<notin> cn_id ` set (src_rows w) \<Longrightarrow> src_step w (snd (create_aws e b2 w))"
| step_webhook: "q_id e \<notin> cn_id ` set (src_rows w) \<Longrightarrow> src_step w (snd (create_webhook e b3 w))"
| step_syslog: "q_id e \<notin> cn_id ` set (src_rows w) \<Longrightarrow> src_step w (snd (create_syslog e b4 w))"
| step_test: "src_step w (snd (test_connector e cid w))"
| step_rotate: "src_step w (snd (rotate_connector_key e cid w))"
| step_delete: "src_step w (snd (delete_connector e cid w))"

lemma rows_audit [simp]: "src_rows (audit_source e a t x w) = src_rows w"
  by (simp add: audit_source_def)

lemma store_rows:
  "src_rows (snd (store_connector e c secret extra w)) = src_rows w \<or>
   src_rows (snd (store_connector e c secret extra w)) = src_rows w @ [c]"
  by (simp add: store_connector_def Let_def split: option.split)

lemma store_inv:
  assumes "src_inv w" "cn_id c \<notin> cn_id ` set (src_rows w)" "valid_connector c"
  shows "src_inv (snd (store_connector e c secret extra w))"
  using store_rows [of e c secret extra w] assms by (auto simp: src_inv_def)

lemma new_connector_valid:
  "platform \<in> set SUPPORTED_PLATFORMS \<Longrightarrow> valid_config platform cfg \<Longrightarrow> valid_connector (new_connector e platform name cfg)"
  by (simp add: valid_connector_def new_connector_def)

lemma id_new_connector [simp]: "cn_id (new_connector e p n c) = q_id e"
  by (simp add: new_connector_def)

lemma zone_of_length: "length z = 32 \<Longrightarrow> CF_ZONE_ID_RE z \<Longrightarrow> list_all is_hex z"
  by (auto simp: CF_ZONE_ID_RE_def py_dollar_def)

lemma length_fingerprint: "length (fingerprint s) \<le> 8"
  by (simp add: fingerprint_def)

lemma create_cloudflare_inv:
  assumes "src_inv w" "q_id e \<notin> cn_id ` set (src_rows w)"
  shows "src_inv (snd (create_cloudflare e b w))"
proof -
  have "valid_config ''cloudflare'' [(''zone_id'', JStr (ci_zone_id b)), (''datasets'', JArr (map JStr (ci_datasets b))),
      (''token_fingerprint'', JStr (fingerprint (ci_api_token b)))]"
    if "cloudflare_in_ok b" "CF_ZONE_ID_RE (ci_zone_id b)" "list_all (\<lambda>d. d \<in> set CF_DATASETS) (ci_datasets b)"
    using that zone_of_length [of "ci_zone_id b"] length_fingerprint [of "ci_api_token b"]
    by (auto simp: valid_config_def cloudflare_in_ok_def sized_def list_all_iff)
  then show ?thesis
    using assms by (auto simp: create_cloudflare_def SUPPORTED_PLATFORMS_def intro!: store_inv new_connector_valid)
qed

lemma create_aws_inv:
  assumes "src_inv w" "q_id e \<notin> cn_id ` set (src_rows w)"
  shows "src_inv (snd (create_aws e b w))"
  using assms by (auto simp: create_aws_def SUPPORTED_PLATFORMS_def valid_config_def intro!: store_inv new_connector_valid)

lemma create_webhook_inv:
  assumes "src_inv w" "q_id e \<notin> cn_id ` set (src_rows w)"
  shows "src_inv (snd (create_webhook e b w))"
  using assms by (auto simp: create_webhook_def SUPPORTED_PLATFORMS_def valid_config_def intro!: store_inv new_connector_valid)

lemma create_syslog_inv:
  assumes "src_inv w" "q_id e \<notin> cn_id ` set (src_rows w)"
  shows "src_inv (snd (create_syslog e b w))"
  using assms
  by (auto simp: create_syslog_def SUPPORTED_PLATFORMS_def valid_config_def syslog_in_ok_def intro!: store_inv new_connector_valid)

lemma update_inv:
  assumes "src_inv w" "\<And>c. valid_connector c \<Longrightarrow> valid_connector (f c)" "\<And>c. cn_id (f c) = cn_id c"
  shows "src_inv (update_connector cid f w)"
proof -
  have "map cn_id (src_rows (update_connector cid f w)) = map cn_id (src_rows w)"
    using assms(3) by (simp add: update_connector_def)
  moreover have "list_all valid_connector (src_rows (update_connector cid f w))"
    using assms(1,2) by (auto simp: update_connector_def src_inv_def list_all_iff)
  ultimately show ?thesis using assms(1) by (simp add: src_inv_def)
qed

lemma bump_valid: "valid_connector c \<Longrightarrow> valid_connector (bump e c)" "valid_connector c \<Longrightarrow> valid_connector (rebump e c)"
  by (simp_all add: valid_connector_def bump_def rebump_def)

lemma bump_inv: "src_inv w \<Longrightarrow> src_inv (update_connector cid (bump e) w)"
  by (rule update_inv) (simp_all add: bump_valid, simp add: bump_def)

lemma rebump_inv: "src_inv w \<Longrightarrow> src_inv (update_connector cid (rebump e) w)"
  by (rule update_inv) (simp_all add: bump_valid, simp add: rebump_def)

lemma test_inv: "src_inv w \<Longrightarrow> src_inv (snd (test_connector e cid w))"
  by (auto simp: test_connector_def Let_def bump_inv rebump_inv split: option.split selfcall.split)

lemma get_connector_Some: "get_connector cid w = Some c \<Longrightarrow> c \<in> set (src_rows w) \<and> cn_id c = cid"
  by (auto simp: get_connector_def find_Some_iff)

lemma rotate_inv: "src_inv w \<Longrightarrow> src_inv (snd (rotate_connector_key e cid w))"
proof (cases "get_connector cid w")
  case (Some c)
  assume inv: "src_inv w"
  have c: "valid_connector c" "cn_id c = cid"
    using inv get_connector_Some [OF Some] by (auto simp: src_inv_def list_all_iff)
  let ?c = "c\<lparr>cn_api_key := q_api_key e, cn_fingerprint := fingerprint (q_api_key e), cn_updated_at := q_now e\<rparr>"
  have "map cn_id (src_rows (update_connector cid (\<lambda>_. ?c) w)) = map cn_id (src_rows w)"
    using c(2) by (simp add: update_connector_def)
  moreover have "list_all valid_connector (src_rows (update_connector cid (\<lambda>_. ?c) w))"
    using inv c(1) by (auto simp: update_connector_def src_inv_def list_all_iff valid_connector_def)
  ultimately have "src_inv (update_connector cid (\<lambda>_. ?c) w)" using inv by (simp add: src_inv_def)
  then show ?thesis using inv Some by (auto simp: rotate_connector_key_def Let_def split: option.split)
qed (simp add: rotate_connector_key_def)

lemma delete_inv: "src_inv w \<Longrightarrow> src_inv (snd (delete_connector e cid w))"
  by (auto simp: delete_connector_def src_inv_def list_all_iff distinct_map intro: inj_on_subset split: option.split)

interpretation sources: inv_system src_step src_inv
  by unfold_locales
    (auto elim!: src_step.cases intro: create_cloudflare_inv create_aws_inv create_webhook_inv create_syslog_inv test_inv rotate_inv delete_inv)

definition no_sources :: "audit_state \<Rightarrow> src_world" where
  "no_sources a = \<lparr>src_rows = [], src_audit = a\<rparr>"


lemma reachable_inv: "src_step\<^sup>*\<^sup>* (no_sources a) w \<Longrightarrow> src_inv w"
  by (erule sources.run_inv) (simp add: src_inv_def no_sources_def)

text \<open>
  C16: The connector table stays well-formed.  After any sequence of creations, tests,
  rotations and deletions, identifiers are unique and every row has a supported platform, a
  configuration that passed the checks of its platform, the fingerprint of its own key and
  matching counters; so a test of a connector that is not a webhook always finds its stored
  configuration valid.  No operation ever sets a status other than \<open>active\<close> or counts an
  error.
\<close>

theorem sources_invariant:
  assumes "src_step\<^sup>*\<^sup>* (no_sources a) w"
  shows "distinct (map cn_id (src_rows w)) \<and> list_all valid_connector (src_rows w) \<and>
    (case get_connector cid w of
       None \<Rightarrow> fst (test_connector e cid w) = Src_error 404
     | Some c \<Rightarrow> cn_platform c = ''webhook'' \<or> \<not> q_commit_ok e \<or>
         fst (test_connector e cid w) = Src_ok \<lparr>tr_delivered = True, tr_status_code = 200\<rparr>)"
proof -
  have inv: "src_inv w" using assms by (rule reachable_inv)
  have "fst (test_connector e cid w) = Src_ok \<lparr>tr_delivered = True, tr_status_code = 200\<rparr>"
    if c: "get_connector cid w = Some c" "cn_platform c \<noteq> ''webhook''" "q_commit_ok e" for c
  proof -
    have v: "valid_config (cn_platform c) (cn_config c)" "cn_platform c \<in> {''cloudflare'', ''aws'', ''syslog''}"
      using inv get_connector_Some [OF c(1)] c(2)
      by (auto simp: src_inv_def list_all_iff valid_connector_def SUPPORTED_PLATFORMS_def)
    then show ?thesis
      using c by (auto simp: test_connector_def valid_config_def config_text_def CF_ZONE_ID_RE_def py_dollar_def)
  qed
  then show ?thesis
    using inv by (cases "get_connector cid w") (auto simp only: src_inv_def option.case, simp add: test_connector_def)
qed

definition demo_src_env :: src_env where
  "demo_src_env = \<lparr>q_id = ''c1'', q_api_key = ''0123456789abcdef'', q_signing_secret = ''sig'', q_now = 100, q_base_url = ''http://s/'',
     q_role = None, q_commit_ok = True, q_selfcall = Sc_transport_error ''ConnectError'', q_round2 = (\<lambda>x. x),
     q_audit = \<lparr>a_today = ''d'', a_now_iso = ''t'', a_open_ok = True, a_write_ok = True\<rparr>\<rparr>"

definition demo_src_world :: src_world where
  "demo_src_world = no_sources (ig_audit demo_ingest_world)"

definition demo_hook :: webhook_in where
  "demo_hook = \<lparr>wi_name = ''n'', wi_format = ''generic''\<rparr>"

theorem sources_invariant_witness:
  "distinct (map cn_id (src_rows (snd (create_webhook demo_src_env demo_hook demo_src_world)))) \<and>
   length (src_rows (snd (create_webhook demo_src_env demo_hook demo_src_world))) = 1"
proof -
  have "src_step\<^sup>*\<^sup>* demo_src_world (snd (create_webhook demo_src_env demo_hook demo_src_world))"
    by (intro r_into_rtranclp step_webhook) (simp add: demo_src_world_def no_sources_def)
  moreover have "length (src_rows (snd (create_webhook demo_src_env demo_hook demo_src_world))) = 1"
    by (simp add: create_webhook_def demo_hook_def webhook_in_ok_def sized_def WEBHOOK_FORMATS_def store_connector_def
        demo_src_env_def row_fits_def opt_sized_def new_connector_def ingest_url_for_def demo_src_world_def no_sources_def Let_def)
  ultimately show ?thesis
    using sources_invariant [of "ig_audit demo_ingest_world"] by (simp add: demo_src_world_def)
qed

subsection \<open>Secrets\<close>

lemma sort_key_map_same:
  assumes "\<And>x. g (h x) = g x"
  shows "map h (sort_key g xs) = sort_key g (map h xs)"
proof -
  have "map h (insort_key g x ys) = insort_key g (h x) (map h ys)" for x ys
    by (induction ys) (simp_all add: assms)
  then show ?thesis by (induction xs) simp_all
qed

lemma find_same_out:
  assumes "map connector_to_out cs = map connector_to_out ds"
  shows "map_option connector_to_out (find (\<lambda>c. cn_id c = cid) cs) = map_option connector_to_out (find (\<lambda>c. cn_id c = cid) ds)"
  using assms
proof (induction cs arbitrary: ds)
  case (Cons c cs)
  then obtain d ds' where d: "ds = d # ds'" "connector_to_out c = connector_to_out d"
      "map connector_to_out cs = map connector_to_out ds'" by (cases ds) auto
  then have "cn_id c = cn_id d" by (metis connector_to_out_def source_connector.select_convs(1) source_connector.surjective
        source_connector.update_convs(5))
  then show ?case using Cons.IH d by simp
qed simp

lemma out_fields:
  assumes "connector_to_out c = connector_to_out d"
  shows "cn_id c = cn_id d" "cn_platform c = cn_platform d" "cn_config c = cn_config d" "cn_status c = cn_status d"
    "cn_events_received c = cn_events_received d" "cn_error_count c = cn_error_count d" "cn_last_event_at c = cn_last_event_at d"
  using assms by (cases c; cases d; simp add: connector_to_out_def)+



definition demo_row :: "string \<Rightarrow> source_connector" where
  "demo_row key = (new_connector demo_src_env ''webhook'' (Some ''n'') [(''format'', JStr ''generic'')])\<lparr>cn_api_key := key\<rparr>"


subsection \<open>Where the code fails\<close>

text \<open>
  A syslog connector is stored but never handed out.  A valid create request commits the
  row and then fails with 500, without an audit entry and without telling the caller its
  identifier or key, and a rotation of such a connector replaces the key before it fails the
  same way: the branch of \<open>_ingest_url_for\<close> for syslog reads a name that is not bound.
\<close>

theorem syslog_connectors_unusable:
  assumes "syslog_in_ok b" "validate_syslog_host (si_host b)" "si_protocol b \<in> set SYSLOG_PROTOCOLS"
    "validate_syslog_facility (si_facility b)" "q_commit_ok e" "si_name b = Some n" "n \<noteq> []"
  shows "\<exists>c. create_syslog e b w = (Src_error 500, w\<lparr>src_rows := src_rows w @ [c]\<rparr>) \<and> cn_platform c = ''syslog'' \<and>
    cn_id c = q_id e \<and> cn_api_key c = q_api_key e \<and>
    (q_id e \<notin> cn_id ` set (src_rows w) \<and> q_commit_ok e' \<longrightarrow>
       (\<exists>v. rotate_connector_key e' (q_id e) (w\<lparr>src_rows := src_rows w @ [c]\<rparr>) = (Src_error 500, v) \<and>
          map_option cn_api_key (get_connector (q_id e) v) = Some (q_api_key e')))"
proof -
  let ?c = "new_connector e ''syslog'' (or_name (si_name b) (''syslog-'' @ si_host b @ '':'' @ py_str_int (si_port b)))
      ([(''host'', JStr (si_host b)), (''port'', JInt (si_port b)), (''protocol'', JStr (si_protocol b))] @
       (case si_facility b of None \<Rightarrow> [] | Some f \<Rightarrow> [(''facility'', JStr f)]))"
  let ?w = "w\<lparr>src_rows := src_rows w @ [?c]\<rparr>"
  have fit: "row_fits ?c" using assms(1,6,7) by (simp add: row_fits_def new_connector_def or_name_def syslog_in_ok_def)
  have "ingest_url_for x ''syslog'' i = None" for x i by (simp add: ingest_url_for_def Let_def)
  then have create: "create_syslog e b w = (Src_error 500, ?w)"
    using assms(1-5) fit by (simp add: create_syslog_def store_connector_def Let_def) (simp add: new_connector_def)
  have "\<exists>v. rotate_connector_key e' (q_id e) ?w = (Src_error 500, v) \<and> map_option cn_api_key (get_connector (q_id e) v) = Some (q_api_key e')"
    if fresh: "q_id e \<notin> cn_id ` set (src_rows w)" and "q_commit_ok e'"
  proof -
    have g: "find (\<lambda>c. cn_id c = q_id e) (rows @ [?c]) = Some ?c" if "q_id e \<notin> cn_id ` set rows" for rows
      using that by (induction rows) auto
    have m: "find (\<lambda>c. cn_id c = q_id e) (map (\<lambda>c. if cn_id c = q_id e then x else c) rows @ [x]) = Some x"
      if "q_id e \<notin> cn_id ` set rows" "cn_id x = q_id e" for rows x
      using that by (induction rows) auto
    show ?thesis
      using \<open>ingest_url_for e' ''syslog'' (q_id e) = None\<close> g [OF fresh] m [OF fresh] that(2)
      by (simp add: rotate_connector_key_def get_connector_def Let_def update_connector_def) (simp add: new_connector_def)
  qed
  then show ?thesis using create by (intro exI [of _ ?c]) (simp add: new_connector_def)
qed

text \<open>
  A failed webhook test counts twice.  When the call to itself fails in transport, the
  test raises the event counter of the connector by two, although nothing was received: the
  first increment is already committed when the handler rolls back and increments again.
\<close>

theorem webhook_test_counts_twice:
  assumes "get_connector cid w = Some c" "cn_platform c = ''webhook''" "q_commit_ok e"
    "q_selfcall e = Sc_transport_error x"
  shows "fst (test_connector e cid w) = Src_ok \<lparr>tr_delivered = False, tr_status_code = 0\<rparr> \<and>
    map_option cn_events_received (get_connector cid (snd (test_connector e cid w))) = Some (cn_events_received c + 2)"
proof -
  have two: "map_option cn_events_received (find (\<lambda>c. cn_id c = cid)
        (map (\<lambda>c. if cn_id c = cid then rebump e c else c) (map (\<lambda>c. if cn_id c = cid then bump e c else c) rows))) =
      map_option (\<lambda>c. cn_events_received c + 2) (find (\<lambda>c. cn_id c = cid) rows)" for rows
    by (induction rows) (auto simp: bump_def rebump_def)
  show ?thesis
    using assms two [of "src_rows w"] unfolding get_connector_def
    by (simp add: test_connector_def get_connector_def Let_def update_connector_def)
qed

definition demo_hooked :: src_world where
  "demo_hooked = snd (create_webhook demo_src_env demo_hook demo_src_world)"

lemma demo_hooked_eq:
  "get_connector ''c1'' demo_hooked = Some (new_connector demo_src_env ''webhook'' (Some ''n'') [(''format'', JStr ''generic'')])"
  by (simp add: demo_hooked_def create_webhook_def demo_hook_def webhook_in_ok_def sized_def WEBHOOK_FORMATS_def store_connector_def
      demo_src_env_def row_fits_def opt_sized_def new_connector_def ingest_url_for_def demo_src_world_def no_sources_def Let_def
      get_connector_def)

theorem webhook_test_counts_twice_witness:
  "map_option cn_events_received (get_connector ''c1'' (snd (test_connector demo_src_env ''c1'' demo_hooked))) = Some 2"
  using webhook_test_counts_twice [OF demo_hooked_eq, of demo_src_env "''ConnectError''"]
  by (simp add: new_connector_def demo_src_env_def)

definition demo_syslog :: syslog_in where
  "demo_syslog = \<lparr>si_host = ''10.0.0.5'', si_port = 514, si_protocol = ''udp'', si_facility = None, si_name = Some ''fw''\<rparr>"

theorem syslog_connectors_unusable_witness:
  "\<exists>c. create_syslog demo_src_env demo_syslog demo_src_world = (Src_error 500, demo_src_world\<lparr>src_rows := [c]\<rparr>)"
proof -
  have h: "validate_syslog_host ''10.0.0.5''" by code_simp
  have ok: "syslog_in_ok demo_syslog" "si_protocol demo_syslog \<in> set SYSLOG_PROTOCOLS" "validate_syslog_facility (si_facility demo_syslog)"
    by (simp_all add: demo_syslog_def syslog_in_ok_def sized_def opt_sized_def SYSLOG_PROTOCOLS_def validate_syslog_facility_def)
  have "\<exists>c. create_syslog demo_src_env demo_syslog demo_src_world =
      (Src_error 500, demo_src_world\<lparr>src_rows := src_rows demo_src_world @ [c]\<rparr>)"
    using syslog_connectors_unusable [of demo_syslog demo_src_env "''fw''" demo_src_world demo_src_env] h ok
    by (auto simp: demo_syslog_def demo_src_env_def)
  then show ?thesis by (simp add: demo_src_world_def no_sources_def)
qed

end
