(* ===== verification/Rules_Studio.thy ===== *)
theory Rules_Studio
  imports Sigma Regex "HOL-Library.List_Lexorder" "HOL-Library.Countable"
begin

section \<open>The rules studio\<close>

text \<open>
  \<open>api/v1/rules_studio.py\<close>: listing, reading, creating, replacing, deleting and trying
  Sigma rules.  The two rule directories are association lists from the path below the
  directory to the text of the file, in the order \<open>rglob\<close> visits them.  PyYAML is a
  parameter (\<open>rs_load\<close>, \<open>None\<close> a \<open>YAMLError\<close>; \<open>rs_dump\<close>), as is pydantic's
  conversion of other values to integers.  A handler returns its status code on the left:
  the code of its \<open>HTTPException\<close>, or 500 for an exception nobody handles.  File system
  errors are left out, and so is the random part of the temporary file of the atomic write.
\<close>

record rs_env =
  rs_load :: "string \<Rightarrow> json option"
  rs_dump :: "json \<Rightarrow> string"
  rs_sigma :: sigma_env
  rs_int :: "json \<Rightarrow> int option"
  rs_fresh :: string            \<comment> \<open>the first eight hexadecimal digits of a new UUID\<close>
  rs_now :: string              \<comment> \<open>the clock reading in ISO format\<close>

abbreviation rs_T :: "rs_env \<Rightarrow> py_texts" where
  "rs_T e \<equiv> sg_texts (rs_sigma e)"

type_synonym rule_dir = "(string \<times> string) list"

record studio =
  st_builtin :: rule_dir
  st_custom :: rule_dir
  st_signal :: "string option"

subsection \<open>Identifiers\<close>

definition rule_id_char :: "char \<Rightarrow> bool" where
  "rule_id_char c \<longleftrightarrow> py_isalnum c \<or> c \<in> set ''_.-''"

definition RULE_ID_PATTERN :: "string \<Rightarrow> bool" where
  "RULE_ID_PATTERN = py_dollar (\<lambda>s. 1 \<le> length s \<and> length s \<le> 64 \<and> list_all rule_id_char s)"

definition validate_rule_id :: "string \<Rightarrow> int + string" where
  "validate_rule_id rule_id = (if RULE_ID_PATTERN rule_id then Inr rule_id else Inl 400)"

definition id_edge :: "char \<Rightarrow> bool" where
  "id_edge c \<longleftrightarrow> (97 \<le> ord c \<and> ord c \<le> 122) \<or> py_isdigit c"

definition ID_RE :: "string \<Rightarrow> bool" where
  "ID_RE = py_dollar (\<lambda>s. 3 \<le> length s \<and> length s \<le> 64 \<and> id_edge (hd s) \<and> id_edge (last s) \<and>
     list_all (\<lambda>c. id_edge c \<or> c = CHR ''-'') s)"

fun sub_runs :: "(char \<Rightarrow> bool) \<Rightarrow> bool \<Rightarrow> string \<Rightarrow> string" where
  \<comment> \<open>\<open>re.sub(r"[^...]+", "-", s)\<close>: every maximal run of other characters becomes one hyphen\<close>
  "sub_runs good in_run [] = []"
| "sub_runs good in_run (c # s) =
     (if good c then c # sub_runs good False s
      else if in_run then sub_runs good True s else CHR ''-'' # sub_runs good True s)"

definition strip_hyphens :: "string \<Rightarrow> string" where
  "strip_hyphens s = py_rstrip (\<lambda>c. c = CHR ''-'') (py_lstrip (\<lambda>c. c = CHR ''-'') s)"

definition sanitize_rule_id :: "rs_env \<Rightarrow> string option \<Rightarrow> string \<Rightarrow> int + string" where
  "sanitize_rule_id e raw title =
     (case raw of
        Some (c # r) \<Rightarrow> if ID_RE (c # r) then Inr (c # r) else Inl 422
      | _ \<Rightarrow>
          let fresh = ''rule-'' @ rs_fresh e;
              cleaned = strip_hyphens (sub_runs (\<lambda>c. id_edge c \<or> c = CHR ''-'') False (py_lower title));
              cleaned1 = (if cleaned = [] then fresh else cleaned);
              cleaned2 = strip_hyphens (take 64 cleaned1)
          in Inr (if ID_RE cleaned2 then cleaned2 else fresh))"

subsection \<open>Conditions\<close>

definition re_fullmatch :: "re \<Rightarrow> string \<Rightarrow> bool" where
  "re_fullmatch r s \<longleftrightarrow> [] \<in> set (ends r s)"

definition SP :: re where "SP = Plus py_isspace"

definition cond_not_re :: re where
  \<comment> \<open>\<open>selection\s+and\s+not\s+\w+\<close>\<close>
  "cond_not_re = seqs [Regex.Lit ''selection'', SP, Regex.Lit ''and'', SP, Regex.Lit ''not'', SP, Plus py_isword]"

definition cond_group_re :: re where
  \<comment> \<open>\<open>selection\s+and\s+\([^)]+\)\<close>\<close>
  "cond_group_re = seqs [Regex.Lit ''selection'', SP, Regex.Lit ''and'', SP, Regex.Lit ''('',
     Plus (\<lambda>c. c \<noteq> CHR '')''), Regex.Lit '')'']"

definition cond_group_not_re :: re where
  \<comment> \<open>\<open>selection\s+and\s+\([^)]+\)\s+and\s+not\s+\w+\<close>\<close>
  "cond_group_not_re = seqs [Regex.Lit ''selection'', SP, Regex.Lit ''and'', SP, Regex.Lit ''('',
     Plus (\<lambda>c. c \<noteq> CHR '')''), Regex.Lit '')'', SP, Regex.Lit ''and'', SP, Regex.Lit ''not'', SP, Plus py_isword]"

definition validate_condition :: "string option \<Rightarrow> int + string" where
  "validate_condition condition =
     (case condition of
        None \<Rightarrow> Inr ''selection''
      | Some c \<Rightarrow>
          let cond = py_strip c
          in if cond = ''selection'' \<or> re_fullmatch cond_not_re cond \<or> re_fullmatch cond_group_re cond \<or>
                re_fullmatch cond_group_not_re cond
             then Inr cond else Inl 422)"

subsection \<open>Reading rules\<close>

definition tag_match :: "string \<Rightarrow> string option" where
  \<comment> \<open>\<open>t?\d{4}(?:\.\d{3})?\<close> at the start, ignoring case\<close>
  "tag_match s =
     (let digits4 = (\<lambda>s. length s \<ge> 4 \<and> list_all py_isdigit (take 4 s));
          sub = (\<lambda>s. case s of c # t \<Rightarrow> if c = CHR ''.'' \<and> length t \<ge> 3 \<and> list_all py_isdigit (take 3 t) then c # take 3 t else []
                    | [] \<Rightarrow> [])
      in case s of
           [] \<Rightarrow> None
         | c # t \<Rightarrow>
             if (c = CHR ''t'' \<or> c = CHR ''T'') \<and> digits4 t then Some (c # take 4 t @ sub (drop 4 t))
             else if digits4 s then Some (take 4 s @ sub (drop 4 s))
             else None)"

fun tag_search :: "string \<Rightarrow> string option" where
  "tag_search [] = None"
| "tag_search (c # s) = (case tag_match (c # s) of Some m \<Rightarrow> Some m | None \<Rightarrow> tag_search s)"

definition iter_values :: "py_texts \<Rightarrow> json \<Rightarrow> (json list) option" where
  \<comment> \<open>\<open>for x in (v or [])\<close>; \<open>None\<close> is the \<open>TypeError\<close> of a value that is not iterable\<close>
  "iter_values T v =
     (if \<not> py_truthy T v then Some []
      else case v of
        JArr vs \<Rightarrow> Some vs
      | JObj kvs \<Rightarrow> Some (map (JStr \<circ> fst) kvs)
      | JStr s \<Rightarrow> Some (map (\<lambda>c. JStr [c]) s)
      | _ \<Rightarrow> None)"

fun first_mitre :: "json list \<Rightarrow> string option" where
  "first_mitre [] = None"
| "first_mitre (JStr s # vs) = (case tag_search s of Some m \<Rightarrow> Some (py_upper m) | None \<Rightarrow> first_mitre vs)"
| "first_mitre (v # vs) = first_mitre vs"

definition collect_mitre :: "py_texts \<Rightarrow> json str_dict \<Rightarrow> int + string option" where
  "collect_mitre T rule =
     (case iter_values T (dict_get rule ''tags'' (JArr [])) of None \<Rightarrow> Inl 500 | Some vs \<Rightarrow> Inr (first_mitre vs))"

definition get_or_empty :: "py_texts \<Rightarrow> json str_dict \<Rightarrow> string \<Rightarrow> json" where
  \<comment> \<open>\<open>d.get(k) or {}\<close>\<close>
  "get_or_empty T d k = or_else T d k (JObj [])"

definition opt_str :: "json \<Rightarrow> int + string option" where
  \<comment> \<open>a field declared \<open>str | None\<close>\<close>
  "opt_str v = (case v of JNull \<Rightarrow> Inr None | JStr s \<Rightarrow> Inr (Some s) | _ \<Rightarrow> Inl 500)"

record rule_summary =
  su_id :: string
  su_title :: string
  su_level :: string
  su_source :: string
  su_description :: "string option"
  su_mitre :: "string option"
  su_logsource :: "string option"
  su_path :: string

definition LEVELS :: "string list" where
  "LEVELS = [''low'', ''medium'', ''high'', ''critical'']"

definition path_stem :: "string \<Rightarrow> string" where
  \<comment> \<open>the last component without its suffix \<open>.yml\<close> or \<open>.yaml\<close>\<close>
  "path_stem p =
     (let name = last (py_split (CHR ''/'') p)
      in if name = ''.yml'' \<or> name = ''.yaml'' then name
         else if py_endswith name ''.yaml'' then drop_last 5 name else drop_last 4 name)"

definition strip_or_none :: "string \<Rightarrow> string option" where
  "strip_or_none s = (if py_strip s = [] then None else Some (py_strip s))"

definition summarize_rule :: "rs_env \<Rightarrow> string \<Rightarrow> string \<Rightarrow> string \<Rightarrow> int + rule_summary option" where
  \<comment> \<open>one file of a directory: its path, its text, the source label\<close>
  "summarize_rule e source path content =
     (case rs_load e content of
        Some (JObj data) \<Rightarrow>
          (let T = rs_T e; rule_id = py_str T (or_else T data ''id'' (JStr (path_stem path)));
               desc = dict_get data ''description'' JNull; level = or_else T data ''level'' (JStr ''medium'')
           in case get_or_empty T data ''detection'' of
                JObj detection \<Rightarrow>
                  (case get_or_empty T detection ''selection'' of
                     JObj selection \<Rightarrow>
                       bind_res (case desc of JStr s \<Rightarrow> Inr (strip_or_none s) | _ \<Rightarrow> opt_str desc) (\<lambda>description.
                       bind_res (collect_mitre T data) (\<lambda>mitre.
                         Inr (Some \<lparr>su_id = rule_id, su_title = py_str T (or_else T data ''title'' (JStr rule_id)),
                           su_level = (case level of JStr l \<Rightarrow> if l \<in> set LEVELS then l else ''medium'' | _ \<Rightarrow> ''medium''),
                           su_source = source, su_description = description, su_mitre = mitre,
                           su_logsource = (case dict_get selection ''source'' JNull of JStr s \<Rightarrow> Some s | _ \<Rightarrow> None),
                           su_path = path\<rparr>)))
                   | _ \<Rightarrow> Inl 500)
              | _ \<Rightarrow> Inl 500)
      | _ \<Rightarrow> Inr None)"

definition glob_files :: "rule_dir \<Rightarrow> rule_dir" where
  \<comment> \<open>\<open>*.yml\<close> before \<open>*.yaml\<close>\<close>
  "glob_files d = filter (\<lambda>f. py_endswith (fst f) ''.yml'') d @ filter (\<lambda>f. py_endswith (fst f) ''.yaml'') d"

fun summaries :: "rs_env \<Rightarrow> string \<Rightarrow> rule_dir \<Rightarrow> string list \<Rightarrow> int + (rule_summary list \<times> string list)" where
  "summaries e source [] seen = Inr ([], seen)"
| "summaries e source ((p, t) # fs) seen =
     bind_res (summarize_rule e source p t) (\<lambda>r.
       case r of
         None \<Rightarrow> summaries e source fs seen
       | Some s \<Rightarrow>
           let key = source @ '':'' @ su_id s
           in if key \<in> set seen then summaries e source fs seen
              else bind_res (summaries e source fs (key # seen)) (\<lambda>(out, seen'). Inr (s # out, seen')))"

definition list_rules :: "rs_env \<Rightarrow> studio \<Rightarrow> int + rule_summary list" where
  \<comment> \<open>custom rules first, each group by title in lower case; the sort is stable\<close>
  "list_rules e s =
     bind_res (summaries e ''builtin'' (glob_files (st_builtin s)) []) (\<lambda>(bs, seen).
     bind_res (summaries e ''custom'' (glob_files (st_custom s)) seen) (\<lambda>(cs, seen').
       let by_title = sort_key (\<lambda>r. map ord (py_lower (su_title r)))
       in Inr (by_title cs @ by_title bs)))"

subsection \<open>One rule\<close>

record rule_detail =
  rd_id :: string
  rd_title :: string
  rd_level :: string
  rd_source :: string
  rd_description :: "string option"
  rd_mitre :: "string option"
  rd_logsource :: "string option"
  rd_path :: string
  rd_yaml :: string
  rd_detection :: "json str_dict"
  rd_condition :: string
  rd_timeframe :: "string option"
  rd_count :: "int option"
  rd_cooldown :: "int option"
  rd_dedup :: "string option"
  rd_action :: "json str_dict option"
  rd_tags :: "string list"

definition first_existing :: "string \<Rightarrow> studio \<Rightarrow> (string \<times> string) option" where
  \<comment> \<open>text and source, custom before builtin, \<open>yml\<close> before \<open>yaml\<close>\<close>
  "first_existing rule_id s =
     (case (map_of (st_custom s) (rule_id @ ''.yml''), map_of (st_custom s) (rule_id @ ''.yaml''),
            map_of (st_builtin s) (rule_id @ ''.yml''), map_of (st_builtin s) (rule_id @ ''.yaml'')) of
        (Some t, _) \<Rightarrow> Some (t, ''custom'')
      | (None, Some t, _) \<Rightarrow> Some (t, ''custom'')
      | (None, None, Some t, _) \<Rightarrow> Some (t, ''builtin'')
      | (None, None, None, Some t) \<Rightarrow> Some (t, ''builtin'')
      | _ \<Rightarrow> None)"

definition read_rule_detail :: "rs_env \<Rightarrow> string \<Rightarrow> studio \<Rightarrow> int + (string \<times> json str_dict \<times> string)" where
  "read_rule_detail e rule_id s =
     bind_res (validate_rule_id rule_id) (\<lambda>_.
       case first_existing rule_id s of
         None \<Rightarrow> Inl 404
       | Some (content, source) \<Rightarrow>
           (case rs_load e content of
              None \<Rightarrow> Inl 500
            | Some v \<Rightarrow>
                if \<not> py_truthy (rs_T e) v then Inr (content, [], source)
                else case v of JObj parsed \<Rightarrow> Inr (content, parsed, source) | _ \<Rightarrow> Inl 422))"

definition int_or_none :: "rs_env \<Rightarrow> json \<Rightarrow> int + int option" where
  \<comment> \<open>a field declared \<open>int | None\<close>\<close>
  "int_or_none e v = (case v of
      JNull \<Rightarrow> Inr None | JInt n \<Rightarrow> Inr (Some n)
    | _ \<Rightarrow> (case rs_int e v of None \<Rightarrow> Inl 500 | Some n \<Rightarrow> Inr (Some n)))"

definition opt_dict :: "json \<Rightarrow> int + json str_dict option" where
  "opt_dict v = (case v of JNull \<Rightarrow> Inr None | JObj d \<Rightarrow> Inr (Some d) | _ \<Rightarrow> Inl 500)"

fun str_list :: "json list \<Rightarrow> int + string list" where
  "str_list [] = Inr []"
| "str_list (JStr s # vs) = bind_res (str_list vs) (\<lambda>ss. Inr (s # ss))"
| "str_list (v # vs) = Inl 500"

definition count_field :: "py_texts \<Rightarrow> json \<Rightarrow> int + int option" where
  \<comment> \<open>\<open>int(x) if x is not None else None\<close>\<close>
  "count_field T v = (case v of
      JNull \<Rightarrow> Inr None | _ \<Rightarrow> (case py_int_of T v of None \<Rightarrow> Inl 500 | Some n \<Rightarrow> Inr (Some n)))"

definition resolve_path :: "string \<Rightarrow> string \<Rightarrow> string" where
  \<comment> \<open>the path below the server root\<close>
  "resolve_path source rule_id =
     (if source = ''builtin'' then ''rules/builtin/'' else ''rules/custom/'') @ rule_id @ ''.yml''"

definition detail_of :: "rs_env \<Rightarrow> string \<Rightarrow> string \<Rightarrow> json str_dict \<Rightarrow> string \<Rightarrow> int + rule_detail" where
  "detail_of e rule_id content parsed source =
     (let T = rs_T e in
      case get_or_empty T parsed ''detection'' of
        JObj detection \<Rightarrow>
          bind_res (case or_else T parsed ''level'' (JStr ''medium'') of
                      JStr l \<Rightarrow> if l \<in> set LEVELS then Inr l else Inl 500 | _ \<Rightarrow> Inl 500) (\<lambda>level.
          bind_res (collect_mitre T parsed) (\<lambda>mitre.
          bind_res (case get_or_empty T detection ''selection'' of
                      JObj selection \<Rightarrow> opt_str (dict_get selection ''source'' JNull) | _ \<Rightarrow> Inr None) (\<lambda>logsource.
          bind_res (count_field T (dict_get detection ''count'' JNull)) (\<lambda>count.
          bind_res (int_or_none e (dict_get parsed ''cooldown_sec'' JNull)) (\<lambda>cooldown.
          bind_res (opt_str (dict_get parsed ''dedup_key'' JNull)) (\<lambda>dedup.
          bind_res (opt_dict (dict_get parsed ''action'' JNull)) (\<lambda>action.
          bind_res (case iter_values T (dict_get parsed ''tags'' JNull) of None \<Rightarrow> Inl 500 | Some vs \<Rightarrow> str_list vs) (\<lambda>tags.
            Inr \<lparr>rd_id = py_str T (or_else T parsed ''id'' (JStr rule_id)),
                 rd_title = py_str T (or_else T parsed ''title'' (JStr rule_id)),
                 rd_level = level, rd_source = source,
                 rd_description = (case dict_get parsed ''description'' JNull of JStr d \<Rightarrow> strip_or_none d | _ \<Rightarrow> None),
                 rd_mitre = mitre, rd_logsource = logsource, rd_path = resolve_path source rule_id,
                 rd_yaml = content, rd_detection = detection,
                 rd_condition = py_str T (or_else T detection ''condition'' (JStr ''selection'')),
                 rd_timeframe = (case dict_get detection ''timeframe'' JNull of JNull \<Rightarrow> None | v \<Rightarrow> Some (py_str T v)),
                 rd_count = count, rd_cooldown = cooldown, rd_dedup = dedup, rd_action = action, rd_tags = tags\<rparr>))))))))
      | _ \<Rightarrow> Inl 500)"

definition get_rule :: "rs_env \<Rightarrow> string \<Rightarrow> studio \<Rightarrow> int + rule_detail" where
  "get_rule e rule_id s =
     bind_res (read_rule_detail e rule_id s) (\<lambda>(content, parsed, source). detail_of e rule_id content parsed source)"

subsection \<open>Writing rules\<close>

record rule_in =
  ri_title :: string
  ri_id :: "string option"
  ri_level :: string
  ri_description :: "string option"
  ri_logsource :: "string option"
  ri_mitre :: "string option"
  ri_detection :: "json str_dict"
  ri_condition :: "string option"
  ri_timeframe :: "string option"
  ri_count :: "int option"
  ri_cooldown :: "int option"
  ri_dedup :: "string option"
  ri_action :: "json str_dict option"
  ri_tags :: "string list"
  ri_required :: "string list"

definition detection_has_selection :: "json str_dict \<Rightarrow> bool" where
  "detection_has_selection v = (case map_of v ''selection'' of Some (JObj sel) \<Rightarrow> True | _ \<Rightarrow> False)"

definition rule_in_ok :: "rule_in \<Rightarrow> bool" where
  "rule_in_ok b \<longleftrightarrow> 1 \<le> length (ri_title b) \<and> length (ri_title b) \<le> 200 \<and> ri_level b \<in> set LEVELS \<and>
     detection_has_selection (ri_detection b)"

definition truthy_text :: "string option \<Rightarrow> bool" where
  "truthy_text v = (case v of None \<Rightarrow> False | Some s \<Rightarrow> s \<noteq> [])"

definition set_source :: "string option \<Rightarrow> json str_dict \<Rightarrow> json str_dict" where
  \<comment> \<open>the log source becomes a field of the selection unless it has one\<close>
  "set_source ls det =
     (if truthy_text ls
      then (case map_of det ''selection'' of
              Some (JObj sel) \<Rightarrow>
                if map_of sel ''source'' = None
                then dict_set ''selection'' (JObj (dict_set ''source'' (JStr (the ls)) sel)) det else det
            | _ \<Rightarrow> det)
      else det)"

definition rule_doc :: "string \<Rightarrow> rule_in \<Rightarrow> string \<Rightarrow> json str_dict" where
  "rule_doc rule_id body condition =
     (let d1 = dict_set ''condition'' (JStr condition) (ri_detection body);
          d2 = (case ri_timeframe body of None \<Rightarrow> d1 | Some t \<Rightarrow> dict_set ''timeframe'' (JStr t) d1);
          d3 = (case ri_count body of None \<Rightarrow> d2 | Some n \<Rightarrow> dict_set ''count'' (JInt n) d2);
          tags = (if truthy_text (ri_mitre body) then [''attack.'' @ py_lower (the (ri_mitre body))] else []) @ ri_tags body
      in [(''title'', JStr (ri_title body)), (''id'', JStr rule_id), (''level'', JStr (ri_level body)),
          (''detection'', JObj (set_source (ri_logsource body) d3))] @
         (if truthy_text (ri_description body) then [(''description'', JStr (py_strip (the (ri_description body))))] else []) @
         (if tags \<noteq> [] then [(''tags'', JArr (map JStr tags))] else []) @
         (case ri_cooldown body of None \<Rightarrow> [] | Some n \<Rightarrow> [(''cooldown_sec'', JInt n)]) @
         (if truthy_text (ri_dedup body) then [(''dedup_key'', JStr (the (ri_dedup body)))] else []) @
         (case ri_action body of Some (kv # a) \<Rightarrow> [(''action'', JObj (kv # a))] | _ \<Rightarrow> []) @
         (if ri_required body \<noteq> [] then [(''required_fields'', JArr (map JStr (ri_required body)))] else []))"

definition build_yaml :: "rs_env \<Rightarrow> string \<Rightarrow> rule_in \<Rightarrow> string \<Rightarrow> string" where
  "build_yaml e rule_id body condition = rs_dump e (JObj (rule_doc rule_id body condition))"

definition parse_text :: "rs_env \<Rightarrow> string \<Rightarrow> sigma_error + sigma_rule list" where
  \<comment> \<open>\<open>parse_rule_file\<close> of a file with this text\<close>
  "parse_text e t = parse_rule_file (rs_T e) (case rs_load e t of None \<Rightarrow> Yaml_error | Some v \<Rightarrow> Yaml v)"

definition atomic_write_custom :: "string \<Rightarrow> string \<Rightarrow> studio \<Rightarrow> studio" where
  "atomic_write_custom name content s = s\<lparr>st_custom := dict_set name content (st_custom s)\<rparr>"

definition load_status :: "sigma_error \<Rightarrow> int" where
  "load_status err = (case err of SigmaRuleLoadError m \<Rightarrow> 422 | _ \<Rightarrow> 500)"

definition create_rule :: "rs_env \<Rightarrow> rule_in \<Rightarrow> studio \<Rightarrow> (int + rule_detail) \<times> studio" where
  "create_rule e body s =
     (if \<not> rule_in_ok body then (Inl 422, s)
      else case sanitize_rule_id e (ri_id body) (ri_title body) of
        Inl c \<Rightarrow> (Inl c, s)
      | Inr rule_id \<Rightarrow>
          (case validate_condition (ri_condition body) of
             Inl c \<Rightarrow> (Inl c, s)
           | Inr condition \<Rightarrow>
               if map_of (st_custom s) (rule_id @ ''.yml'') \<noteq> None then (Inl 409, s)
               else
                 let yaml_text = build_yaml e rule_id body condition;
                     s' = atomic_write_custom (rule_id @ ''.yml'') yaml_text s
                 in case parse_text e yaml_text of
                      Inl err \<Rightarrow> (Inl (load_status err), s')
                    | Inr [] \<Rightarrow> (Inl 422, s')
                    | Inr _ \<Rightarrow> (get_rule e rule_id s', s')))"

definition update_rule :: "rs_env \<Rightarrow> string \<Rightarrow> rule_in \<Rightarrow> studio \<Rightarrow> (int + rule_detail) \<times> studio" where
  "update_rule e rule_id body s =
     (if \<not> rule_in_ok body then (Inl 422, s)
      else case validate_rule_id rule_id of
        Inl c \<Rightarrow> (Inl c, s)
      | Inr _ \<Rightarrow>
          let custom = map_of (st_custom s) (rule_id @ ''.yml''); builtin = map_of (st_builtin s) (rule_id @ ''.yml'')
          in if builtin \<noteq> None \<and> custom = None then (Inl 409, s)
             else if custom = None then (Inl 404, s)
             else case validate_condition (ri_condition body) of
               Inl c \<Rightarrow> (Inl c, s)
             | Inr condition \<Rightarrow>
                 let yaml_text = build_yaml e rule_id body condition;
                     s' = atomic_write_custom (rule_id @ ''.yml'') yaml_text s
                 in case parse_text e yaml_text of
                      Inl err \<Rightarrow> (Inl (load_status err), s')
                    | Inr _ \<Rightarrow> (get_rule e rule_id s', s'))"

definition delete_rule :: "string \<Rightarrow> studio \<Rightarrow> int \<times> studio" where
  "delete_rule rule_id s =
     (case validate_rule_id rule_id of
        Inl c \<Rightarrow> (c, s)
      | Inr _ \<Rightarrow>
          let custom = map_of (st_custom s) (rule_id @ ''.yml''); builtin = map_of (st_builtin s) (rule_id @ ''.yml'')
          in if builtin \<noteq> None \<and> custom = None then (409, s)
             else if custom = None then (404, s)
             else (204, s\<lparr>st_custom := dict_pop (rule_id @ ''.yml'') (st_custom s)\<rparr>))"

subsection \<open>The test bench and the reload signal\<close>

datatype log_format = Fmt_syslog | Fmt_json | Fmt_plain

record rule_test_in =
  rt_sample :: string
  rt_format :: log_format
  rt_metadata :: "string str_dict"
  rt_source :: string

definition setdefault :: "string \<Rightarrow> 'v \<Rightarrow> 'v str_dict \<Rightarrow> 'v str_dict" where
  "setdefault k v d = (if map_of d k = None then d @ [(k, v)] else d)"

definition digits_n :: "nat \<Rightarrow> string \<Rightarrow> string option" where
  "digits_n n s = (if length s \<ge> n \<and> list_all py_isdigit (take n s) then Some (drop n s) else None)"

definition day_digits :: "string \<Rightarrow> string option" where
  \<comment> \<open>\<open>\d{1,2}\<close> where white space has to follow\<close>
  "day_digits s = (case digits_n 2 s of Some t \<Rightarrow> Some t | None \<Rightarrow> digits_n 1 s)"

definition syslog_stamp :: "string \<Rightarrow> string option" where
  \<comment> \<open>\<open>\w{3}\s+\d{1,2}\s+\d{2}:\d{2}:\d{2}\s+\<close> and what follows\<close>
  "syslog_stamp s =
     (if length s < 3 \<or> \<not> list_all py_isword (take 3 s) then None
      else Option.bind (ws1 (drop 3 s)) (\<lambda>a. Option.bind (day_digits a) (\<lambda>b. Option.bind (ws1 b) (\<lambda>c.
           Option.bind (digits_n 2 c) (\<lambda>d. Option.bind (strip_prefix '':'' d) (\<lambda>f.
           Option.bind (digits_n 2 f) (\<lambda>g. Option.bind (strip_prefix '':'' g) (\<lambda>h.
           Option.bind (digits_n 2 h) ws1))))))))"

definition syslog_msg :: "string \<Rightarrow> string option" where
  \<comment> \<open>\<open>:\s*(.*)$\<close>\<close>
  "syslog_msg s =
     (case s of
        c # t \<Rightarrow>
          (let body = dropWhile py_isspace t; m = takeWhile (\<lambda>d. d \<noteq> CHR 0x0A) body; r = drop (length m) body
           in if c = CHR '':'' \<and> (r = [] \<or> r = [CHR 0x0A]) then Some m else None)
      | [] \<Rightarrow> None)"

definition syslog_pid :: "string \<Rightarrow> (string \<times> string) option" where
  \<comment> \<open>\<open>\[(\d+)\]\<close>: the digits and what follows\<close>
  "syslog_pid s =
     (case strip_prefix ''['' s of
        None \<Rightarrow> None
      | Some t \<Rightarrow>
          let ds = takeWhile py_isdigit t
          in if ds = [] then None else map_option (\<lambda>r. (ds, r)) (strip_prefix '']'' (drop (length ds) t)))"

fun syslog_proc :: "string \<Rightarrow> string \<Rightarrow> (string \<times> string option \<times> string) option" where
  \<comment> \<open>the shortest process name after which the rest matches\<close>
  "syslog_proc acc s =
     (case s of
        [] \<Rightarrow> None
      | c # t \<Rightarrow>
          if py_isspace c then None
          else
            let p = acc @ [c];
                with_pid = (case syslog_pid t of
                              Some (ds, r) \<Rightarrow> map_option (\<lambda>m. (p, Some ds, m)) (syslog_msg r) | None \<Rightarrow> None)
            in case with_pid of
                 Some x \<Rightarrow> Some x
               | None \<Rightarrow> (case syslog_msg t of Some m \<Rightarrow> Some (p, None, m) | None \<Rightarrow> syslog_proc p t))"

declare syslog_proc.simps [simp del]

definition syslog_tail :: "string \<Rightarrow> (string \<times> string \<times> string option \<times> string) option" where
  "syslog_tail s =
     (let h = takeWhile (\<lambda>c. \<not> py_isspace c) s
      in if h = [] then None
         else Option.bind (ws1 (drop (length h) s)) (\<lambda>t. map_option (\<lambda>(p, pid, m). (h, p, pid, m)) (syslog_proc [] t)))"

definition syslog_match :: "string \<Rightarrow> (string \<times> string \<times> string option \<times> string) option" where
  \<comment> \<open>with the time stamp if it can be, without it otherwise\<close>
  "syslog_match s =
     (case Option.bind (syslog_stamp s) syslog_tail of Some m \<Rightarrow> Some m | None \<Rightarrow> syslog_tail s)"

definition scalar_text :: "py_texts \<Rightarrow> json \<Rightarrow> string option" where
  \<comment> \<open>values of type \<open>str\<close>, \<open>int\<close>, \<open>float\<close> or \<open>bool\<close>\<close>
  "scalar_text T v = (case v of JNull \<Rightarrow> None | JArr _ \<Rightarrow> None | JObj _ \<Rightarrow> None | _ \<Rightarrow> Some (py_str T v))"

definition merge_scalars :: "py_texts \<Rightarrow> json str_dict \<Rightarrow> string str_dict \<Rightarrow> string str_dict" where
  "merge_scalars T kvs md =
     fold (\<lambda>(k, v) m. case scalar_text T v of None \<Rightarrow> m | Some t \<Rightarrow> setdefault k t m) kvs md"

definition build_test_event :: "rs_env \<Rightarrow> uuid \<Rightarrow> int \<Rightarrow> rule_test_in \<Rightarrow> parsed_event \<times> nat" where
  \<comment> \<open>the event and the number of parse errors\<close>
  "build_test_event e eid now body =
     (let md = rt_metadata body; raw = rt_sample body;
          (md', source, errs) =
            (case rt_format body of
               Fmt_json \<Rightarrow>
                 (case rs_load e raw of
                    None \<Rightarrow> (md, rt_source body, 1)
                  | Some (JObj kvs) \<Rightarrow>
                      let m = merge_scalars (rs_T e) kvs md
                      in (m, (case map_of m ''source'' of Some src \<Rightarrow> src | None \<Rightarrow> rt_source body), 0)
                  | Some _ \<Rightarrow> (md, rt_source body, 0))
             | Fmt_syslog \<Rightarrow>
                 (case syslog_match raw of
                    None \<Rightarrow> (md, rt_source body, 1)
                  | Some (h, p, pid, msg) \<Rightarrow>
                      let m1 = setdefault ''process'' p (setdefault ''hostname'' h md);
                          m2 = (case pid of Some ds \<Rightarrow> setdefault ''pid'' ds m1 | None \<Rightarrow> m1);
                          m3 = setdefault ''message'' msg m2
                      in (m3, (case map_of m3 ''process'' of
                                 Some (c # pr) \<Rightarrow> c # pr | _ \<Rightarrow> rt_source body), 0))
             | Fmt_plain \<Rightarrow> (md, rt_source body, 0))
      in (\<lparr>pe_event_id = eid, pe_host_id = ''00000000-0000-0000-0000-000000000000'', pe_source = source,
           pe_raw = raw, pe_metadata = md', pe_occurred_at = now\<rparr>, errs))"

datatype evidence_line = Ev_matched string string | Ev_action rendered_action

record rule_test_out =
  to_matched :: bool
  to_evidence :: "evidence_line list"
  to_parse_errors :: nat

definition test_rule :: "rs_env \<Rightarrow> uuid \<Rightarrow> int \<Rightarrow> string \<Rightarrow> rule_test_in \<Rightarrow> studio \<Rightarrow> int + rule_test_out" where
  "test_rule e eid now rule_id body s =
     (if rt_sample body = [] then Inl 422
      else bind_res (read_rule_detail e rule_id s) (\<lambda>(content, parsed, source).
        case parse_text e content of
          Inl (SigmaRuleLoadError m) \<Rightarrow> Inr \<lparr>to_matched = False, to_evidence = [], to_parse_errors = 1\<rparr>
        | Inl _ \<Rightarrow> Inl 500
        | Inr [] \<Rightarrow> Inr \<lparr>to_matched = False, to_evidence = [], to_parse_errors = 1\<rparr>
        | Inr (rule # _) \<Rightarrow>
            (case build_test_event e eid now body of (ev, errs) \<Rightarrow>
               (case rule_matches (rs_sigma e) rule ev of
                  Inl _ \<Rightarrow> Inl 500
                | Inr False \<Rightarrow> Inr \<lparr>to_matched = False, to_evidence = [], to_parse_errors = errs\<rparr>
                | Inr True \<Rightarrow>
                    (case render_action (rs_sigma e) rule ev of
                       Inl _ \<Rightarrow> Inl 500
                     | Inr r \<Rightarrow>
                         Inr \<lparr>to_matched = True,
                              to_evidence = Ev_matched (sr_id rule) (sr_level rule) #
                                (case r of None \<Rightarrow> [] | Some a \<Rightarrow> [Ev_action a]),
                              to_parse_errors = errs\<rparr>)))))"

record reload_out =
  rl_builtin :: nat
  rl_custom :: nat
  rl_errors :: nat

fun count_rules :: "rs_env \<Rightarrow> rule_dir \<Rightarrow> int + (nat \<times> nat)" where
  \<comment> \<open>rules and files that do not load\<close>
  "count_rules e [] = Inr (0, 0)"
| "count_rules e ((p, t) # fs) =
     (case parse_text e t of
        Inr rs \<Rightarrow> bind_res (count_rules e fs) (\<lambda>(n, m). Inr (length rs + n, m))
      | Inl (SigmaRuleLoadError _) \<Rightarrow> bind_res (count_rules e fs) (\<lambda>(n, m). Inr (n, Suc m))
      | Inl _ \<Rightarrow> Inl 500)"

definition reload_engine :: "rs_env \<Rightarrow> studio \<Rightarrow> (int + reload_out) \<times> studio" where
  "reload_engine e s =
     (case bind_res (count_rules e (glob_files (st_builtin s))) (\<lambda>b.
           bind_res (count_rules e (glob_files (st_custom s))) (\<lambda>c. Inr (b, c))) of
        Inl c \<Rightarrow> (Inl c, s)
      | Inr ((nb, eb), (nc, ec)) \<Rightarrow>
          (Inr \<lparr>rl_builtin = nb, rl_custom = nc, rl_errors = eb + ec\<rparr>,
           s\<lparr>st_signal := Some (rs_now e @ [CHR 0x0A])\<rparr>))"

subsection \<open>Which conditions are accepted\<close>

lemma ends_Lit: "set (ends (Regex.Lit l) s) = (case strip_prefix l s of None \<Rightarrow> {} | Some t \<Rightarrow> {t})"
proof (induction l arbitrary: s)
  case (Cons c l)
  show ?case
  proof (cases s)
    case (Cons d t)
    then show ?thesis using Cons.IH by (auto simp: strip_prefix_def split: option.splits)
  qed (simp add: strip_prefix_def)
qed (simp add: strip_prefix_def)

lemma fullmatch_Lit:
  "re_fullmatch (Seq (Regex.Lit l) r) s = (case strip_prefix l s of None \<Rightarrow> False | Some t \<Rightarrow> re_fullmatch r t)"
  using ends_Lit [of l s] by (auto simp: re_fullmatch_def split: option.split)

lemma many_dropWhile: "dropWhile p t \<in> set (many p t)"
  by (induction t) auto

lemma many_maximal: "m \<in> set (many p t) \<Longrightarrow> m = [] \<or> \<not> p (hd m) \<Longrightarrow> dropWhile p t = m"
  by (induction t) (auto split: if_splits)

definition solid :: "re \<Rightarrow> bool" where
  \<comment> \<open>no match starts with white space\<close>
  "solid r \<longleftrightarrow> (\<forall>c t. py_isspace c \<longrightarrow> ends r (c # t) = [])"

lemma fullmatch_SP:
  assumes "solid r"
  shows "re_fullmatch (Seq SP r) s = (case ws1 s of None \<Rightarrow> False | Some t \<Rightarrow> re_fullmatch r t)"
proof (cases s)
  case (Cons c t)
  have "(\<exists>m \<in> set (many py_isspace t). [] \<in> set (ends r m)) \<longleftrightarrow> [] \<in> set (ends r (dropWhile py_isspace t))"
  proof
    assume "\<exists>m \<in> set (many py_isspace t). [] \<in> set (ends r m)"
    then obtain m where m: "m \<in> set (many py_isspace t)" "[] \<in> set (ends r m)" by blast
    have "m = [] \<or> \<not> py_isspace (hd m)"
      using m(2) assms by (cases m) (auto simp: solid_def)
    with m show "[] \<in> set (ends r (dropWhile py_isspace t))" using many_maximal by metis
  qed (use many_dropWhile in blast)
  then show ?thesis using Cons by (auto simp: re_fullmatch_def SP_def Plus_def ws1_def)
qed (simp add: re_fullmatch_def SP_def Plus_def ws1_def)

lemma solid_Lit: "l \<noteq> [] \<Longrightarrow> \<not> py_isspace (hd l) \<Longrightarrow> solid (Seq (Regex.Lit l) r)"
  by (cases l) (auto simp: solid_def)

lemma solid_word: "solid (Seq (Plus py_isword) r)"
  using word_char(1) by (auto simp: solid_def Plus_def)

lemma fullmatch_word: "re_fullmatch (Seq (Plus py_isword) Eps) s \<longleftrightarrow> word_end s \<noteq> None"
proof (cases s)
  case (Cons c t)
  have "[] \<in> set (many py_isword t) \<longleftrightarrow> list_all py_isword t" by (simp add: many_iff)
  then show ?thesis using Cons by (auto simp: re_fullmatch_def Plus_def word_end_def)
qed (simp add: re_fullmatch_def Plus_def word_end_def)

lemma fullmatch_group:
  assumes r: "\<And>u. re_fullmatch (Seq (Regex.Lit '')'') r) u \<Longrightarrow> u \<noteq> [] \<and> hd u = CHR '')''"
  shows "re_fullmatch (Seq (Plus (\<lambda>c. c \<noteq> CHR '')'')) (Seq (Regex.Lit '')'') r)) s =
    (let inner = takeWhile (\<lambda>c. c \<noteq> CHR '')'') s
     in inner \<noteq> [] \<and> re_fullmatch (Seq (Regex.Lit '')'') r) (drop (length inner) s))"
proof (cases s)
  case (Cons c t)
  let ?p = "\<lambda>c. c \<noteq> CHR '')''"
  let ?q = "Seq (Regex.Lit '')'') r"
  have "(\<exists>m \<in> set (many ?p t). re_fullmatch ?q m) \<longleftrightarrow> re_fullmatch ?q (dropWhile ?p t)"
  proof
    assume "\<exists>m \<in> set (many ?p t). re_fullmatch ?q m"
    then obtain m where m: "m \<in> set (many ?p t)" "re_fullmatch ?q m" by blast
    from r [OF m(2)] have "m = [] \<or> \<not> ?p (hd m)" by simp
    with m show "re_fullmatch ?q (dropWhile ?p t)" using many_maximal by metis
  qed (use many_dropWhile in blast)
  then show ?thesis
    using Cons by (auto simp: re_fullmatch_def Plus_def dropWhile_eq_drop Let_def)
qed (simp add: re_fullmatch_def Plus_def)

lemma paren_first: "re_fullmatch (Seq (Regex.Lit '')'') r) u \<Longrightarrow> u \<noteq> [] \<and> hd u = CHR '')''"
  by (cases u) (auto simp: re_fullmatch_def split: if_splits)

definition engine_form :: "string \<Rightarrow> bool" where
  \<comment> \<open>the matcher of the engine has a case for the condition\<close>
  "engine_form cond \<longleftrightarrow> cond = ''selection'' \<or> cond_not cond \<noteq> None \<or>
     (case cond_group cond of None \<Rightarrow> False | Some (inner, rest) \<Rightarrow> rest = [] \<or> cond_and_not_tail rest \<noteq> None)"

lemma fullmatch_not_word:
  "re_fullmatch (seqs [Regex.Lit ''not'', SP, Plus py_isword]) s \<longleftrightarrow> Option.bind (lit_ws ''not'' s) word_end \<noteq> None"
  by (simp only: seqs.simps fullmatch_Lit fullmatch_SP [OF solid_word] fullmatch_word)
    (auto simp: lit_ws_def split: option.split)

lemma fullmatch_sel_and:
  assumes "solid r"
  shows "re_fullmatch (Seq (Regex.Lit ''selection'') (Seq SP (Seq (Regex.Lit ''and'') (Seq SP r)))) s =
    (case selection_and s of None \<Rightarrow> False | Some t \<Rightarrow> re_fullmatch r t)"
proof -
  have a: "solid (Seq (Regex.Lit ''and'') (Seq SP r))" by (rule solid_Lit) (simp_all add: char_class_defs)
  show ?thesis
    by (simp only: fullmatch_Lit fullmatch_SP [OF assms] fullmatch_SP [OF a])
      (auto simp: selection_and_def lit_ws_def split: option.split)
qed

lemma cond_not_re_iff: "re_fullmatch cond_not_re s \<longleftrightarrow> cond_not s \<noteq> None"
proof -
  have "solid (seqs [Regex.Lit ''not'', SP, Plus py_isword])"
    unfolding seqs.simps by (rule solid_Lit) (simp_all add: char_class_defs)
  from fullmatch_sel_and [OF this, of s] show ?thesis
    by (simp only: cond_not_re_def seqs.simps fullmatch_not_word [unfolded seqs.simps] cond_not_def)
      (auto split: option.split)
qed

lemma fullmatch_and_not:
  "re_fullmatch (seqs [SP, Regex.Lit ''and'', SP, Regex.Lit ''not'', SP, Plus py_isword]) s \<longleftrightarrow> cond_and_not_tail s \<noteq> None"
proof -
  have n: "solid (seqs [Regex.Lit ''not'', SP, Plus py_isword])"
    and a: "solid (seqs [Regex.Lit ''and'', SP, Regex.Lit ''not'', SP, Plus py_isword])"
    unfolding seqs.simps by (rule solid_Lit; simp add: char_class_defs)+
  have e: "re_fullmatch (Seq (Regex.Lit ''not'') (Seq SP (Seq (Plus py_isword) Eps))) t \<longleftrightarrow>
      Option.bind (lit_ws ''not'' t) word_end \<noteq> None" for t
    using fullmatch_not_word [of t] by (simp only: seqs.simps)
  have f: "re_fullmatch (seqs [Regex.Lit ''and'', SP, Regex.Lit ''not'', SP, Plus py_isword]) t =
      (case lit_ws ''and'' t of None \<Rightarrow> False | Some u \<Rightarrow> Option.bind (lit_ws ''not'' u) word_end \<noteq> None)" for t
    unfolding seqs.simps fullmatch_Lit [of "''and''"] fullmatch_SP [OF n [unfolded seqs.simps]] e
    by (auto simp: lit_ws_def split: option.split)
  have "re_fullmatch (seqs [SP, Regex.Lit ''and'', SP, Regex.Lit ''not'', SP, Plus py_isword]) s =
      (case ws1 s of None \<Rightarrow> False
       | Some t \<Rightarrow> re_fullmatch (seqs [Regex.Lit ''and'', SP, Regex.Lit ''not'', SP, Plus py_isword]) t)"
    using fullmatch_SP [OF a, of s] by (simp only: seqs.simps)
  then show ?thesis
    unfolding f cond_and_not_tail_def by (auto split: option.split bind_split)
qed

lemma fullmatch_paren_group:
  "re_fullmatch (Seq (Regex.Lit ''('') (Seq (Plus (\<lambda>c. c \<noteq> CHR '')'')) (Seq (Regex.Lit '')'') r))) s =
    (case strip_prefix ''('' s of
       None \<Rightarrow> False
     | Some t \<Rightarrow>
         let inner = takeWhile (\<lambda>c. c \<noteq> CHR '')'') t
         in inner \<noteq> [] \<and> (case strip_prefix '')'' (drop (length inner) t) of None \<Rightarrow> False | Some u \<Rightarrow> re_fullmatch r u))"
proof (cases "strip_prefix ''('' s")
  case (Some t)
  have "re_fullmatch (Seq (Plus (\<lambda>c. c \<noteq> CHR '')'')) (Seq (Regex.Lit '')'') r)) t =
      (let inner = takeWhile (\<lambda>c. c \<noteq> CHR '')'') t
       in inner \<noteq> [] \<and> re_fullmatch (Seq (Regex.Lit '')'') r) (drop (length inner) t))"
    by (rule fullmatch_group) (rule paren_first)
  with Some show ?thesis
    unfolding fullmatch_Lit [of "''(''"] Let_def fullmatch_Lit [of "'')''"] by (simp only: option.case)
qed (simp only: fullmatch_Lit option.case)

lemma fullmatch_cond_group:
  "re_fullmatch (Seq (Regex.Lit ''selection'') (Seq SP (Seq (Regex.Lit ''and'') (Seq SP
     (Seq (Regex.Lit ''('') (Seq (Plus (\<lambda>c. c \<noteq> CHR '')'')) (Seq (Regex.Lit '')'') r))))))) s =
   (case cond_group s of None \<Rightarrow> False | Some (inner, rest) \<Rightarrow> re_fullmatch r rest)"
proof -
  have "solid (Seq (Regex.Lit ''('') (Seq (Plus (\<lambda>c. c \<noteq> CHR '')'')) (Seq (Regex.Lit '')'') r)))"
    by (rule solid_Lit) (simp_all add: char_class_defs)
  from fullmatch_sel_and [OF this, of s] show ?thesis
    unfolding fullmatch_paren_group cond_group_def
    by (auto simp: Let_def split: option.splits)
qed

lemma fullmatch_Eps: "re_fullmatch Eps s \<longleftrightarrow> s = []"
  by (auto simp: re_fullmatch_def)

lemma cond_group_re_iff:
  "re_fullmatch cond_group_re s \<longleftrightarrow> (case cond_group s of None \<Rightarrow> False | Some (inner, rest) \<Rightarrow> rest = [])"
  unfolding cond_group_re_def seqs.simps fullmatch_cond_group fullmatch_Eps ..

lemma cond_group_not_re_iff:
  "re_fullmatch cond_group_not_re s \<longleftrightarrow>
     (case cond_group s of None \<Rightarrow> False | Some (inner, rest) \<Rightarrow> cond_and_not_tail rest \<noteq> None)"
  unfolding cond_group_not_re_def seqs.simps fullmatch_cond_group
    fullmatch_and_not [unfolded seqs.simps] ..

lemma condition_accepted:
  "validate_condition (Some c) = (if engine_form (py_strip c) then Inr (py_strip c) else Inl 422)"
proof -
  have "(re_fullmatch cond_not_re s \<or> re_fullmatch cond_group_re s \<or> re_fullmatch cond_group_not_re s \<or> s = ''selection'') =
      engine_form s" for s
    unfolding cond_not_re_iff cond_group_re_iff cond_group_not_re_iff engine_form_def
    by (auto split: option.split)
  then show ?thesis by (auto simp: validate_condition_def Let_def)
qed

lemma no_form_never_fires:
  assumes "\<not> engine_form (py_strip c)"
  shows "rule_matches E (r\<lparr>sr_condition := c\<rparr>) ev = Inr False"
proof -
  have "py_strip ''selection'' = ''selection''" by code_simp
  with assms have "c \<noteq> ''selection''" "cond_not (py_strip c) = None" by (auto simp: engine_form_def)
  with assms show ?thesis
    by (auto simp: engine_form_def rule_matches_def Let_def split: option.split)
qed

text \<open>
  C24: The studio accepts exactly the conditions the engine acts on.  The regular expressions
  of the endpoint take a condition iff one of the engine's forms reads it, the text that is
  stored is the one the engine matches, and a rule with any other condition never fires: its
  matcher answers no for every event.
\<close>

theorem studio_conditions_exact:
  "validate_condition (Some c) = (if engine_form (py_strip c) then Inr (py_strip c) else Inl 422) \<and>
   (engine_form (py_strip c) \<or> rule_matches E (r\<lparr>sr_condition := c\<rparr>) ev = Inr False)"
  using condition_accepted no_form_never_fires by blast

subsection \<open>Identifiers are safe file names\<close>

lemma id_edge_alnum: "id_edge c \<Longrightarrow> py_isalnum c"
  by (auto simp: id_edge_def char_class_defs)

lemma ID_RE_pattern: "ID_RE s \<Longrightarrow> RULE_ID_PATTERN s"
proof -
  have "py_dollar p s \<Longrightarrow> (\<And>t. p t \<Longrightarrow> q t) \<Longrightarrow> py_dollar q s" for p q s
    by (auto simp: py_dollar_def)
  moreover have "list_all (\<lambda>c. id_edge c \<or> c = CHR ''-'') t \<Longrightarrow> list_all rule_id_char t" for t
    using id_edge_alnum by (auto simp: list_all_iff rule_id_char_def)
  ultimately show "ID_RE s \<Longrightarrow> RULE_ID_PATTERN s" unfolding ID_RE_def RULE_ID_PATTERN_def by fastforce
qed

definition fresh_ok :: "rs_env \<Rightarrow> bool" where
  "fresh_ok e \<longleftrightarrow> length (rs_fresh e) = 8 \<and> list_all id_edge (rs_fresh e)"

lemma fresh_id: "fresh_ok e \<Longrightarrow> ID_RE (''rule-'' @ rs_fresh e)"
proof -
  assume f: "fresh_ok e"
  then have "rs_fresh e \<noteq> []" by (auto simp: fresh_ok_def)
  moreover from this f have "id_edge (last (rs_fresh e))" by (auto simp: fresh_ok_def list_all_iff)
  moreover have "id_edge (CHR ''r'')" "id_edge (CHR ''u'')" "id_edge (CHR ''l'')" "id_edge (CHR ''e'')"
    by (simp_all add: id_edge_def ord_def)
  ultimately show ?thesis
    using f by (auto simp: ID_RE_def py_dollar_def fresh_ok_def list_all_iff)
qed

lemma sanitize_ok:
  assumes "fresh_ok e" and "sanitize_rule_id e raw title = Inr i"
  shows "ID_RE i"
  using assms fresh_id [OF assms(1)]
  by (auto simp: sanitize_rule_id_def Let_def split: option.splits list.splits if_splits)

lemma pattern_chars:
  assumes "RULE_ID_PATTERN i"
  shows "i \<noteq> [] \<and> CHR ''/'' \<notin> set i"
proof -
  have n: "\<not> rule_id_char (CHR ''/'')" by (simp add: rule_id_char_def char_class_defs)
  from assms consider "1 \<le> length i" "list_all rule_id_char i"
    | "i \<noteq> []" "last i = CHR 0x0A" "list_all rule_id_char (butlast i)"
    by (auto simp: RULE_ID_PATTERN_def py_dollar_def)
  then show ?thesis
  proof cases
    case 2
    then have "set i = insert (CHR 0x0A) (set (butlast i))"
      by (metis append_butlast_last_id list.simps(15) set_append Un_commute insert_is_Un empty_set)
    with 2 n show ?thesis by (auto simp: list_all_iff)
  qed (use n in \<open>auto simp: list_all_iff\<close>)
qed

subsection \<open>What is written compiles\<close>

definition written_detection :: "rule_in \<Rightarrow> string \<Rightarrow> json str_dict" where
  \<comment> \<open>the detection block of the document\<close>
  "written_detection b cond = set_source (ri_logsource b)
     (case ri_count b of None \<Rightarrow> (case ri_timeframe b of None \<Rightarrow> dict_set ''condition'' (JStr cond) (ri_detection b)
                                | Some t \<Rightarrow> dict_set ''timeframe'' (JStr t) (dict_set ''condition'' (JStr cond) (ri_detection b)))
      | Some n \<Rightarrow> dict_set ''count'' (JInt n)
          (case ri_timeframe b of None \<Rightarrow> dict_set ''condition'' (JStr cond) (ri_detection b)
           | Some t \<Rightarrow> dict_set ''timeframe'' (JStr t) (dict_set ''condition'' (JStr cond) (ri_detection b))))"

lemma doc_lookups:
  "map_of (rule_doc i b cond) ''title'' = Some (JStr (ri_title b))"
  "map_of (rule_doc i b cond) ''id'' = Some (JStr i)"
  "map_of (rule_doc i b cond) ''level'' = Some (JStr (ri_level b))"
  "map_of (rule_doc i b cond) ''detection'' = Some (JObj (written_detection b cond))"
  by (simp_all add: rule_doc_def Let_def written_detection_def)

lemma doc_options:
  "map_of (rule_doc i b cond) ''cooldown_sec'' = map_option JInt (ri_cooldown b)"
  "map_of (rule_doc i b cond) ''action'' = (case ri_action b of Some (kv # a) \<Rightarrow> Some (JObj (kv # a)) | _ \<Rightarrow> None)"
  "map_of (rule_doc i b cond) ''required_fields'' =
     (if ri_required b = [] then None else Some (JArr (map JStr (ri_required b))))"
  "map_of (rule_doc i b cond) ''dedup_key'' = (if truthy_text (ri_dedup b) then Some (JStr (the (ri_dedup b))) else None)"
  by (auto simp: rule_doc_def Let_def split: option.split list.split)

lemma selection_after:
  "detection_has_selection d \<Longrightarrow> k \<noteq> ''selection'' \<Longrightarrow> detection_has_selection (dict_set k v d)"
  by (auto simp: detection_has_selection_def)

lemma selection_source: "detection_has_selection d \<Longrightarrow> detection_has_selection (set_source ls d)"
  by (auto simp: detection_has_selection_def set_source_def split: option.splits json.splits)

lemma written_selection:
  "detection_has_selection (ri_detection b) \<Longrightarrow> detection_has_selection (written_detection b cond)"
  unfolding written_detection_def
  by (intro selection_source) (auto split: option.split intro!: selection_after)

lemma set_source_other: "k \<noteq> ''selection'' \<Longrightarrow> map_of (set_source ls d) k = map_of d k"
  by (auto simp: set_source_def split: option.split json.split)

lemma written_condition: "map_of (written_detection b cond) ''condition'' = Some (JStr cond)"
  by (auto simp: written_detection_def set_source_other split: option.split)

lemma written_count:
  "map_of (written_detection b cond) ''count'' =
     (case ri_count b of Some n \<Rightarrow> Some (JInt n) | None \<Rightarrow> map_of (ri_detection b) ''count'')"
  by (auto simp: written_detection_def set_source_other split: option.split)

definition count_ok :: "py_texts \<Rightarrow> rule_in \<Rightarrow> bool" where
  \<comment> \<open>a count inside the detection block, used when the body has no count of its own, is a number\<close>
  "count_ok T b \<longleftrightarrow> ri_count b \<noteq> None \<or>
     (case map_of (ri_detection b) ''count'' of None \<Rightarrow> True | Some v \<Rightarrow> \<not> py_truthy T v \<or> py_int_of T v \<noteq> None)"

lemma count_field_compiles:
  assumes "count_ok T b"
  shows "is_ok (int_field T (or_else T (written_detection b cond) ''count'' (JInt 1)))"
  using assms
  by (auto simp: or_else_def written_count int_field_def count_ok_def py_int_of_def py_truthy_def
      split: option.splits json.splits)

lemma doc_compiles:
  assumes b: "rule_in_ok b" "count_ok T b" and i: "i \<noteq> []" and c: "cond \<noteq> []"
  shows "\<exists>r. compile_rule T (rule_doc i b cond) = Inr r \<and> sr_id r = i \<and> sr_title r = ri_title b \<and>
    sr_level r = ri_level b \<and> sr_condition r = cond \<and> sr_detection r = written_detection b cond"
proof -
  let ?d = "rule_doc i b cond"
  have t: "ri_title b \<noteq> []" and l: "ri_level b \<in> {''low'', ''medium'', ''high'', ''critical''}" "ri_level b \<noteq> []"
    using b(1) by (auto simp: rule_in_ok_def LEVELS_def)
  have s: "py_str T (or_else T ?d ''title'' x) = ri_title b" "py_str T (or_else T ?d ''id'' x) = i"
    "py_str T (or_else T ?d ''level'' x) = ri_level b" for x
    using t l i by (simp_all add: or_else_def doc_lookups py_truthy_def py_str_def)
  obtain sel where sel: "map_of (written_detection b cond) ''selection'' = Some (JObj sel)"
    using written_selection [of b cond] b(1)
    by (auto simp: rule_in_ok_def detection_has_selection_def split: option.splits json.splits)
  obtain n where n: "int_field T (or_else T (written_detection b cond) ''count'' (JInt 1)) = Inr n"
    using count_field_compiles [OF b(2)] unfolding is_ok_iff by blast
  obtain m where m: "int_field T (or_else T ?d ''cooldown_sec'' (JInt 300)) = Inr m"
    by (cases "ri_cooldown b"; cases "ri_cooldown b = Some 0")
      (auto simp: or_else_def doc_options int_field_def py_int_of_def py_truthy_def)
  obtain a where a: "rule_action ?d = Inr a"
  proof (cases "ri_action b = None \<or> ri_action b = Some []")
    case False
    then obtain kv d where "ri_action b = Some (kv # d)" by (cases "ri_action b"; cases "the (ri_action b)") auto
    then show ?thesis using that by (simp add: rule_action_def dict_get_def doc_options)
  qed (use that in \<open>auto simp: rule_action_def dict_get_def doc_options\<close>)
  obtain q where q: "rule_required T ?d = Inr q"
    by (cases "ri_required b = []") (auto simp: rule_required_def dict_get_def doc_options)
  have cn: "py_str T (or_else T (written_detection b cond) ''condition'' (JStr ''selection'')) = cond"
    using c by (simp add: or_else_def written_condition py_truthy_def py_str_def)
  show ?thesis
    unfolding compile_rule_def Let_def s doc_lookups(4) option.case json.case sel n m a q bind_res_simps cn
    using l by auto
qed

subsection \<open>Every stored rule is a working rule\<close>

definition yaml_ok :: "rs_env \<Rightarrow> bool" where
  \<comment> \<open>\<open>safe_load(safe_dump(doc))\<close> gives the document back\<close>
  "yaml_ok e \<longleftrightarrow> (\<forall>d. rs_load e (rs_dump e (JObj d)) = Some (JObj d))"

definition file_ok :: "rs_env \<Rightarrow> string \<times> string \<Rightarrow> bool" where
  "file_ok e f \<longleftrightarrow> (\<exists>i r. fst f = i @ ''.yml'' \<and> RULE_ID_PATTERN i \<and> parse_text e (snd f) = Inr [r] \<and>
     sr_id r = i \<and> engine_form (py_strip (sr_condition r)))"

definition studio_inv :: "rs_env \<Rightarrow> rule_dir \<Rightarrow> studio \<Rightarrow> bool" where
  "studio_inv e builtin s \<longleftrightarrow> yaml_ok e \<and> fresh_ok e \<and> st_builtin s = builtin \<and>
     distinct (map fst (st_custom s)) \<and> list_all (file_ok e) (st_custom s)"

inductive studio_step :: "rs_env \<Rightarrow> studio \<Rightarrow> studio \<Rightarrow> bool" for e where
  create: "count_ok (rs_T e) b \<Longrightarrow> studio_step e s (snd (create_rule e b s))"
| update: "count_ok (rs_T e) b \<Longrightarrow> studio_step e s (snd (update_rule e i b s))"
| delete: "studio_step e s (snd (delete_rule i s))"
| reload: "studio_step e s (snd (reload_engine e s))"

inductive_cases studio_stepE: "studio_step e s t"

lemma strip_idem: "py_strip (py_strip c) = py_strip c"
proof (cases "py_strip c = []")
  case False
  define m where "m = dropWhile py_isspace c"
  have m: "py_strip c = rev (dropWhile py_isspace (rev m))" by (simp add: py_strip_def py_lstrip_def py_rstrip_def m_def)
  then have r: "dropWhile py_isspace (rev m) \<noteq> []" using False by simp
  then have "\<not> py_isspace (hd (dropWhile py_isspace (rev m)))" by (rule hd_dropWhile)
  moreover obtain u where u: "m = py_strip c @ u"
    unfolding m by (metis rev_append rev_rev_ident takeWhile_dropWhile_id)
  have "m \<noteq> []" using r by auto
  then have "\<not> py_isspace (hd m)" unfolding m_def by (simp add: hd_dropWhile)
  then have "\<not> py_isspace (hd (py_strip c))" using u False by (simp add: hd_append)
  ultimately show ?thesis using False by (intro strip_solid) (simp_all add: m last_rev)
next
  case True
  moreover have "py_strip [] = []" by (simp add: py_strip_def py_lstrip_def py_rstrip_def)
  ultimately show ?thesis by simp
qed

lemma accepted_condition:
  assumes "validate_condition c = Inr cond"
  shows "cond \<noteq> [] \<and> engine_form (py_strip cond)"
proof (cases c)
  case None
  then have "cond = ''selection''" using assms by (simp add: validate_condition_def)
  moreover have "py_strip ''selection'' = ''selection''" by code_simp
  ultimately show ?thesis by (simp add: engine_form_def)
next
  case (Some x)
  then have "engine_form (py_strip x)" "cond = py_strip x"
    using assms by (simp_all add: condition_accepted split: if_splits)
  moreover have "\<not> engine_form []" by code_simp
  ultimately show ?thesis by (auto simp: strip_idem)
qed

lemma written_file_ok:
  assumes "yaml_ok e" "rule_in_ok b" "count_ok (rs_T e) b" "RULE_ID_PATTERN i" "validate_condition c = Inr cond"
  shows "\<exists>r. parse_text e (build_yaml e i b cond) = Inr [r] \<and> file_ok e (i @ ''.yml'', build_yaml e i b cond)"
proof -
  have "i \<noteq> []" using pattern_chars assms(4) by blast
  from doc_compiles [OF assms(2,3) this, of cond] accepted_condition [OF assms(5)]
  obtain r where r: "compile_rule (rs_T e) (rule_doc i b cond) = Inr r" "sr_id r = i" "sr_condition r = cond"
    by blast
  then have "parse_text e (build_yaml e i b cond) = Inr [r]"
    using assms(1) by (simp add: parse_text_def build_yaml_def yaml_ok_def parse_rule_file_def)
  with r assms(4) accepted_condition [OF assms(5)] show ?thesis by (auto simp: file_ok_def)
qed

lemma inv_write:
  assumes "studio_inv e bi s" "file_ok e (n, t)"
  shows "studio_inv e bi (atomic_write_custom n t s)"
  using assms set_dict_set_subset [of n t "st_custom s"]
  by (auto simp: studio_inv_def atomic_write_custom_def list_all_iff intro: distinct_dict_set)

lemma create_keeps:
  assumes "studio_inv e bi s" "count_ok (rs_T e) b"
  shows "studio_inv e bi (snd (create_rule e b s))"
proof (cases "sanitize_rule_id e (ri_id b) (ri_title b)")
  case (Inr i)
  have "RULE_ID_PATTERN i"
    using assms(1) sanitize_ok [OF _ Inr] ID_RE_pattern by (simp add: studio_inv_def)
  then have w: "rule_in_ok b \<Longrightarrow> validate_condition (ri_condition b) = Inr c \<Longrightarrow> file_ok e (i @ ''.yml'', build_yaml e i b c)" for c
    using written_file_ok assms unfolding studio_inv_def by blast
  show ?thesis
    using assms(1) inv_write [OF assms(1) w]
    by (auto simp: create_rule_def Inr Let_def split: sum.split list.split)
qed (use assms in \<open>simp add: create_rule_def\<close>)

lemma update_keeps:
  assumes "studio_inv e bi s" "count_ok (rs_T e) b"
  shows "studio_inv e bi (snd (update_rule e i b s))"
proof (cases "RULE_ID_PATTERN i")
  case True
  then have w: "rule_in_ok b \<Longrightarrow> validate_condition (ri_condition b) = Inr c \<Longrightarrow> file_ok e (i @ ''.yml'', build_yaml e i b c)" for c
    using written_file_ok assms unfolding studio_inv_def by blast
  show ?thesis
    using assms(1) inv_write [OF assms(1) w] True
    by (auto simp: update_rule_def validate_rule_id_def Let_def split: sum.split)
qed (use assms in \<open>simp add: update_rule_def validate_rule_id_def\<close>)

lemma delete_keeps: "studio_inv e bi s \<Longrightarrow> studio_inv e bi (snd (delete_rule i s))"
  by (auto simp: delete_rule_def Let_def studio_inv_def list_all_iff dict_pop_def split: sum.split
      intro!: distinct_dict_pop [unfolded dict_pop_def])

lemma reload_keeps: "studio_inv e bi s \<Longrightarrow> studio_inv e bi (snd (reload_engine e s))"
  by (auto simp: reload_engine_def studio_inv_def split: sum.split prod.split)

interpretation studio_sys: inv_system "studio_step e" "studio_inv e bi" for e bi
proof
  fix s t assume "studio_inv e bi s" "studio_step e s t"
  then show "studio_inv e bi t"
    by (auto elim!: studio_stepE intro: create_keeps update_keeps delete_keeps reload_keeps)
qed

text \<open>
  C19: Every rule the studio has stored is a working rule.  Under any sequence of creations,
  replacements, deletions and reloads the built-in rules stay as they are, and every custom
  file is a direct child of its directory, named after a safe identifier, that loads as
  exactly one rule with that identifier and a condition the engine acts on.  YAML documents
  are assumed to survive dumping and loading, and a count written inside the detection block
  instead of the body to be a number.
\<close>

theorem studio_rules_work:
  assumes "(studio_step e)\<^sup>*\<^sup>* s t" and "yaml_ok e" and "fresh_ok e" and "st_custom s = []"
  shows "st_builtin t = st_builtin s \<and> distinct (map fst (st_custom t)) \<and>
    list_all (\<lambda>(name, text). CHR ''/'' \<notin> set name \<and> (\<exists>i r. name = i @ ''.yml'' \<and> RULE_ID_PATTERN i \<and>
      parse_text e text = Inr [r] \<and> sr_id r = i \<and> engine_form (py_strip (sr_condition r)))) (st_custom t)"
proof -
  have "studio_inv e (st_builtin s) s" using assms(2-4) by (simp add: studio_inv_def)
  with studio_sys.run_inv [OF assms(1)] have t: "studio_inv e (st_builtin s) t" by blast
  have "CHR ''/'' \<notin> set (i @ ''.yml'')" if "RULE_ID_PATTERN i" for i
    using pattern_chars [OF that] by simp
  with t show ?thesis
    unfolding studio_inv_def file_ok_def list_all_iff by fastforce
qed

instance json :: countable
  by countable_datatype

definition demo_studio_env :: rs_env where
  "demo_studio_env = \<lparr>rs_load = (\<lambda>t. Some (from_nat (length t))), rs_dump = (\<lambda>v. replicate (to_nat v) (CHR ''y'')),
     rs_sigma = demo_sigma_env, rs_int = (\<lambda>_. None), rs_fresh = ''0123abcd'', rs_now = ''now''\<rparr>"

definition demo_rule_in :: rule_in where
  "demo_rule_in = \<lparr>ri_title = ''Brute force'', ri_id = None, ri_level = ''high'', ri_description = None,
     ri_logsource = Some ''sshd'', ri_mitre = Some ''T1110'',
     ri_detection = [(''selection'', JObj [(''user'', JStr ''root'')])], ri_condition = Some '' selection '',
     ri_timeframe = Some ''60s'', ri_count = Some 5, ri_cooldown = Some 300, ri_dedup = None, ri_action = None,
     ri_tags = [], ri_required = []\<rparr>"

definition empty_studio :: studio where
  "empty_studio = \<lparr>st_builtin = [], st_custom = [], st_signal = None\<rparr>"

lemma demo_studio_laws: "yaml_ok demo_studio_env" "fresh_ok demo_studio_env"
proof -
  show "yaml_ok demo_studio_env" by (simp add: yaml_ok_def demo_studio_env_def)
  show "fresh_ok demo_studio_env" by (simp add: fresh_ok_def demo_studio_env_def id_edge_def ord_def py_isdigit_def)
qed

lemma demo_created:
  "st_custom (snd (create_rule demo_studio_env demo_rule_in empty_studio)) =
     [(''brute-force.yml'', build_yaml demo_studio_env ''brute-force'' demo_rule_in ''selection'')]"
proof -
  have "rule_in_ok demo_rule_in" "sanitize_rule_id demo_studio_env (ri_id demo_rule_in) (ri_title demo_rule_in) = Inr ''brute-force''"
    "validate_condition (ri_condition demo_rule_in) = Inr ''selection''"
    by code_simp+
  then show ?thesis
    by (auto simp: create_rule_def Let_def empty_studio_def atomic_write_custom_def split: sum.split list.split)
qed

theorem studio_rules_work_witness:
  "\<exists>t name text r. (studio_step demo_studio_env)\<^sup>*\<^sup>* empty_studio t \<and> st_custom t = [(name, text)] \<and>
     parse_text demo_studio_env text = Inr [r] \<and> sr_id r @ ''.yml'' = ''brute-force.yml''"
proof -
  let ?t = "snd (create_rule demo_studio_env demo_rule_in empty_studio)"
  have "count_ok (rs_T demo_studio_env) demo_rule_in" by (simp add: count_ok_def demo_rule_in_def)
  then have r: "(studio_step demo_studio_env)\<^sup>*\<^sup>* empty_studio ?t"
    by (intro r_into_rtranclp studio_step.create)
  have "st_custom empty_studio = []" by (simp add: empty_studio_def)
  from studio_rules_work [OF r demo_studio_laws this] demo_created r show ?thesis by auto
qed

subsection \<open>The answer to a creation\<close>

definition source_text :: "json str_dict \<Rightarrow> bool" where
  \<comment> \<open>the \<open>source\<close> of the selection is a text or absent\<close>
  "source_text det = (case map_of det ''selection'' of
      Some (JObj sel) \<Rightarrow> is_ok (opt_str (dict_get sel ''source'' JNull)) | _ \<Rightarrow> True)"

lemma str_list_texts: "str_list (map JStr ss) = Inr ss"
  by (induction ss) simp_all

lemma doc_tags:
  "map_of (rule_doc i b cond) ''tags'' =
     (let tags = (if truthy_text (ri_mitre b) then [''attack.'' @ py_lower (the (ri_mitre b))] else []) @ ri_tags b
      in if tags = [] then None else Some (JArr (map JStr tags)))"
  by (auto simp: rule_doc_def Let_def split: option.split list.split)

lemma tags_readable:
  "iter_values T (dict_get (rule_doc i b cond) ''tags'' d) \<noteq> None \<and>
   (\<exists>ss. (case iter_values T (dict_get (rule_doc i b cond) ''tags'' d) of None \<Rightarrow> Inl 500 | Some vs \<Rightarrow> str_list vs) = Inr ss)"
  if "d = JNull \<or> d = JArr []"
proof (cases "map_of (rule_doc i b cond) ''tags''")
  case None
  then show ?thesis using that by (auto simp: dict_get_def iter_values_def py_truthy_def)
next
  case (Some v)
  then obtain ss where v: "v = JArr (map JStr ss)"
    unfolding doc_tags Let_def by (metis option.distinct(1) option.inject)
  with Some show ?thesis
    using str_list_texts [of ss] by (cases "ss = []") (auto simp: dict_get_def iter_values_def py_truthy_def)
qed

lemma detail_reply:
  assumes b: "rule_in_ok b" "ri_count b = Some n" and i: "i \<noteq> []" and c: "cond \<noteq> []"
  shows "if source_text (written_detection b cond)
     then \<exists>d. detail_of e i content (rule_doc i b cond) source = Inr d \<and> rd_id d = i \<and> rd_title d = ri_title b \<and>
            rd_level d = ri_level b \<and> rd_source d = source \<and> rd_yaml d = content \<and> rd_condition d = cond \<and>
            rd_count d = Some n \<and> rd_cooldown d = ri_cooldown b \<and> rd_detection d = written_detection b cond
     else detail_of e i content (rule_doc i b cond) source = Inl 500"
proof -
  let ?d = "rule_doc i b cond" and ?T = "rs_T e" and ?w = "written_detection b cond"
  have t: "ri_title b \<noteq> []" and l: "ri_level b \<in> set LEVELS" "ri_level b \<noteq> []"
    using b(1) by (auto simp: rule_in_ok_def LEVELS_def)
  have s: "py_str ?T (or_else ?T ?d ''title'' x) = ri_title b" "py_str ?T (or_else ?T ?d ''id'' x) = i"
    "or_else ?T ?d ''level'' x = JStr (ri_level b)" "get_or_empty ?T ?d ''detection'' = JObj ?w" for x
    using t l i written_condition [of b cond]
    by (auto simp: or_else_def doc_lookups py_truthy_def py_str_def get_or_empty_def)
  obtain sel where sel: "map_of ?w ''selection'' = Some (JObj sel)"
    using written_selection [of b cond] b(1)
    by (auto simp: rule_in_ok_def detection_has_selection_def split: option.splits json.splits)
  have src: "(case get_or_empty ?T ?w ''selection'' of JObj selection \<Rightarrow> opt_str (dict_get selection ''source'' JNull) | _ \<Rightarrow> Inr None) =
      opt_str (dict_get sel ''source'' JNull)"
    using sel by (auto simp: get_or_empty_def or_else_def py_truthy_def)
  have st: "source_text ?w = is_ok (opt_str (dict_get sel ''source'' JNull))" using sel by (simp add: source_text_def)
  have n: "count_field ?T (dict_get ?w ''count'' JNull) = Inr (Some n)"
    using b(2) by (simp add: dict_get_def written_count count_field_def py_int_of_def)
  have cd: "int_or_none e (dict_get ?d ''cooldown_sec'' JNull) = Inr (ri_cooldown b)"
    by (cases "ri_cooldown b") (simp_all add: dict_get_def doc_options int_or_none_def)
  obtain dk where dk: "opt_str (dict_get ?d ''dedup_key'' JNull) = Inr dk"
    by (cases "truthy_text (ri_dedup b)") (auto simp: dict_get_def doc_options opt_str_def)
  obtain a where a: "opt_dict (dict_get ?d ''action'' JNull) = Inr a"
  proof (cases "ri_action b = None \<or> ri_action b = Some []")
    case False
    then obtain kv d where "ri_action b = Some (kv # d)" by (cases "ri_action b"; cases "the (ri_action b)") auto
    then show ?thesis using that by (simp add: opt_dict_def dict_get_def doc_options)
  qed (use that in \<open>auto simp: opt_dict_def dict_get_def doc_options\<close>)
  obtain m where m: "collect_mitre ?T ?d = Inr m"
    using tags_readable [of "JArr []" ?T i b cond] by (auto simp: collect_mitre_def)
  obtain tg where tg: "(case iter_values ?T (dict_get ?d ''tags'' JNull) of None \<Rightarrow> Inl 500 | Some vs \<Rightarrow> str_list vs) = Inr tg"
    using tags_readable [of JNull ?T i b cond] by auto
  have cn: "py_str ?T (or_else ?T ?w ''condition'' (JStr ''selection'')) = cond"
    using c by (simp add: or_else_def written_condition py_truthy_def py_str_def)
  show ?thesis
    unfolding detail_of_def Let_def s json.case src n cd dk a m tg cn bind_res_simps st if_P [OF l(1)]
    by (cases "opt_str (dict_get sel ''source'' JNull)")
      (auto simp: opt_str_def split: json.splits)
qed

text \<open>
  What a creation does.  An accepted body whose file does not exist yet is written to
  \<open>custom/<id>.yml\<close> as the document of the body and is found under its identifier; the
  answer then shows it with the fields of the body.  If the selection's \<open>source\<close> is not a
  text (a list of alternatives, say, which the engine would match) the answer is 500 although
  the rule is stored and active.
\<close>

theorem create_rule_exact:
  assumes "yaml_ok e" "fresh_ok e" and b: "rule_in_ok b" "ri_count b = Some n"
    and "sanitize_rule_id e (ri_id b) (ri_title b) = Inr i" and "validate_condition (ri_condition b) = Inr cond"
    and "map_of (st_custom s) (i @ ''.yml'') = None"
  shows "let yaml = build_yaml e i b cond; (reply, s') = create_rule e b s
    in s' = s\<lparr>st_custom := dict_set (i @ ''.yml'') yaml (st_custom s)\<rparr> \<and>
       first_existing i s' = Some (yaml, ''custom'') \<and>
       (if source_text (written_detection b cond)
        then \<exists>d. reply = Inr d \<and> rd_id d = i \<and> rd_title d = ri_title b \<and> rd_level d = ri_level b \<and> rd_yaml d = yaml \<and>
               rd_condition d = cond \<and> rd_count d = Some n \<and> rd_cooldown d = ri_cooldown b \<and>
               rd_detection d = written_detection b cond
        else reply = Inl 500)"
proof -
  let ?y = "build_yaml e i b cond" and ?s = "atomic_write_custom (i @ ''.yml'') (build_yaml e i b cond) s"
  have id: "RULE_ID_PATTERN i" by (rule ID_RE_pattern [OF sanitize_ok [OF assms(2,5)]])
  have ne: "i \<noteq> []" "cond \<noteq> []" using pattern_chars [OF id] accepted_condition [OF assms(6)] by auto
  have "count_ok (rs_T e) b" using b(2) by (simp add: count_ok_def)
  from written_file_ok [OF assms(1) b(1) this id assms(6)] obtain r where r: "parse_text e ?y = Inr [r]" by blast
  have fe: "first_existing i ?s = Some (?y, ''custom'')" by (simp add: first_existing_def atomic_write_custom_def)
  have "rs_load e ?y = Some (JObj (rule_doc i b cond))" using assms(1) by (simp add: yaml_ok_def build_yaml_def)
  moreover have "py_truthy (rs_T e) (JObj (rule_doc i b cond))" by (simp add: py_truthy_def rule_doc_def Let_def)
  ultimately have "get_rule e i ?s = detail_of e i ?y (rule_doc i b cond) ''custom''"
    using id fe by (simp add: get_rule_def read_rule_detail_def validate_rule_id_def)
  moreover have "create_rule e b s = (get_rule e i ?s, ?s)"
    using assms(7) b(1) r by (simp add: create_rule_def assms(5,6) Let_def)
  ultimately have "create_rule e b s = (detail_of e i ?y (rule_doc i b cond) ''custom'', ?s)" by simp
  with fe detail_reply [OF b ne, of e ?y "''custom''"] show ?thesis
    unfolding Let_def by (auto simp: atomic_write_custom_def)
qed

theorem create_rule_exact_witness:
  "(\<exists>d. fst (create_rule demo_studio_env demo_rule_in empty_studio) = Inr d \<and> rd_id d = ''brute-force'' \<and> rd_count d = Some 5) \<and>
   fst (create_rule demo_studio_env (demo_rule_in\<lparr>ri_detection :=
     [(''selection'', JObj [(''source'', JArr [JStr ''sshd'', JStr ''sudo''])])]\<rparr>) empty_studio) = Inl 500"
proof -
  let ?b = "demo_rule_in\<lparr>ri_detection := [(''selection'', JObj [(''source'', JArr [JStr ''sshd'', JStr ''sudo''])])]\<rparr>"
  have a: "rule_in_ok demo_rule_in" "ri_count demo_rule_in = Some 5"
    "sanitize_rule_id demo_studio_env (ri_id demo_rule_in) (ri_title demo_rule_in) = Inr ''brute-force''"
    "validate_condition (ri_condition demo_rule_in) = Inr ''selection''"
    "map_of (st_custom empty_studio) (''brute-force'' @ ''.yml'') = None"
    "source_text (written_detection demo_rule_in ''selection'')"
    by code_simp+
  have b: "rule_in_ok ?b" "ri_count ?b = Some 5"
    "sanitize_rule_id demo_studio_env (ri_id ?b) (ri_title ?b) = Inr ''brute-force''"
    "validate_condition (ri_condition ?b) = Inr ''selection''"
    "\<not> source_text (written_detection ?b ''selection'')"
    by code_simp+
  from create_rule_exact [OF demo_studio_laws a(1-5)] a(6)
    create_rule_exact [OF demo_studio_laws b(1-4) a(5)] b(5)
  show ?thesis by (auto simp: Let_def split: prod.splits)
qed

subsection \<open>Listing and looking up disagree\<close>

text \<open>
  A custom rule does not hide a built-in rule of the same identifier: the keys of the list
  carry the source, so both are shown, although the code and its documentation say that the
  custom rule wins.
\<close>

lemma custom_does_not_hide_builtin:
  assumes "st_builtin s = [(p, t)]" "st_custom s = [(q, u)]" "py_endswith p ''.yml''" "py_endswith q ''.yml''"
    "\<not> py_endswith p ''.yaml''" "\<not> py_endswith q ''.yaml''"
    and "summarize_rule e ''builtin'' p t = Inr (Some x)" "summarize_rule e ''custom'' q u = Inr (Some y)"
    and "su_id x = su_id y"
  shows "list_rules e s = Inr [y, x]"
  using assms by (simp add: list_rules_def glob_files_def Let_def)

text \<open>
  The list walks subdirectories, the other endpoints do not: a built-in rule below a
  subdirectory is listed, but reading it gives 404, and so does an attempt to replace or
  delete it, where the code promises 409.
\<close>

lemma nested_builtin_unreachable:
  assumes "RULE_ID_PATTERN i" and "st_custom s = []"
    and "list_all (\<lambda>f. CHR ''/'' \<in> set (fst f) \<or> (fst f \<noteq> i @ ''.yml'' \<and> fst f \<noteq> i @ ''.yaml'')) (st_builtin s)"
  shows "get_rule e i s = Inl 404" and "fst (delete_rule i s) = 404"
    and "rule_in_ok b \<Longrightarrow> fst (update_rule e i b s) = Inl 404"
proof -
  have "CHR ''/'' \<notin> set (i @ ''.yml'')" "CHR ''/'' \<notin> set (i @ ''.yaml'')" using pattern_chars [OF assms(1)] by auto
  then have n: "map_of (st_builtin s) (i @ ''.yml'') = None" "map_of (st_builtin s) (i @ ''.yaml'') = None"
    using assms(3) unfolding map_of_eq_None_iff list_all_iff by fastforce+
  show "get_rule e i s = Inl 404"
    using n assms(1,2) by (simp add: get_rule_def read_rule_detail_def validate_rule_id_def first_existing_def)
  show "fst (delete_rule i s) = 404"
    using n assms(1,2) by (simp add: delete_rule_def validate_rule_id_def)
  show "rule_in_ok b \<Longrightarrow> fst (update_rule e i b s) = Inl 404"
    using n assms(1,2) by (simp add: update_rule_def validate_rule_id_def)
qed

text \<open>
  A creation whose file does not compile leaves it on disk: with a count that is no number
  inside the detection block and none in the body the answer is 500 and the file is there.
  The comment above the call says that the text is compiled before the disk is touched.
\<close>

lemma broken_rule_stays:
  assumes "yaml_ok e" "fresh_ok e" "rule_in_ok b" "ri_count b = None"
    and "map_of (ri_detection b) ''count'' = Some (JStr ''many'')"
    and "sanitize_rule_id e (ri_id b) (ri_title b) = Inr i" and "validate_condition (ri_condition b) = Inr cond"
    and "map_of (st_custom s) (i @ ''.yml'') = None"
  shows "create_rule e b s = (Inl 500, atomic_write_custom (i @ ''.yml'') (build_yaml e i b cond) s)"
proof -
  have id: "RULE_ID_PATTERN i" by (rule ID_RE_pattern [OF sanitize_ok [OF assms(2,6)]])
  have "py_int ''many'' = None" by code_simp
  then have n: "int_field T (or_else T (written_detection b cond) ''count'' (JInt 1)) = Inl Load_ValueError" for T
    using assms(4,5) by (simp add: int_field_def or_else_def written_count py_truthy_def py_int_of_def)
  obtain sel where sel: "map_of (written_detection b cond) ''selection'' = Some (JObj sel)"
    using written_selection [of b cond] assms(3)
    by (auto simp: rule_in_ok_def detection_has_selection_def split: option.splits json.splits)
  have "ri_level b \<in> {''low'', ''medium'', ''high'', ''critical''}" "ri_level b \<noteq> []"
    using assms(3) by (auto simp: rule_in_ok_def LEVELS_def)
  then have l: "py_str T (or_else T (rule_doc i b cond) ''level'' x) \<in> {''low'', ''medium'', ''high'', ''critical''}" for x T
    by (simp add: or_else_def doc_lookups py_truthy_def py_str_def)
  have "compile_rule (rs_T e) (rule_doc i b cond) = Inl Load_ValueError"
    unfolding compile_rule_def Let_def doc_lookups(4) option.case json.case sel n bind_res_simps using l by simp
  then have "parse_text e (build_yaml e i b cond) = Inl Load_ValueError"
    using assms(1) by (simp add: parse_text_def build_yaml_def yaml_ok_def parse_rule_file_def)
  then show ?thesis using assms by (simp add: create_rule_def Let_def load_status_def)
qed

subsection \<open>The test bench reads syslog lines\<close>

definition no_space :: "string \<Rightarrow> bool" where
  "no_space s \<longleftrightarrow> s \<noteq> [] \<and> list_all (\<lambda>c. \<not> py_isspace c) s"

lemma takeWhile_nonspace: "no_space h \<Longrightarrow> takeWhile (\<lambda>c. \<not> py_isspace c) (h @ CHR '' '' # t) = h"
  by (induction h) (auto simp: no_space_def list_all_iff takeWhile_append char_class_defs)

lemma syslog_proc_name:
  assumes "list_all (\<lambda>c. py_isword c \<or> c = CHR ''-'') p" and "p \<noteq> []"
    and "ds \<noteq> []" "list_all py_isdigit ds" and "CHR 0x0A \<notin> set m" and "m = [] \<or> \<not> py_isspace (hd m)"
  shows "syslog_proc acc (p @ ''['' @ ds @ '']: '' @ m) = Some (acc @ p, Some ds, m)"
  using assms(1,2)
proof (induction p arbitrary: acc)
  case (Cons c p)
  have sp: "\<not> py_isspace c" using Cons.prems(1) by (auto simp: char_class_defs)
  have sm: "syslog_msg ('': '' @ m) = Some m"
  proof -
    have "dropWhile py_isspace m = m" using assms(6) by (cases m) auto
    moreover have tw: "takeWhile (\<lambda>d. d \<noteq> CHR 0x0A) m = m" using assms(5) by (auto simp: takeWhile_eq_all_conv)
    moreover have "py_isspace (CHR '' '')" by (simp add: char_class_defs)
    ultimately show ?thesis by (simp add: syslog_msg_def Let_def tw del: takeWhile_eq_all_conv)
  qed
  have pid: "syslog_pid (''['' @ ds @ '']: '' @ m) = Some (ds, '': '' @ m)"
  proof -
    have "takeWhile py_isdigit (ds @ '']: '' @ m) = ds"
      using assms(4) by (induction ds) (auto simp: char_class_defs)
    then show ?thesis using assms(3) by (simp add: syslog_pid_def strip_prefix_def)
  qed
  show ?case
  proof (cases p)
    case Nil
    then show ?thesis using sp sm pid by (simp add: syslog_proc.simps [of acc])
  next
    case (Cons d q)
    have d: "d \<noteq> CHR ''['' \<and> d \<noteq> CHR '':''" using Cons.prems(1) Cons by (auto simp: char_class_defs)
    then have "syslog_pid (p @ ''['' @ ds @ '']: '' @ m) = None" "syslog_msg (p @ ''['' @ ds @ '']: '' @ m) = None"
      by (auto simp: Cons syslog_pid_def strip_prefix_def syslog_msg_def Let_def)
    moreover have "syslog_proc (acc @ [c]) (p @ ''['' @ ds @ '']: '' @ m) = Some ((acc @ [c]) @ p, Some ds, m)"
      using Cons.IH Cons.prems Cons by simp
    ultimately show ?thesis using sp by (simp add: syslog_proc.simps [of acc])
  qed
qed simp

lemma syslog_line_read:
  assumes "no_space h" and "list_all (\<lambda>c. py_isword c \<or> c = CHR ''-'') p" "p \<noteq> []" "ds \<noteq> []" "list_all py_isdigit ds"
    and "CHR 0x0A \<notin> set m" "m = [] \<or> \<not> py_isspace (hd m)"
  shows "syslog_tail (h @ '' '' @ p @ ''['' @ ds @ '']: '' @ m) = Some (h, p, Some ds, m)"
proof -
  have "ws1 ('' '' @ p @ ''['' @ ds @ '']: '' @ m) = Some (p @ ''['' @ ds @ '']: '' @ m)"
    using assms(2,3) by (cases p) (auto simp: ws1_def char_class_defs)
  with syslog_proc_name [OF assms(2-7), of "[]"] takeWhile_nonspace [OF assms(1)] assms(1)
  show ?thesis by (simp add: syslog_tail_def no_space_def)
qed

end
