(* ===== verification/Toml.thy ===== *)
theory Toml
  imports Prelude
begin

section \<open>Writing and reading TOML\<close>

text \<open>
  The writer of \<open>api/v1/agents_provision.py\<close> (\<open>_toml_quote\<close>,
  \<open>_toml_array_of_tables\<close>) and the part of the standard library's \<open>tomllib\<close>
  that its output exercises: comment lines, blank lines, \<open>[table]\<close> and
  \<open>[[array of tables]]\<close> headers with bare names, and \<open>key = value\<close> with a basic
  string, a Boolean or a decimal integer.  \<open>None\<close> is a \<open>TOMLDecodeError\<close>; quoted and
  dotted keys, floats, dates, arrays, inline tables and multi-line strings are outside the
  reader, which rejects them.  A text is the list of the bytes of its UTF-8 encoding: the
  writer and the reader treat bytes above 127 alike, as themselves.
\<close>

named_theorems toml_simps "what the reader makes of the lines the writer emits"

subsection \<open>The writer\<close>

definition hex_upper :: "nat \<Rightarrow> char" where
  "hex_upper d = (if d < 10 then char_of (48 + d) else char_of (55 + d))"

definition hex4 :: "nat \<Rightarrow> string" where
  \<comment> \<open>\<open>f"{cp:04X}"\<close> of a number below 65536\<close>
  "hex4 n = [hex_upper (n div 4096 mod 16), hex_upper (n div 256 mod 16),
             hex_upper (n div 16 mod 16), hex_upper (n mod 16)]"

definition is_control :: "char \<Rightarrow> bool" where
  "is_control c \<longleftrightarrow> ord c < 32 \<or> ord c = 127"

definition toml_escape :: "char \<Rightarrow> string" where
  "toml_escape c =
     (if c = CHR 0x5C then [CHR 0x5C, CHR 0x5C]
      else if c = CHR 0x22 then [CHR 0x5C, CHR 0x22]
      else if is_control c then CHR 0x5C # CHR ''u'' # hex4 (ord c)
      else [c])"

definition toml_quote :: "string \<Rightarrow> string" where
  "toml_quote v = [CHR 0x22] @ concat (map toml_escape v) @ [CHR 0x22]"

definition toml_pair :: "string \<times> string \<Rightarrow> string" where
  "toml_pair kv = fst kv @ '' = '' @ toml_quote (snd kv)"

definition toml_array_of_tables :: "string str_dict list \<Rightarrow> string" where
  "toml_array_of_tables rows =
     (let chunks = concat (map (\<lambda>row. (CHR 0x0A # ''[[log_source]]'') # map toml_pair row) rows)
      in py_join [CHR 0x0A] chunks @ (if chunks \<noteq> [] then [CHR 0x0A] else []))"

subsection \<open>The reader\<close>

datatype toml =
  TStr string
| TBool bool
| TInt nat
| TTable "(string \<times> toml) list"
| TArr "(string \<times> toml) list list"

datatype toml_pos = Top | In_table string | In_array string   \<comment> \<open>where a key goes\<close>

type_synonym toml_doc = "toml str_dict"

definition toml_blank :: "char \<Rightarrow> bool" where
  "toml_blank c \<longleftrightarrow> ord c = 32 \<or> ord c = 9"

definition bare_char :: "char \<Rightarrow> bool" where
  "bare_char c \<longleftrightarrow> py_isalnum c \<or> ord c = 95 \<or> ord c = 45"

definition hex_digit :: "char \<Rightarrow> nat option" where
  "hex_digit c =
     (if 48 \<le> ord c \<and> ord c \<le> 57 then Some (ord c - 48)
      else if 65 \<le> ord c \<and> ord c \<le> 70 then Some (ord c - 55)
      else if 97 \<le> ord c \<and> ord c \<le> 102 then Some (ord c - 87)
      else None)"

fun read_hex4 :: "string \<Rightarrow> (nat \<times> string) option" where
  "read_hex4 (a # b # c # d # s) =
     (case (hex_digit a, hex_digit b, hex_digit c, hex_digit d) of
        (Some w, Some x, Some y, Some z) \<Rightarrow> Some (((w * 16 + x) * 16 + y) * 16 + z, s)
      | _ \<Rightarrow> None)"
| "read_hex4 _ = None"

definition simple_escape :: "char \<Rightarrow> char option" where
  "simple_escape c =
     map_of [(CHR ''b'', CHR 0x08), (CHR ''t'', CHR 0x09), (CHR ''n'', CHR 0x0A), (CHR ''f'', CHR 0x0C),
       (CHR ''r'', CHR 0x0D), (CHR 0x22, CHR 0x22), (CHR 0x5C, CHR 0x5C)] c"

function (sequential) basic_chars :: "string \<Rightarrow> string \<Rightarrow> (string \<times> string) option" where
  \<comment> \<open>up to the closing quotation mark; an escaped code point above 127 is outside the reader\<close>
  "basic_chars acc [] = None"
| "basic_chars acc (c # s) =
     (if c = CHR 0x22 then Some (acc, s)
      else if c = CHR 0x5C then
        (case s of
           [] \<Rightarrow> None
         | e # t \<Rightarrow>
             if e = CHR ''u'' then
               (case read_hex4 t of
                  None \<Rightarrow> None
                | Some (n, r) \<Rightarrow> if n < 128 then basic_chars (acc @ [char_of n]) r else None)
             else (case simple_escape e of
                  None \<Rightarrow> None
                | Some d \<Rightarrow> basic_chars (acc @ [d]) t))
      else if is_control c \<and> ord c \<noteq> 9 then None
      else basic_chars (acc @ [c]) s)"
  by pat_completeness auto

lemma read_hex4_shorter: "read_hex4 t = Some (n, r) \<Longrightarrow> length r < length t"
  by (induction t rule: read_hex4.induct) (auto split: option.splits)

termination basic_chars
  by (relation "measure (\<lambda>(acc, s). length s)") (auto dest: read_hex4_shorter)

definition toml_value :: "string \<Rightarrow> (toml \<times> string) option" where
  "toml_value s =
     (case s of
        [] \<Rightarrow> None
      | c # t \<Rightarrow>
          if prefix [CHR 0x22, CHR 0x22, CHR 0x22] s then None
          else if c = CHR 0x22 then map_option (\<lambda>(v, r). (TStr v, r)) (basic_chars [] t)
          else if prefix ''true'' s then Some (TBool True, drop 4 s)
          else if prefix ''false'' s then Some (TBool False, drop 5 s)
          else let ds = takeWhile py_isdigit s; r = drop (length ds) s
               in if ds = [] \<or> (hd ds = CHR ''0'' \<and> ds \<noteq> ''0'') then None
                  else map_option (\<lambda>n. (TInt n, r)) (read_digits False 0 ds))"

definition toml_rest_ok :: "string \<Rightarrow> bool" where
  \<comment> \<open>blanks and at most a comment, which holds no control character but the tab\<close>
  "toml_rest_ok s =
     (case dropWhile toml_blank s of
        [] \<Rightarrow> True
      | c # t \<Rightarrow> c = CHR ''#'' \<and> list_all (\<lambda>d. \<not> is_control d \<or> ord d = 9) t)"

definition toml_put :: "toml_pos \<Rightarrow> string \<Rightarrow> toml \<Rightarrow> toml_doc \<Rightarrow> toml_doc option" where
  \<comment> \<open>a key that is there already is an error\<close>
  "toml_put p k v doc =
     (case p of
        Top \<Rightarrow> if map_of doc k = None then Some (doc @ [(k, v)]) else None
      | In_table n \<Rightarrow>
          (case map_of doc n of
             Some (TTable d) \<Rightarrow>
               if map_of d k = None then Some (dict_set n (TTable (d @ [(k, v)])) doc) else None
           | _ \<Rightarrow> None)
      | In_array n \<Rightarrow>
          (case map_of doc n of
             Some (TArr ds) \<Rightarrow>
               if ds \<noteq> [] \<and> map_of (last ds) k = None
               then Some (dict_set n (TArr (butlast ds @ [last ds @ [(k, v)]])) doc) else None
           | _ \<Rightarrow> None))"

definition toml_open_array :: "string \<Rightarrow> toml_doc \<Rightarrow> (toml_doc \<times> toml_pos) option" where
  "toml_open_array n doc =
     (case map_of doc n of
        None \<Rightarrow> Some (doc @ [(n, TArr [[]])], In_array n)
      | Some (TArr ds) \<Rightarrow> Some (dict_set n (TArr (ds @ [[]])) doc, In_array n)
      | _ \<Rightarrow> None)"

definition toml_open_table :: "string \<Rightarrow> toml_doc \<Rightarrow> (toml_doc \<times> toml_pos) option" where
  "toml_open_table n doc =
     (case map_of doc n of None \<Rightarrow> Some (doc @ [(n, TTable [])], In_table n) | _ \<Rightarrow> None)"

definition toml_keyval :: "string \<Rightarrow> (string \<times> toml) option" where
  "toml_keyval s =
     (let k = takeWhile bare_char s; r = dropWhile toml_blank (drop (length k) s)
      in case r of
           [] \<Rightarrow> None
         | c # t \<Rightarrow>
             if k = [] \<or> c \<noteq> CHR ''='' then None
             else case toml_value (dropWhile toml_blank t) of
                 None \<Rightarrow> None
               | Some (v, rest) \<Rightarrow> if toml_rest_ok rest then Some (k, v) else None)"

definition toml_line :: "string \<Rightarrow> toml_doc \<times> toml_pos \<Rightarrow> (toml_doc \<times> toml_pos) option" where
  "toml_line raw st =
     (case st of (doc, p) \<Rightarrow>
        let s = dropWhile toml_blank raw in
        if toml_rest_ok s then Some (doc, p)
        else if prefix ''[['' s then
          (let n = takeWhile bare_char (drop 2 s); r = drop (2 + length n) s
           in if n \<noteq> [] \<and> prefix '']]'' r \<and> toml_rest_ok (drop 2 r) then toml_open_array n doc else None)
        else if prefix ''['' s then
          (let n = takeWhile bare_char (drop 1 s); r = drop (1 + length n) s
           in if n \<noteq> [] \<and> prefix '']'' r \<and> toml_rest_ok (drop 1 r) then toml_open_table n doc else None)
        else case toml_keyval s of
            None \<Rightarrow> None
          | Some (k, v) \<Rightarrow> map_option (\<lambda>d. (d, p)) (toml_put p k v doc))"

fun toml_lines :: "string list \<Rightarrow> toml_doc \<times> toml_pos \<Rightarrow> (toml_doc \<times> toml_pos) option" where
  "toml_lines [] st = Some st"
| "toml_lines (l # ls) st = (case toml_line l st of None \<Rightarrow> None | Some st' \<Rightarrow> toml_lines ls st')"

definition toml_loads :: "string \<Rightarrow> toml_doc option" where
  "toml_loads s = map_option fst (toml_lines (py_split (CHR 0x0A) s) ([], Top))"

subsection \<open>Reading back what was written\<close>

lemma ord_hex_upper: "d < 16 \<Longrightarrow> ord (hex_upper d) = (if d < 10 then 48 + d else 55 + d)"
  by (simp add: ord_def hex_upper_def)

lemma hex_digit_upper [simp]: "d < 16 \<Longrightarrow> hex_digit (hex_upper d) = Some d"
  by (auto simp: hex_digit_def ord_hex_upper)

lemma read_hex4_hex4:
  assumes "n < 65536"
  shows "read_hex4 (hex4 n @ s) = Some (n, s)"
proof -
  have e: "n div 4096 mod 16 = n div 4096" using assms by simp
  have "n div 4096 * 16 + n div 256 mod 16 = n div 256"
    using div_mult_mod_eq [of "n div 256" 16] by (simp add: div_mult2_eq [symmetric])
  moreover have "n div 256 * 16 + n div 16 mod 16 = n div 16"
    using div_mult_mod_eq [of "n div 16" 16] by (simp add: div_mult2_eq [symmetric])
  ultimately have "((n div 4096 * 16 + n div 256 mod 16) * 16 + n div 16 mod 16) * 16 + n mod 16 = n"
    by simp
  moreover have "n div 4096 < 16" using assms by simp
  ultimately show ?thesis using e by (simp add: hex4_def)
qed

lemma hex_upper_visible: "d < 16 \<Longrightarrow> \<not> is_control (hex_upper d) \<and> hex_upper d \<noteq> CHR 0x22"
proof -
  assume d: "d < 16"
  then have "ord (hex_upper d) \<noteq> ord (CHR 0x22)" by (simp add: ord_hex_upper) (simp add: ord_def)
  then have "hex_upper d \<noteq> CHR 0x22" by metis
  with d show ?thesis by (simp add: is_control_def ord_hex_upper)
qed

lemma toml_escape_visible: "c \<in> set (toml_escape d) \<Longrightarrow> \<not> is_control c"
  using hex_upper_visible by (auto simp: toml_escape_def hex4_def is_control_def ord_def split: if_splits)

lemma basic_chars_escape:
  "basic_chars acc (toml_escape c @ s) = basic_chars (acc @ [c]) s"
proof -
  consider "c = CHR 0x5C" | "c = CHR 0x22" | "is_control c" "c \<noteq> CHR 0x5C" "c \<noteq> CHR 0x22"
    | "\<not> is_control c" "c \<noteq> CHR 0x5C" "c \<noteq> CHR 0x22" by blast
  then show ?thesis
  proof cases
    case 3
    then have "ord c < 128" by (auto simp: is_control_def)
    moreover from this have "ord c < 65536" by simp
    ultimately show ?thesis using 3 by (simp add: toml_escape_def read_hex4_hex4) (simp add: ord_def)
  qed (simp_all add: toml_escape_def simple_escape_def)
qed

lemma basic_chars_quoted:
  "basic_chars acc (concat (map toml_escape v) @ CHR 0x22 # s) = Some (acc @ v, s)"
  by (induction v arbitrary: acc) (simp_all add: basic_chars_escape)

declare basic_chars.simps [simp del]

lemma toml_quote_visible: "c \<in> set (toml_quote v) \<Longrightarrow> \<not> is_control c"
  using toml_escape_visible by (auto simp: toml_quote_def) (simp add: is_control_def ord_def)

lemma newline_control [simp]: "is_control (CHR 0x0A)"
  by (simp add: is_control_def ord_def)

lemma toml_quote_one_line: "CHR 0x0A \<notin> set (toml_quote v)"
  using toml_quote_visible newline_control by blast

lemma toml_value_quote: "toml_value (toml_quote v) = Some (TStr v, [])"
proof -
  have "\<not> prefix [CHR 0x22, CHR 0x22, CHR 0x22] (toml_quote v)"
  proof (cases v)
    case (Cons c w)
    then show ?thesis
      by (cases "c = CHR 0x22") (auto simp: toml_quote_def toml_escape_def)
  qed (simp add: toml_quote_def)
  moreover have "basic_chars [] (concat (map toml_escape v) @ [CHR 0x22]) = Some (v, [])"
    using basic_chars_quoted [of "[]" v "[]"] by simp
  ultimately show ?thesis by (simp add: toml_value_def toml_quote_def)
qed

lemma toml_rest_ok_Nil [simp]: "toml_rest_ok []"
  by (simp add: toml_rest_ok_def)

lemma bare_char_visible:
  assumes "bare_char c"
  shows "\<not> toml_blank c" and "c \<noteq> CHR ''#''" and "c \<noteq> CHR ''[''" and "c \<noteq> CHR ''=''"
  using assms by (auto simp: bare_char_def toml_blank_def char_class_defs)

lemma blank_not_bare: "toml_blank c \<Longrightarrow> \<not> bare_char c"
  using bare_char_visible(1) by blast

definition bare_key :: "string \<Rightarrow> bool" where
  "bare_key k \<longleftrightarrow> k \<noteq> [] \<and> list_all bare_char k"

lemma dropWhile_all: "list_all p xs \<Longrightarrow> dropWhile p (xs @ ys) = dropWhile p ys"
  by (induction xs) auto

lemma takeWhile_stop: "list_all p xs \<Longrightarrow> \<not> p y \<Longrightarrow> takeWhile p (xs @ y # ys) = xs"
  by (induction xs) auto

lemma takeWhile_key:
  assumes "bare_key k" and "list_all toml_blank b"
  shows "takeWhile bare_char (k @ b @ CHR ''='' # w) = k"
proof (cases b)
  case Nil
  have "\<not> bare_char (CHR ''='')" using bare_char_visible(4) by blast
  then show ?thesis using assms Nil takeWhile_stop [of bare_char k "CHR ''=''"] by (simp add: bare_key_def)
next
  case (Cons c t)
  then show ?thesis using assms blank_not_bare takeWhile_stop [of bare_char k c] by (simp add: bare_key_def)
qed

lemma toml_keyval_line:
  assumes k: "bare_key k" and b: "list_all toml_blank b" and w: "\<not> toml_blank (hd w)" "w \<noteq> []"
  shows "toml_keyval (k @ b @ ''= '' @ w) =
    (case toml_value w of None \<Rightarrow> None | Some (v, r) \<Rightarrow> if toml_rest_ok r then Some (k, v) else None)"
proof -
  have "\<not> toml_blank (CHR ''='')" "toml_blank (CHR '' '')" by (simp_all add: toml_blank_def ord_def)
  moreover have "dropWhile toml_blank w = w" using w by (cases w) auto
  ultimately show ?thesis
    using k b takeWhile_key [OF k b, of "CHR '' '' # w"]
    by (simp add: toml_keyval_def Let_def dropWhile_all bare_key_def)
qed

lemma toml_line_keyval:
  assumes k: "bare_key k" and b: "list_all toml_blank b" and w: "\<not> toml_blank (hd w)" "w \<noteq> []"
  shows "toml_line (k @ b @ ''= '' @ w) (doc, p) =
    (case toml_value w of
       None \<Rightarrow> None
     | Some (v, r) \<Rightarrow> if toml_rest_ok r then map_option (\<lambda>d. (d, p)) (toml_put p k v doc) else None)"
proof -
  obtain c t where c: "k = c # t" "bare_char c" using k by (cases k) (auto simp: bare_key_def)
  note n = bare_char_visible [OF c(2)]
  have d: "dropWhile toml_blank (k @ b @ ''= '' @ w) = k @ b @ ''= '' @ w"
    using c n by simp
  have r: "\<not> toml_rest_ok (k @ b @ ''= '' @ w)" using c n d by (simp add: toml_rest_ok_def)
  show ?thesis
    unfolding toml_line_def prod.case Let_def d
    using c n r toml_keyval_line [OF assms] by (auto split: option.split)
qed

lemma toml_quote_hd [simp]: "hd (toml_quote v) = CHR 0x22" "toml_quote v \<noteq> []"
  by (simp_all add: toml_quote_def)

lemma quote_not_blank [simp]: "\<not> toml_blank (CHR 0x22)"
  by (simp add: toml_blank_def ord_def)

lemma toml_line_string:
  assumes "bare_key k" and "list_all toml_blank b"
  shows "toml_line (k @ b @ ''= '' @ toml_quote v) (doc, p) =
    map_option (\<lambda>d. (d, p)) (toml_put p k (TStr v) doc)"
  using toml_line_keyval [OF assms, of "toml_quote v"] by (simp add: toml_value_quote)

lemma toml_line_pair:
  assumes "bare_key k"
  shows "toml_line (toml_pair (k, v)) (doc, p) = map_option (\<lambda>d. (d, p)) (toml_put p k (TStr v) doc)"
proof -
  have "list_all toml_blank '' ''" by (simp add: toml_blank_def ord_def)
  from toml_line_string [OF assms this, of v doc p] show ?thesis by (simp add: toml_pair_def)
qed

subsection \<open>Lines and blocks\<close>

lemma py_split_append_sep:
  "py_split sep (a @ sep # b) = py_split sep a @ py_split sep b"
proof (induction a)
  case (Cons c a)
  then show ?case by (cases "py_split sep a") (auto split: list.splits)
qed simp

lemma py_split_join:
  "ws \<noteq> [] \<Longrightarrow> py_split sep (py_join [sep] ws) = concat (map (py_split sep) ws)"
  by (induction "[sep]" ws rule: py_join.induct) (simp_all add: py_split_append_sep)

lemma toml_lines_append:
  "toml_lines (a @ b) st = (case toml_lines a st of None \<Rightarrow> None | Some st' \<Rightarrow> toml_lines b st')"
  by (induction a arbitrary: st) (auto split: option.splits)

lemma toml_line_blank [simp]: "toml_line [] st = Some st"
  by (cases st) (simp add: toml_line_def)

lemma dict_set_last: "map_of d n = None \<Longrightarrow> dict_set n v (d @ [(n, w)]) = d @ [(n, v)]"
  by (induction n v d rule: dict_set.induct) (auto split: if_splits)

definition toml_row :: "string str_dict \<Rightarrow> toml str_dict" where
  "toml_row = map (\<lambda>(k, v). (k, TStr v))"

lemma map_of_toml_row: "map_of (toml_row r) k = map_option TStr (map_of r k)"
  by (simp add: toml_row_def map_of_map)

definition row_ok :: "string str_dict \<Rightarrow> bool" where
  "row_ok row \<longleftrightarrow> distinct (map fst row) \<and> list_all (\<lambda>kv. bare_key (fst kv)) row"

lemma toml_lines_pairs:
  assumes "row_ok (d @ row)" and n: "map_of doc n = None"
  shows "toml_lines (map toml_pair row) (doc @ [(n, TArr (ds @ [toml_row d]))], In_array n) =
    Some (doc @ [(n, TArr (ds @ [toml_row (d @ row)]))], In_array n)"
  using assms(1)
proof (induction row arbitrary: d)
  case (Cons kv row)
  obtain k v where kv: "kv = (k, v)" by (cases kv)
  have "map_of d k = None" and k: "bare_key k"
    using Cons.prems kv by (auto simp: row_ok_def map_of_eq_None_iff)
  then have "toml_line (toml_pair kv) (doc @ [(n, TArr (ds @ [toml_row d]))], In_array n) =
      Some (doc @ [(n, TArr (ds @ [toml_row (d @ [kv])]))], In_array n)"
    using n by (simp add: kv toml_line_pair toml_put_def map_add_def dict_set_last map_of_toml_row)
      (simp add: toml_row_def)
  moreover have "row_ok ((d @ [kv]) @ row)" using Cons.prems by simp
  ultimately show ?case using Cons.IH [of "d @ [kv]"] by simp
qed simp

definition log_doc :: "toml_doc \<Rightarrow> string str_dict list \<Rightarrow> toml_doc" where
  "log_doc doc rows = doc @ (if rows = [] then [] else [(''log_source'', TArr (map toml_row rows))])"

lemma toml_line_log_header:
  assumes "map_of doc ''log_source'' = None"
  shows "toml_line ''[[log_source]]'' (log_doc doc rows, p) =
    Some (doc @ [(''log_source'', TArr (map toml_row rows @ [[]]))], In_array ''log_source'')"
proof -
  have "dropWhile toml_blank ''[[log_source]]'' = ''[[log_source]]''"
    and "\<not> toml_rest_ok ''[[log_source]]''"
    and "takeWhile bare_char ''log_source]]'' = ''log_source''"
    by code_simp+
  with assms show ?thesis
    by (simp add: toml_line_def Let_def toml_open_array_def log_doc_def map_add_def dict_set_last)
qed

definition table_lines :: "string str_dict \<Rightarrow> string list" where
  "table_lines row = [] # ''[[log_source]]'' # map toml_pair row"

lemma toml_lines_tables:
  assumes n: "map_of doc ''log_source'' = None" and "list_all row_ok rows"
  shows "\<exists>p'. toml_lines (concat (map table_lines rows)) (log_doc doc done, p) =
    Some (log_doc doc (done @ rows), p')"
  using assms(2)
proof (induction rows arbitrary: "done" p)
  case (Cons row rows)
  have "toml_lines (table_lines row) (log_doc doc done, p) =
      Some (log_doc doc (done @ [row]), In_array ''log_source'')"
    using Cons.prems toml_line_log_header [OF n]
      toml_lines_pairs [of "[]" row doc "''log_source''" "map toml_row done", OF _ n]
    by (simp add: table_lines_def log_doc_def toml_row_def)
  moreover have "list_all row_ok rows" using Cons.prems by simp
  ultimately show ?case
    using Cons.IH [of "done @ [row]" "In_array ''log_source''"] by (simp add: toml_lines_append)
qed simp

lemma bare_key_one_line: "bare_key k \<Longrightarrow> CHR 0x0A \<notin> set k"
  by (auto simp: bare_key_def list_all_iff bare_char_def char_class_defs)

lemma toml_pair_one_line: "bare_key k \<Longrightarrow> CHR 0x0A \<notin> set (toml_pair (k, v))"
  using bare_key_one_line toml_quote_one_line by (auto simp: toml_pair_def)

definition log_chunks :: "string str_dict list \<Rightarrow> string list" where
  "log_chunks rows = concat (map (\<lambda>row. (CHR 0x0A # ''[[log_source]]'') # map toml_pair row) rows)"

lemma split_log_chunks:
  assumes "list_all row_ok rows"
  shows "concat (map (py_split (CHR 0x0A)) (log_chunks rows)) = concat (map table_lines rows)"
  using assms
proof (induction rows)
  case (Cons row rows)
  have "map (py_split (CHR 0x0A)) (map toml_pair row) = map (\<lambda>l. [l]) (map toml_pair row)"
    using Cons.prems by (auto simp: row_ok_def list_all_iff intro!: py_split_fresh toml_pair_one_line)
  then have "concat (map (py_split (CHR 0x0A)) (map toml_pair row)) = map toml_pair row"
    by (simp only: concat_map_singleton) simp
  with Cons show ?case by (simp add: log_chunks_def table_lines_def)
qed (simp add: log_chunks_def)

lemma last_py_join: "ws \<noteq> [] \<Longrightarrow> last ws \<noteq> [] \<Longrightarrow> py_join sep ws \<noteq> [] \<and> last (py_join sep ws) = last (last ws)"
  by (induction sep ws rule: py_join.induct) auto

lemma last_log_chunk:
  assumes "c \<in> set (log_chunks rows)"
  shows "c \<noteq> [] \<and> last c \<noteq> CHR 0x0A"
  using assms by (auto simp: log_chunks_def toml_pair_def toml_quote_def split: if_splits)

lemma rstrip_log_tables:
  "py_rstrip (\<lambda>c. c = CHR 0x0A) (toml_array_of_tables rows) = py_join [CHR 0x0A] (log_chunks rows)"
proof (cases "log_chunks rows = []")
  case True
  then show ?thesis by (simp add: toml_array_of_tables_def Let_def log_chunks_def [symmetric] py_rstrip_def)
next
  case False
  then have "last (log_chunks rows) \<in> set (log_chunks rows)" by simp
  from last_log_chunk [OF this] last_py_join [OF False, of "[CHR 0x0A]"]
  obtain x c where "py_join [CHR 0x0A] (log_chunks rows) = x @ [c]" "c \<noteq> CHR 0x0A"
    by (metis append_butlast_last_id)
  with False show ?thesis
    by (simp add: toml_array_of_tables_def Let_def log_chunks_def [symmetric] py_rstrip_def)
qed

lemma log_lines:
  assumes "list_all row_ok rows"
  shows "py_split (CHR 0x0A) (py_rstrip (\<lambda>c. c = CHR 0x0A) (toml_array_of_tables rows)) =
    (if rows = [] then [[]] else concat (map table_lines rows))"
proof (cases "rows = []")
  case False
  then have "log_chunks rows \<noteq> []" by (cases rows) (simp_all add: log_chunks_def)
  with False show ?thesis by (simp add: rstrip_log_tables py_split_join split_log_chunks [OF assms])
qed (simp add: rstrip_log_tables log_chunks_def)

lemma read_log_tables:
  assumes "map_of doc ''log_source'' = None" and "list_all row_ok rows"
  shows "\<exists>p'. toml_lines (py_split (CHR 0x0A) (py_rstrip (\<lambda>c. c = CHR 0x0A) (toml_array_of_tables rows)))
    (doc, p) = Some (log_doc doc rows, p')"
  using toml_lines_tables [OF assms, of "[]" p] log_lines [OF assms(2)]
  by (cases "rows = []") (simp_all add: log_doc_def)

end
