(* ===== verification/Shell.thy ===== *)
theory Shell
  imports Prelude
begin

section \<open>Quoting for the shell\<close>

text \<open>
  \<open>shlex.quote\<close> of the Python library, as \<open>api/v1/agents_provision.py\<close> uses it, and
  what a POSIX shell makes of one simple command: its words after quote removal, each
  character marked with whether the shell still looks at it for expansions
  (\<open>$\<close>, backquote, tilde, patterns).  Unquoted operators and backslashes are outside the
  reader (\<open>None\<close>), which is also the value for an unterminated quotation.
\<close>

definition shlex_safe :: "char \<Rightarrow> bool" where
  \<comment> \<open>\<open>[\w@%+=:,./-]\<close>\<close>
  "shlex_safe c \<longleftrightarrow> py_isword c \<or> c \<in> set ''@%+=:,./-''"

definition shlex_quote :: "string \<Rightarrow> string" where
  "shlex_quote s =
     (if s = [] then [CHR 0x27, CHR 0x27]
      else if list_all shlex_safe s then s
      else [CHR 0x27] @ py_replace_char (CHR 0x27) [CHR 0x27, CHR 0x22, CHR 0x27, CHR 0x22, CHR 0x27] s @ [CHR 0x27])"

type_synonym sh_word = "(char \<times> bool) list"

datatype sh_mode = Bare | Single | Double

definition sh_operator :: "char \<Rightarrow> bool" where
  "sh_operator c \<longleftrightarrow> c \<in> set ''|&;<>()#'' \<or> c = CHR 0x0A \<or> c = CHR 0x5C"

definition sh_cur :: "sh_word option \<Rightarrow> sh_word" where
  "sh_cur w = (case w of None \<Rightarrow> [] | Some x \<Rightarrow> x)"

definition sh_flush :: "sh_word option \<Rightarrow> sh_word list" where
  "sh_flush w = (case w of None \<Rightarrow> [] | Some x \<Rightarrow> [x])"

fun sh_lex :: "sh_mode \<Rightarrow> sh_word option \<Rightarrow> string \<Rightarrow> sh_word list option" where
  \<comment> \<open>the word being read is \<open>None\<close> between words; a pair of quotation marks starts one\<close>
  "sh_lex Bare w [] = Some (sh_flush w)"
| "sh_lex m w [] = None"
| "sh_lex Bare w (c # s) =
     (if c = CHR '' '' \<or> c = CHR 0x09 then map_option (\<lambda>ws. sh_flush w @ ws) (sh_lex Bare None s)
      else if c = CHR 0x27 then sh_lex Single (Some (sh_cur w)) s
      else if c = CHR 0x22 then sh_lex Double (Some (sh_cur w)) s
      else if sh_operator c then None
      else sh_lex Bare (Some (sh_cur w @ [(c, True)])) s)"
| "sh_lex Single w (c # s) =
     (if c = CHR 0x27 then sh_lex Bare w s else sh_lex Single (Some (sh_cur w @ [(c, False)])) s)"
| "sh_lex Double w (c # s) =
     (if c = CHR 0x22 then sh_lex Bare w s
      else if c = CHR 0x5C then None
      else sh_lex Double (Some (sh_cur w @ [(c, c = CHR ''$'' \<or> c = CHR 0x60)])) s)"

definition sh_words :: "string \<Rightarrow> sh_word list option" where
  "sh_words s = sh_lex Bare None s"

subsection \<open>Quoted words come back\<close>

definition sh_mark :: "string \<Rightarrow> sh_word" where
  \<comment> \<open>the word the shell sees for a quoted text\<close>
  "sh_mark s = map (\<lambda>c. (c, list_all shlex_safe s)) s"

lemma shlex_safe_plain:
  assumes "shlex_safe c"
  shows "c \<noteq> CHR '' '' \<and> c \<noteq> CHR 0x09 \<and> c \<noteq> CHR 0x27 \<and> c \<noteq> CHR 0x22 \<and> \<not> sh_operator c"
  using assms by (auto simp: shlex_safe_def sh_operator_def char_class_defs)

lemma sh_lex_safe:
  "list_all shlex_safe s \<Longrightarrow> sh_lex Bare (Some w) (s @ t) = sh_lex Bare (Some (w @ map (\<lambda>c. (c, True)) s)) t"
  by (induction s arbitrary: w) (simp_all add: shlex_safe_plain sh_cur_def)

lemma sh_lex_single:
  "sh_lex Single (Some w)
     (py_replace_char (CHR 0x27) [CHR 0x27, CHR 0x22, CHR 0x27, CHR 0x22, CHR 0x27] s @ CHR 0x27 # t) =
   sh_lex Bare (Some (w @ map (\<lambda>c. (c, False)) s)) t"
proof (induction s arbitrary: w)
  case (Cons c s)
  then show ?case by (auto simp: py_replace_char_def sh_cur_def)
qed (simp add: py_replace_char_def)

lemma sh_cur_simps [simp]: "sh_cur (Some w) = w" "sh_cur None = []"
  by (simp_all add: sh_cur_def)

lemma sh_lex_quote:
  "sh_lex Bare None (shlex_quote s @ t) = sh_lex Bare (Some (sh_mark s)) t"
proof -
  consider "s = []" | c u where "s = c # u" "list_all shlex_safe s" | "s \<noteq> []" "\<not> list_all shlex_safe s"
    by (cases s) auto
  then show ?thesis
  proof cases
    case 2
    then show ?thesis
      using sh_lex_safe [of u "[(c, True)]" t] shlex_safe_plain [of c]
      by (simp add: shlex_quote_def sh_mark_def)
  next
    case 3
    then show ?thesis using sh_lex_single [of "[]" s t] by (simp add: shlex_quote_def sh_mark_def)
  qed (simp add: shlex_quote_def sh_mark_def)
qed

text \<open>A command line of quoted arguments is read back as exactly those arguments.\<close>

lemma sh_words_join:
  "sh_words (py_join '' '' (map shlex_quote args)) = Some (map sh_mark args)"
proof (induction args)
  case (Cons a args)
  show ?case
  proof (cases args)
    case Nil
    then show ?thesis using sh_lex_quote [of a "[]"] by (simp add: sh_words_def sh_flush_def)
  next
    case (Cons b bs)
    have "sh_words (py_join '' '' (map shlex_quote (a # args))) =
        sh_lex Bare None (shlex_quote a @ CHR '' '' # py_join '' '' (map shlex_quote args))"
      by (simp add: sh_words_def Cons)
    also have "\<dots> = Some (map sh_mark (a # args))"
      using Cons.IH unfolding sh_lex_quote by (simp add: sh_flush_def sh_words_def)
    finally show ?thesis .
  qed
qed (simp add: sh_words_def sh_flush_def)

text \<open>No expansion character of a quoted text is left to the shell.\<close>

lemma sh_mark_no_expansion:
  assumes "(c, True) \<in> set (sh_mark s)"
  shows "shlex_safe c"
  using assms by (auto simp: sh_mark_def list_all_iff)

lemma sh_mark_text: "map fst (sh_mark s) = s"
  by (simp add: sh_mark_def comp_def)

end
