(* ===== verification/Provision.thy ===== *)
theory Provision
  imports Toml Shell Ip_Address Ws_Agent
begin

section \<open>The agent provisioner\<close>

text \<open>
  \<open>api/v1/agents_provision.py\<close>: the starter configuration of an agent, the rendered
  \<open>ssh\<close> and installer commands, the rotation of a host's secret and the configuration
  shown for a host.  A handler returns its status code on the left when it raises
  \<open>HTTPException\<close> (a body that fails the schema is 422), its reply on the right.  Random
  bytes, fresh ids, the clock and SHA-256 are arguments.  Texts are UTF-8 byte lists.
\<close>

datatype os_lit = Os_linux | Os_macos | Os_windows
datatype arch_lit = Amd64 | Arm64

definition os_text :: "os_lit \<Rightarrow> string" where
  "os_text os = (case os of Os_linux \<Rightarrow> ''linux'' | Os_macos \<Rightarrow> ''macos'' | Os_windows \<Rightarrow> ''windows'')"

definition arch_text :: "arch_lit \<Rightarrow> string" where
  "arch_text a = (case a of Amd64 \<Rightarrow> ''amd64'' | Arm64 \<Rightarrow> ''arm64'')"

definition LOG_SOURCE_PRESETS :: "os_lit \<Rightarrow> string str_dict list" where
  "LOG_SOURCE_PRESETS os =
     (case os of
        Os_linux \<Rightarrow> [[(''name'', ''auth''), (''path'', ''/var/log/auth.log'')],
                     [(''name'', ''syslog''), (''path'', ''/var/log/syslog'')]]
      | Os_macos \<Rightarrow> [[(''name'', ''unified_auth''), (''path'', ''/var/log/auth.log'')],
                     [(''name'', ''install''), (''path'', ''/var/log/install.log'')]]
      | Os_windows \<Rightarrow> [[(''name'', ''security_evtx''), (''path'', ''Security'')],
                       [(''name'', ''system_evtx''), (''path'', ''System'')]])"

definition MAX_TEMPLATE_BYTES :: nat where
  "MAX_TEMPLATE_BYTES = 64 * 1024"

definition DEFAULT_SERVER_URL :: string where
  "DEFAULT_SERVER_URL = ''wss://zaqorin.example.com:8443/api/v1/events''"

definition ZERO_DIGEST :: string where
  "ZERO_DIGEST = replicate 64 (CHR ''0'')"

definition ARTIFACT_SHA256_BY_OS :: "os_lit \<Rightarrow> string option" where
  "ARTIFACT_SHA256_BY_OS os =
     (case os of Os_linux \<Rightarrow> Some ZERO_DIGEST | Os_windows \<Rightarrow> Some ZERO_DIGEST | Os_macos \<Rightarrow> None)"

subsection \<open>Checks on host, user and key\<close>

definition HOST_RE :: "string \<Rightarrow> bool" where
  "HOST_RE = py_dollar (\<lambda>s. 2 \<le> length s \<and> length s \<le> 255 \<and> py_isalnum (hd s) \<and> py_isalnum (last s) \<and>
     list_all (\<lambda>c. py_isalnum c \<or> c \<in> set ''._-:'') s)"

definition USER_RE :: "string \<Rightarrow> bool" where
  "USER_RE = py_dollar (\<lambda>s. 1 \<le> length s \<and> length s \<le> 64 \<and> (py_isalpha (hd s) \<or> hd s = CHR ''_'') \<and>
     list_all (\<lambda>c. py_isalnum c \<or> c \<in> set ''_.-'') s)"

definition KEY_ID_RE :: "string \<Rightarrow> bool" where
  "KEY_ID_RE = py_dollar (\<lambda>s. 1 \<le> length s \<and> length s \<le> 128 \<and>
     list_all (\<lambda>c. py_isalnum c \<or> c \<in> set ''_.-/+=@:,'') s)"

definition safe_host :: "string \<Rightarrow> int + string" where
  "safe_host raw =
     (if raw = [] \<or> length raw > 255 then Inl 422
      else let candidate = (if py_startswith raw ''['' \<and> py_endswith raw '']'' then butlast (tl raw) else raw)
           in if HOST_RE candidate then Inr raw else Inl 422)"

definition safe_user :: "string \<Rightarrow> int + string" where
  "safe_user raw = (if USER_RE raw then Inr raw else Inl 422)"

definition safe_key_id :: "string option \<Rightarrow> int + string option" where
  "safe_key_id raw =
     (case raw of None \<Rightarrow> Inr None | Some k \<Rightarrow> if KEY_ID_RE k then Inr (Some k) else Inl 422)"

subsection \<open>The configuration file\<close>

definition toml_sections ::
  "os_lit \<Rightarrow> arch_lit \<Rightarrow> string \<Rightarrow> string \<Rightarrow> string \<Rightarrow> string str_dict list \<Rightarrow> bool \<Rightarrow> string list" where
  \<open>toml_sections os arch server_url agent_id auth_token log_sources include_windows_block =
     [''# ZaqorinCore agent configuration'',
      ''# Generated by /api/v1/agents/provision/template'',
      ''# OS: '' @ os_text os @ ''    Arch: '' @ arch_text arch,
      ''# See ARCHITECTURE.md and agent.example.toml for field semantics.'',
      [],
      ''server_url = '' @ toml_quote server_url,
      ''agent_id    = '' @ toml_quote agent_id,
      ''auth_token  = '' @ toml_quote auth_token,
      [],
      ''log_level = "info"'',
      (if os = Os_windows
       then ''state_dir = "C:'' @ [CHR 0x5C, CHR 0x5C] @ ''ProgramData'' @ [CHR 0x5C, CHR 0x5C] @ ''zaqorin-agent"''
       else ''state_dir = "/var/lib/zaqorin-agent"''),
      ''dry_run = true'',
      [],
      py_rstrip (\<lambda>c. c = CHR 0x0A) (toml_array_of_tables log_sources),
      []] @
     (if include_windows_block \<or> os = Os_windows
      then [''[windows_eventlog]'', ''mode = "pull"'', []] else []) @
     [''[response]'',
      ''allow_block_ip        = true'',
      ''allow_kill_process    = false'',
      ''allow_disable_user    = false'',
      ''block_default_ttl_sec = 3600'',
      []]\<close>

definition render_agent_toml ::
  "os_lit \<Rightarrow> arch_lit \<Rightarrow> string \<Rightarrow> string \<Rightarrow> string \<Rightarrow> string str_dict list option \<Rightarrow> bool \<Rightarrow> int + string" where
  "render_agent_toml os arch server_url agent_id auth_token log_sources include_windows_block =
     (let ls = (case log_sources of None \<Rightarrow> LOG_SOURCE_PRESETS os | Some l \<Rightarrow> l);
          rendered = py_join [CHR 0x0A]
            (toml_sections os arch server_url agent_id auth_token ls include_windows_block)
      in if length rendered > MAX_TEMPLATE_BYTES then Inl 422 else Inr rendered)"

definition parse_agent_toml :: "string \<Rightarrow> int + toml_doc" where
  "parse_agent_toml text = (case toml_loads text of None \<Rightarrow> Inl 500 | Some d \<Rightarrow> Inr d)"

record template_out =
  t_os :: os_lit
  t_arch :: arch_lit
  t_server_url :: string
  t_toml :: string
  t_filename :: string

definition token_hex :: "nat list \<Rightarrow> string" where
  "token_hex = hexdigest"

definition get_provision_template :: "nat list \<Rightarrow> string \<Rightarrow> os_lit \<Rightarrow> arch_lit \<Rightarrow> int + template_out" where
  \<comment> \<open>the random bytes of the token and the hexadecimal digits of the fresh UUID\<close>
  "get_provision_template token uuid_hex os arch =
     (let server_url = DEFAULT_SERVER_URL;
          auth_token = token_hex token;
          agent_id = ''agent-'' @ take 12 uuid_hex
      in bind_res (render_agent_toml os arch server_url agent_id auth_token None False) (\<lambda>toml_text.
         bind_res (parse_agent_toml toml_text) (\<lambda>_.
           Inr \<lparr>t_os = os, t_arch = arch, t_server_url = server_url, t_toml = toml_text,
                t_filename = ''agent-'' @ os_text os @ ''-'' @ arch_text arch @ ''.toml''\<rparr>)))"

subsection \<open>The rendered file reads back\<close>

definition state_dir :: "os_lit \<Rightarrow> string" where
  "state_dir os =
     (if os = Os_windows then ''C:'' @ [CHR 0x5C] @ ''ProgramData'' @ [CHR 0x5C] @ ''zaqorin-agent''
      else ''/var/lib/zaqorin-agent'')"

definition agent_top :: "os_lit \<Rightarrow> string \<Rightarrow> string \<Rightarrow> string \<Rightarrow> toml_doc" where
  "agent_top os url aid tok =
     [(''server_url'', TStr url), (''agent_id'', TStr aid), (''auth_token'', TStr tok),
      (''log_level'', TStr ''info''), (''state_dir'', TStr (state_dir os)), (''dry_run'', TBool True)]"

definition response_table :: toml_doc where
  "response_table =
     [(''allow_block_ip'', TBool True), (''allow_kill_process'', TBool False),
      (''allow_disable_user'', TBool False), (''block_default_ttl_sec'', TInt 3600)]"

definition agent_doc :: "os_lit \<Rightarrow> string \<Rightarrow> string \<Rightarrow> string \<Rightarrow> string str_dict list \<Rightarrow> bool \<Rightarrow> toml_doc" where
  "agent_doc os url aid tok rows blk =
     log_doc (agent_top os url aid tok) rows @
     (if blk \<or> os = Os_windows then [(''windows_eventlog'', TTable [(''mode'', TStr ''pull'')])] else []) @
     [(''response'', TTable response_table)]"

lemma toml_line_comment: "toml_rest_ok (dropWhile toml_blank l) \<Longrightarrow> toml_line l st = Some st"
  by (cases st) (simp add: toml_line_def Let_def)

lemma toml_line_text:
  assumes "dropWhile toml_blank l = l" and "\<not> toml_rest_ok l" and "\<not> prefix ''['' l"
    and "toml_keyval l = Some (k, v)"
  shows "toml_line l (doc, p) = map_option (\<lambda>d. (d, p)) (toml_put p k v doc)"
proof -
  have "\<not> prefix ''[['' l" using assms(3) by (cases l) auto
  with assms show ?thesis by (simp add: toml_line_def Let_def)
qed

lemma toml_line_header:
  assumes "dropWhile toml_blank l = l" and "\<not> toml_rest_ok l" and "\<not> prefix ''[['' l"
    and "l = ''['' @ n @ '']''" and "bare_key n"
  shows "toml_line l (doc, p) = toml_open_table n doc"
proof -
  have "\<not> bare_char (CHR '']'')" by (simp add: bare_char_def char_class_defs)
  then have "takeWhile bare_char (n @ '']'') = n"
    using assms(5) takeWhile_stop [of bare_char n "CHR '']''" "[]"] by (simp add: bare_key_def)
  with assms show ?thesis by (simp add: toml_line_def Let_def bare_key_def)
qed

lemma toml_put_table:
  "map_of doc n = None \<Longrightarrow> map_of d k = None \<Longrightarrow>
   toml_put (In_table n) k v (doc @ [(n, TTable d)]) = Some (doc @ [(n, TTable (d @ [(k, v)]))])"
  by (simp add: toml_put_def map_add_def dict_set_last)

lemma literal_lines [toml_simps]:
  "toml_line ''log_level = \"info\"'' (doc, p) = map_option (\<lambda>d. (d, p)) (toml_put p ''log_level'' (TStr ''info'') doc)"
  "toml_line ''dry_run = true'' (doc, p) = map_option (\<lambda>d. (d, p)) (toml_put p ''dry_run'' (TBool True) doc)"
  "toml_line ''mode = \"pull\"'' (doc, p) = map_option (\<lambda>d. (d, p)) (toml_put p ''mode'' (TStr ''pull'') doc)"
  "toml_line ''allow_block_ip        = true'' (doc, p) =
     map_option (\<lambda>d. (d, p)) (toml_put p ''allow_block_ip'' (TBool True) doc)"
  "toml_line ''allow_kill_process    = false'' (doc, p) =
     map_option (\<lambda>d. (d, p)) (toml_put p ''allow_kill_process'' (TBool False) doc)"
  "toml_line ''allow_disable_user    = false'' (doc, p) =
     map_option (\<lambda>d. (d, p)) (toml_put p ''allow_disable_user'' (TBool False) doc)"
  "toml_line ''block_default_ttl_sec = 3600'' (doc, p) =
     map_option (\<lambda>d. (d, p)) (toml_put p ''block_default_ttl_sec'' (TInt 3600) doc)"
  by (rule toml_line_text; code_simp)+

lemma header_lines [toml_simps]:
  "toml_line ''[windows_eventlog]'' (doc, p) = toml_open_table ''windows_eventlog'' doc"
  "toml_line ''[response]'' (doc, p) = toml_open_table ''response'' doc"
  by (rule toml_line_header; code_simp)+

definition head_lines :: "os_lit \<Rightarrow> arch_lit \<Rightarrow> string \<Rightarrow> string \<Rightarrow> string \<Rightarrow> string list" where
  "head_lines os arch url aid tok = take 13 (toml_sections os arch url aid tok [] False)"

definition tail_lines :: "os_lit \<Rightarrow> bool \<Rightarrow> string list" where
  "tail_lines os blk = drop 14 (toml_sections os Amd64 [] [] [] [] blk)"

lemma sections_split:
  "toml_sections os arch url aid tok rows blk =
     head_lines os arch url aid tok @
     [py_rstrip (\<lambda>c. c = CHR 0x0A) (toml_array_of_tables rows)] @ tail_lines os blk"
  by (simp add: toml_sections_def head_lines_def tail_lines_def)

lemma comment_lines:
  "toml_line ''# ZaqorinCore agent configuration'' st = Some st"
  "toml_line ''# Generated by /api/v1/agents/provision/template'' st = Some st"
  "toml_line (''# OS: '' @ os_text os @ ''    Arch: '' @ arch_text arch) st = Some st"
  "toml_line ''# See ARCHITECTURE.md and agent.example.toml for field semantics.'' st = Some st"
proof -
  show "toml_line (''# OS: '' @ os_text os @ ''    Arch: '' @ arch_text arch) st = Some st"
    by (rule toml_line_comment, cases os; cases arch; simp only:; code_simp)
qed (rule toml_line_comment, code_simp)+

lemma field_lines:
  "toml_line (''server_url = '' @ toml_quote v) (doc, p) =
     map_option (\<lambda>d. (d, p)) (toml_put p ''server_url'' (TStr v) doc)"
  "toml_line (''agent_id    = '' @ toml_quote v) (doc, p) =
     map_option (\<lambda>d. (d, p)) (toml_put p ''agent_id'' (TStr v) doc)"
  "toml_line (''auth_token  = '' @ toml_quote v) (doc, p) =
     map_option (\<lambda>d. (d, p)) (toml_put p ''auth_token'' (TStr v) doc)"
proof -
  have "bare_key ''server_url''" "bare_key ''agent_id''" "bare_key ''auth_token''"
    "list_all toml_blank '' ''" "list_all toml_blank ''    ''" "list_all toml_blank ''  ''"
    by code_simp+
  note k = this
  show "toml_line (''server_url = '' @ toml_quote v) (doc, p) =
     map_option (\<lambda>d. (d, p)) (toml_put p ''server_url'' (TStr v) doc)"
    using toml_line_string [OF k(1,4), of v doc p] by simp
  show "toml_line (''agent_id    = '' @ toml_quote v) (doc, p) =
     map_option (\<lambda>d. (d, p)) (toml_put p ''agent_id'' (TStr v) doc)"
    using toml_line_string [OF k(2,5), of v doc p] by simp
  show "toml_line (''auth_token  = '' @ toml_quote v) (doc, p) =
     map_option (\<lambda>d. (d, p)) (toml_put p ''auth_token'' (TStr v) doc)"
    using toml_line_string [OF k(3,6), of v doc p] by simp
qed

definition dir_line :: "os_lit \<Rightarrow> string" where
  \<open>dir_line os =
     (if os = Os_windows
      then ''state_dir = "C:'' @ [CHR 0x5C, CHR 0x5C] @ ''ProgramData'' @ [CHR 0x5C, CHR 0x5C] @ ''zaqorin-agent"''
      else ''state_dir = "/var/lib/zaqorin-agent"'')\<close>

lemma dir_line_reads:
  "toml_line (dir_line os) (doc, p) = map_option (\<lambda>d. (d, p)) (toml_put p ''state_dir'' (TStr (state_dir os)) doc)"
  by (rule toml_line_text; cases os; simp only:; code_simp)

lemma read_head:
  "toml_lines (head_lines os arch url aid tok) ([], Top) = Some (agent_top os url aid tok, Top)"
proof -
  have "head_lines os arch url aid tok =
    [''# ZaqorinCore agent configuration'', ''# Generated by /api/v1/agents/provision/template'',
     ''# OS: '' @ os_text os @ ''    Arch: '' @ arch_text arch,
     ''# See ARCHITECTURE.md and agent.example.toml for field semantics.'', [],
     ''server_url = '' @ toml_quote url, ''agent_id    = '' @ toml_quote aid,
     ''auth_token  = '' @ toml_quote tok, [], ''log_level = \"info\"'', dir_line os, ''dry_run = true'', []]"
    by (simp add: head_lines_def toml_sections_def dir_line_def)
  then show ?thesis
    by (simp add: comment_lines [simplified] field_lines [simplified] literal_lines [simplified]
        dir_line_reads toml_put_def agent_top_def)
qed

lemma read_tail:
  assumes "map_of doc ''windows_eventlog'' = None" and "map_of doc ''response'' = None"
  shows "\<exists>p'. toml_lines (tail_lines os blk) (doc, p) = Some (doc @
     (if blk \<or> os = Os_windows then [(''windows_eventlog'', TTable [(''mode'', TStr ''pull'')])] else []) @
     [(''response'', TTable response_table)], p')"
proof -
  have r: "\<exists>p'. toml_lines [''[response]'', ''allow_block_ip        = true'', ''allow_kill_process    = false'',
      ''allow_disable_user    = false'', ''block_default_ttl_sec = 3600'', []] (d, q) =
      Some (d @ [(''response'', TTable response_table)], p')" if "map_of d ''response'' = None" for d q
    using that toml_put_table [OF that]
    by (simp add: toml_simps toml_open_table_def response_table_def)
  show ?thesis
  proof (cases "blk \<or> os = Os_windows")
    case True
    have "toml_lines [[], ''[windows_eventlog]'', ''mode = \"pull\"'', []] (doc, p) =
        Some (doc @ [(''windows_eventlog'', TTable [(''mode'', TStr ''pull'')])], In_table ''windows_eventlog'')"
      using assms(1) toml_put_table [OF assms(1), of "[]" "''mode''"]
      by (simp add: toml_simps toml_open_table_def)
    moreover have "tail_lines os blk = [[], ''[windows_eventlog]'', ''mode = \"pull\"'', []] @
        [''[response]'', ''allow_block_ip        = true'', ''allow_kill_process    = false'',
         ''allow_disable_user    = false'', ''block_default_ttl_sec = 3600'', []]"
      using True by (auto simp: tail_lines_def toml_sections_def)
    moreover have "map_of (doc @ [(''windows_eventlog'', TTable [(''mode'', TStr ''pull'')])]) ''response'' = None"
      using assms(2) by (simp add: map_add_def)
    ultimately show ?thesis
      using True r [of "doc @ [(''windows_eventlog'', TTable [(''mode'', TStr ''pull'')])]" "In_table ''windows_eventlog''"]
      by (simp only: toml_lines_append option.case if_True append_assoc)
  next
    case False
    then have "tail_lines os blk = [[]] @
        [''[response]'', ''allow_block_ip        = true'', ''allow_kill_process    = false'',
         ''allow_disable_user    = false'', ''block_default_ttl_sec = 3600'', []]"
      by (auto simp: tail_lines_def toml_sections_def)
    then show ?thesis using False r [OF assms(2), of p] by (simp del: toml_lines.simps(2) add: toml_lines.simps(2) [of "[]"])
  qed
qed

lemma split_one_line: "list_all (\<lambda>l. sep \<notin> set l) ls \<Longrightarrow> concat (map (py_split sep) ls) = ls"
  by (induction ls) (auto simp: py_split_fresh)

lemma head_one_line: "list_all (\<lambda>l. CHR 0x0A \<notin> set l) (head_lines os arch url aid tok)"
  using toml_quote_one_line
  by (cases os; cases arch) (simp_all add: head_lines_def toml_sections_def os_text_def arch_text_def)

lemma tail_one_line: "list_all (\<lambda>l. CHR 0x0A \<notin> set l) (tail_lines os blk)"
  by (cases "blk \<or> os = Os_windows") (auto simp: tail_lines_def toml_sections_def)

lemma sections_read_back:
  assumes "list_all row_ok rows"
  shows "toml_loads (py_join [CHR 0x0A] (toml_sections os arch url aid tok rows blk)) =
    Some (agent_doc os url aid tok rows blk)"
proof -
  define logs where "logs = py_rstrip (\<lambda>c. c = CHR 0x0A) (toml_array_of_tables rows)"
  have ne: "toml_sections os arch url aid tok rows blk \<noteq> []" by (simp add: toml_sections_def)
  have ls: "py_split (CHR 0x0A) (py_join [CHR 0x0A] (toml_sections os arch url aid tok rows blk)) =
      head_lines os arch url aid tok @ py_split (CHR 0x0A) logs @ tail_lines os blk"
    by (subst py_split_join [OF ne]) (simp add: sections_split split_one_line [OF head_one_line] split_one_line [OF tail_one_line] logs_def)
  have "map_of (agent_top os url aid tok) ''log_source'' = None" by (simp add: agent_top_def)
  from read_log_tables [OF this assms, of Top] obtain p
    where p: "toml_lines (py_split (CHR 0x0A) logs) (agent_top os url aid tok, Top) =
      Some (log_doc (agent_top os url aid tok) rows, p)"
    unfolding logs_def by blast
  have "map_of (log_doc (agent_top os url aid tok) rows) ''windows_eventlog'' = None"
    and "map_of (log_doc (agent_top os url aid tok) rows) ''response'' = None"
    by (simp_all add: log_doc_def agent_top_def map_add_def)
  from read_tail [OF this, of os blk p] show ?thesis
    unfolding toml_loads_def ls by (auto simp: toml_lines_append read_head p agent_doc_def)
qed

lemma presets_row_ok: "list_all row_ok (LOG_SOURCE_PRESETS os)"
  by (cases os) (simp_all only:, code_simp+)

lemma length_toml_escape: "length (toml_escape c) \<le> 6"
  by (simp add: toml_escape_def hex4_def)

lemma length_toml_quote: "length (toml_quote v) \<le> 6 * length v + 2"
proof (induction v)
  case (Cons c v)
  then show ?case using length_toml_escape [of c] by (simp add: toml_quote_def)
qed (simp add: toml_quote_def)

lemma length_rstrip: "length (py_rstrip p s) \<le> length s"
  using length_dropWhile_le [of p "rev s"] by (simp add: py_rstrip_def)

lemma sum_sections:
  "sum_list (map length (toml_sections os arch url aid tok rows blk)) + length (toml_sections os arch url aid tok rows blk)
     \<le> length (toml_quote url) + length (toml_quote aid) + length (toml_quote tok) +
       length (toml_array_of_tables rows) + 1000"
proof -
  have "length (os_text os) \<le> 10" "length (arch_text arch) \<le> 10"
    by (cases os; simp add: os_text_def) (cases arch; simp add: arch_text_def)
  then show ?thesis
    using length_rstrip [of "\<lambda>c. c = CHR 0x0A" "toml_array_of_tables rows"]
    by (cases "os = Os_windows") (simp_all add: toml_sections_def)
qed

lemma render_fits:
  assumes "length url + length aid + length tok \<le> 5000"
    and "length (toml_array_of_tables (case ls of None \<Rightarrow> LOG_SOURCE_PRESETS os | Some l \<Rightarrow> l)) \<le> 5000"
  shows "render_agent_toml os arch url aid tok ls blk = Inr (py_join [CHR 0x0A]
    (toml_sections os arch url aid tok (case ls of None \<Rightarrow> LOG_SOURCE_PRESETS os | Some l \<Rightarrow> l) blk))"
proof -
  let ?rows = "case ls of None \<Rightarrow> LOG_SOURCE_PRESETS os | Some l \<Rightarrow> l"
  have "length (py_join [CHR 0x0A] (toml_sections os arch url aid tok ?rows blk)) \<le> 65536"
    using length_py_join_le [of "[CHR 0x0A]" "toml_sections os arch url aid tok ?rows blk"]
      sum_sections [of os arch url aid tok ?rows blk] assms
      length_toml_quote [of url] length_toml_quote [of aid] length_toml_quote [of tok] by simp
  then show ?thesis by (simp add: render_agent_toml_def MAX_TEMPLATE_BYTES_def)
qed

lemma presets_short: "length (toml_array_of_tables (LOG_SOURCE_PRESETS os)) \<le> 5000"
  by (cases os) (simp_all add: LOG_SOURCE_PRESETS_def toml_array_of_tables_def toml_pair_def toml_quote_def
      toml_escape_def is_control_def ord_def)

text \<open>
  C22: Whatever the server URL, the agent id, the token and the log sources contain, a
  rendered configuration that fits the size limit is a TOML document, and reading it gives
  back exactly those values: no character of an argument can end its string, start a
  comment or add a key.  A log source is any dictionary of bare keys.
\<close>

theorem agent_toml_round_trip:
  assumes "render_agent_toml os arch url aid tok ls blk = Inr text"
    and "list_all row_ok (case ls of None \<Rightarrow> LOG_SOURCE_PRESETS os | Some l \<Rightarrow> l)"
  shows "toml_loads text =
    Some (agent_doc os url aid tok (case ls of None \<Rightarrow> LOG_SOURCE_PRESETS os | Some l \<Rightarrow> l) blk)"
proof -
  have "text = py_join [CHR 0x0A]
      (toml_sections os arch url aid tok (case ls of None \<Rightarrow> LOG_SOURCE_PRESETS os | Some l \<Rightarrow> l) blk)"
    using assms(1) by (simp add: render_agent_toml_def Let_def split: if_splits)
  then show ?thesis using sections_read_back [OF assms(2)] by simp
qed

lemma agent_toml_round_trip_witness:
  "let evil = ''x'' @ [CHR 0x22, CHR 0x0A, CHR 0x5C] @ ''y = 1'';
       t = py_join [CHR 0x0A] (toml_sections Os_windows Arm64 DEFAULT_SERVER_URL evil [] [[(''name'', evil)]] False)
   in render_agent_toml Os_windows Arm64 DEFAULT_SERVER_URL evil [] (Some [[(''name'', evil)]]) False = Inr t \<and>
      toml_loads t = Some (agent_doc Os_windows DEFAULT_SERVER_URL evil [] [[(''name'', evil)]] False)"
proof -
  let ?evil = "''x'' @ [CHR 0x22, CHR 0x0A, CHR 0x5C] @ ''y = 1''"
  have "length (toml_array_of_tables [[(''name'', ?evil)]]) \<le> 5000"
    by (simp add: toml_array_of_tables_def toml_pair_def toml_quote_def toml_escape_def hex4_def is_control_def ord_def)
  then have r: "render_agent_toml Os_windows Arm64 DEFAULT_SERVER_URL ?evil [] (Some [[(''name'', ?evil)]]) False =
      Inr (py_join [CHR 0x0A] (toml_sections Os_windows Arm64 DEFAULT_SERVER_URL ?evil [] [[(''name'', ?evil)]] False))"
    using render_fits [of DEFAULT_SERVER_URL ?evil "[]" Os_windows "Some [[(''name'', ?evil)]]" Arm64 False]
    unfolding option.case by (simp add: DEFAULT_SERVER_URL_def)
  have "list_all row_ok (case Some [[(''name'', ?evil)]] of None \<Rightarrow> LOG_SOURCE_PRESETS Os_windows | Some l \<Rightarrow> l)"
    unfolding option.case by code_simp
  with r agent_toml_round_trip [OF r] show ?thesis unfolding Let_def option.case by blast
qed

text \<open>
  The template endpoint always answers 200: the file it renders fits the limit and its own
  sanity check (parsing it back) cannot fail.
\<close>

lemma template_always_served:
  assumes "length token = 32"
  shows "\<exists>out. get_provision_template token uuid_hex os arch = Inr out \<and>
    toml_loads (t_toml out) = Some (agent_doc os DEFAULT_SERVER_URL (''agent-'' @ take 12 uuid_hex)
      (hexdigest token) (LOG_SOURCE_PRESETS os) False)"
proof -
  have "length DEFAULT_SERVER_URL + length (''agent-'' @ take 12 uuid_hex) + length (hexdigest token) \<le> 5000"
    using assms by (simp add: DEFAULT_SERVER_URL_def)
  from render_fits [OF this, of os None] presets_short
  have r: "render_agent_toml os arch DEFAULT_SERVER_URL (''agent-'' @ take 12 uuid_hex) (hexdigest token) None False =
    Inr (py_join [CHR 0x0A] (toml_sections os arch DEFAULT_SERVER_URL (''agent-'' @ take 12 uuid_hex)
      (hexdigest token) (LOG_SOURCE_PRESETS os) False))"
    by (simp only: option.case)
  show ?thesis
    unfolding get_provision_template_def token_hex_def Let_def r bind_res_simps parse_agent_toml_def
      sections_read_back [OF presets_row_ok] option.case
    by (simp add: sections_read_back [OF presets_row_ok])
qed

subsection \<open>The dry run\<close>

record dry_run_in =
  dr_host :: string
  dr_port :: int
  dr_user :: string
  dr_key :: "string option"

record dry_run_out =
  do_host :: string
  do_port :: int
  do_user :: string
  do_install :: string
  do_verify :: string
  do_notes :: "string list"

definition dry_run_in_ok :: "dry_run_in \<Rightarrow> bool" where
  "dry_run_in_ok b \<longleftrightarrow> 1 \<le> length (dr_host b) \<and> length (dr_host b) \<le> 255 \<and>
     1 \<le> dr_port b \<and> dr_port b \<le> 65535 \<and> 1 \<le> length (dr_user b) \<and> length (dr_user b) \<le> 64 \<and>
     (case dr_key b of None \<Rightarrow> True | Some k \<Rightarrow> length k \<le> 128)"

definition ssh_args :: "int \<Rightarrow> string option \<Rightarrow> string \<Rightarrow> string \<Rightarrow> string list" where
  "ssh_args port key_id user host =
     [''ssh''] @
     (if port \<noteq> 22 then [''-p'', py_str_int port] else []) @
     (case key_id of Some k \<Rightarrow> if k \<noteq> [] then [''-i'', ''~/.ssh/'' @ k] else [] | None \<Rightarrow> []) @
     [''-o'', ''BatchMode=yes'', ''-o'', ''StrictHostKeyChecking=accept-new'', user @ ''@'' @ host]"

definition dry_run_heredoc :: string where
  \<open>dry_run_heredoc =
     ''cat > /etc/zaqorin/agent.toml.dry-run <<'' @ [CHR 0x27] @ ''ZAQORIN_EOF'' @ [CHR 0x27, CHR 0x0A] @
     ''# dry-run: this file is NOT the real agent config'' @ [CHR 0x0A] @
     ''server_url = "wss://zaqorin.example.com:8443/api/v1/events"'' @ [CHR 0x0A] @
     ''log_level  = "info"'' @ [CHR 0x0A] @
     ''ZAQORIN_EOF'' @ [CHR 0x0A] @
     ''systemctl --no-pager status zaqorin-agent || true''\<close>

definition verify_probe :: string where
  "verify_probe = ''test -f /etc/zaqorin/agent.toml.dry-run && echo OK || echo MISSING''"

definition key_repr :: "string \<Rightarrow> string" where
  \<comment> \<open>\<open>repr\<close> of an accepted key id, whose only special character can be a final newline\<close>
  "key_repr k = [CHR 0x27] @ py_replace_char (CHR 0x0A) [CHR 0x5C, CHR ''n''] k @ [CHR 0x27]"

definition dry_run_notes :: "int \<Rightarrow> string option \<Rightarrow> string list" where
  "dry_run_notes port key_id =
     (if port \<noteq> 22 then [''non-default SSH port '' @ py_str_int port @ ''; ensure sshd listens there''] else []) @
     (case key_id of
        Some k \<Rightarrow> if k \<noteq> [] then [''using local SSH key alias '' @ key_repr k @ ''; ensure it is loaded in your agent''] else []
      | None \<Rightarrow> [])"

definition post_provision_dry_run :: "dry_run_in \<Rightarrow> int + dry_run_out" where
  "post_provision_dry_run body =
     (if \<not> dry_run_in_ok body then Inl 422
      else bind_res (safe_host (dr_host body)) (\<lambda>host.
        let port = dr_port body in
        bind_res (safe_user (dr_user body)) (\<lambda>user.
        bind_res (safe_key_id (dr_key body)) (\<lambda>key_id.
          let args = ssh_args port key_id user host;
              install = py_join '' '' (map shlex_quote args) @ '' '' @ shlex_quote dry_run_heredoc;
              verify_args = args @ [shlex_quote verify_probe];
              verify = py_join '' '' (map shlex_quote verify_args)
          in Inr \<lparr>do_host = host, do_port = port, do_user = user, do_install = install, do_verify = verify,
                  do_notes = dry_run_notes port key_id\<rparr>))))"

lemma py_join_snoc: "ws \<noteq> [] \<Longrightarrow> py_join sep (ws @ [w]) = py_join sep ws @ sep @ w"
  by (induction sep ws rule: py_join.induct) auto

lemma ssh_args_nonempty [simp]: "ssh_args p k u h \<noteq> []"
  by (simp add: ssh_args_def)

lemma dry_run_reply:
  assumes "post_provision_dry_run body = Inr out"
  shows "do_install out = py_join '' '' (map shlex_quote
      (ssh_args (dr_port body) (dr_key body) (dr_user body) (dr_host body) @ [dry_run_heredoc]))"
    and "do_verify out = py_join '' '' (map shlex_quote
      (ssh_args (dr_port body) (dr_key body) (dr_user body) (dr_host body) @ [shlex_quote verify_probe]))"
proof -
  have h: "safe_host h = Inr x \<Longrightarrow> x = h" for h x
    by (simp add: safe_host_def Let_def split: if_splits)
  have k: "safe_key_id k = Inr y \<Longrightarrow> y = k" for k y
    by (simp add: safe_key_id_def split: option.splits if_splits)
  from assms show "do_install out = py_join '' '' (map shlex_quote
      (ssh_args (dr_port body) (dr_key body) (dr_user body) (dr_host body) @ [dry_run_heredoc]))"
    "do_verify out = py_join '' '' (map shlex_quote
      (ssh_args (dr_port body) (dr_key body) (dr_user body) (dr_host body) @ [shlex_quote verify_probe]))"
    by (auto simp: post_provision_dry_run_def bind_res_Inr_iff Let_def safe_user_def py_join_snoc
        split: if_splits dest!: h k)
qed

text \<open>
  C30: The dry-run command is one simple \<open>ssh\<close> command whatever host, user, port and key
  were accepted: the operator's shell splits it into exactly the arguments the handler
  assembled and the script for the remote side, and no character of them is left to
  expansion except harmless ones (letters, digits and \<open>@%+=:,./-_\<close>).
\<close>

theorem dry_run_one_command:
  assumes "post_provision_dry_run body = Inr out"
  shows "\<exists>ws. sh_words (do_install out) = Some ws \<and>
    map (map fst) ws = ssh_args (dr_port body) (dr_key body) (dr_user body) (dr_host body) @ [dry_run_heredoc] \<and>
    list_all (list_all (\<lambda>(c, e). \<not> e \<or> shlex_safe c)) ws"
proof -
  let ?args = "ssh_args (dr_port body) (dr_key body) (dr_user body) (dr_host body) @ [dry_run_heredoc]"
  have "sh_words (do_install out) = Some (map sh_mark ?args)"
    unfolding dry_run_reply(1) [OF assms] by (rule sh_words_join)
  moreover have "map (map fst) (map sh_mark ?args) = ?args" by (simp add: sh_mark_text comp_def)
  moreover have "list_all (list_all (\<lambda>(c, e). \<not> e \<or> shlex_safe c)) (map sh_mark ?args)"
    using sh_mark_no_expansion by (fastforce simp: list_all_iff)
  ultimately show ?thesis by blast
qed

definition demo_dry_run :: dry_run_in where
  "demo_dry_run = \<lparr>dr_host = ''web-1.example.org'', dr_port = 2222, dr_user = ''ops'', dr_key = Some ''id_ed25519''\<rparr>"

lemma demo_dry_run_ok: "\<exists>out. post_provision_dry_run demo_dry_run = Inr out"
proof -
  have "dry_run_in_ok demo_dry_run" "safe_host (dr_host demo_dry_run) = Inr (dr_host demo_dry_run)"
    "safe_user (dr_user demo_dry_run) = Inr (dr_user demo_dry_run)"
    "safe_key_id (dr_key demo_dry_run) = Inr (dr_key demo_dry_run)"
    by code_simp+
  then show ?thesis by (simp add: post_provision_dry_run_def Let_def)
qed

lemma dry_run_one_command_witness:
  "\<exists>out ws. post_provision_dry_run demo_dry_run = Inr out \<and> sh_words (do_install out) = Some ws \<and>
     map (map fst) ws = [''ssh'', ''-p'', ''2222'', ''-i'', ''~/.ssh/id_ed25519'', ''-o'', ''BatchMode=yes'', ''-o'',
       ''StrictHostKeyChecking=accept-new'', ''ops@web-1.example.org'', dry_run_heredoc]"
proof -
  obtain out where out: "post_provision_dry_run demo_dry_run = Inr out" using demo_dry_run_ok by blast
  have "ssh_args (dr_port demo_dry_run) (dr_key demo_dry_run) (dr_user demo_dry_run) (dr_host demo_dry_run) =
      [''ssh'', ''-p'', ''2222'', ''-i'', ''~/.ssh/id_ed25519'', ''-o'', ''BatchMode=yes'', ''-o'',
       ''StrictHostKeyChecking=accept-new'', ''ops@web-1.example.org'']"
    by code_simp
  with out dry_run_one_command [OF out] show ?thesis by auto
qed

text \<open>
  The verification command quotes its probe twice.  After the operator's shell has removed
  one level, the remote shell receives a single quoted word: it looks for a program whose
  name is the whole text \<open>test -f ... || echo MISSING\<close> instead of running the test.
\<close>

lemma verify_probe_misquoted:
  assumes "post_provision_dry_run body = Inr out"
  shows "\<exists>ws. sh_words (do_verify out) = Some ws \<and> map fst (last ws) = shlex_quote verify_probe \<and>
    sh_words (map fst (last ws)) = Some [sh_mark verify_probe]"
proof -
  let ?args = "ssh_args (dr_port body) (dr_key body) (dr_user body) (dr_host body) @ [shlex_quote verify_probe]"
  have "sh_words (do_verify out) = Some (map sh_mark ?args)"
    unfolding dry_run_reply(2) [OF assms] by (rule sh_words_join)
  moreover have "map fst (last (map sh_mark ?args)) = shlex_quote verify_probe" by (simp add: sh_mark_text)
  moreover have "sh_words (shlex_quote verify_probe) = Some [sh_mark verify_probe]"
    using sh_words_join [of "[verify_probe]"] by simp
  ultimately show ?thesis by metis
qed

text \<open>
  The patterns end in \<open>$\<close>, so a host may end in a newline; one-character hosts and
  addresses that begin with a colon are refused although the messages allow them.
\<close>

lemma safe_host_examples:
  "safe_host (''web1'' @ [CHR 0x0A]) = Inr (''web1'' @ [CHR 0x0A])"
  "safe_host ''a'' = Inl 422" "safe_host ''[::1]'' = Inl 422" "safe_host ''[fe80::1]'' = Inr ''[fe80::1]''"
  by code_simp+

subsection \<open>The installer\<close>

definition V4_PRIVATE :: "ip_net list" where
  \<comment> \<open>\<open>_private_networks\<close> of \<open>ipaddress\<close> (Python 3.11)\<close>
  "V4_PRIVATE = [Net4 0 8, Net4 0x0A000000 8, Net4 0x7F000000 8, Net4 0xA9FE0000 16, Net4 0xAC100000 12,
     Net4 0xC0000000 24, Net4 0xC00000AA 31, Net4 0xC0000200 24, Net4 0xC0A80000 16, Net4 0xC6120000 15,
     Net4 0xC6336400 24, Net4 0xCB007100 24, Net4 0xF0000000 4, Net4 0xFFFFFFFF 32]"

definition V4_PRIVATE_EXCEPTIONS :: "ip_net list" where
  "V4_PRIVATE_EXCEPTIONS = [Net4 0xC0000009 32, Net4 0xC000000A 32]"

definition V6_PRIVATE :: "ip_net list" where
  "V6_PRIVATE = [Net6 1 128, Net6 0 128, Net6 (0xFFFF * 2 ^ 32) 96, Net6 (0x0064FF9B0001 * 2 ^ 80) 48,
     Net6 (0x0100 * 2 ^ 112) 64, Net6 (0x2001 * 2 ^ 112) 23, Net6 (0x20010DB8 * 2 ^ 96) 32,
     Net6 (0x2002 * 2 ^ 112) 16, Net6 (0xFC00 * 2 ^ 112) 7, Net6 (0xFE80 * 2 ^ 112) 10]"

definition V6_PRIVATE_EXCEPTIONS :: "ip_net list" where
  "V6_PRIVATE_EXCEPTIONS = [Net6 (0x20010001 * 2 ^ 96 + 1) 128, Net6 (0x20010001 * 2 ^ 96 + 2) 128,
     Net6 (0x20010003 * 2 ^ 96) 32, Net6 (0x200100040112 * 2 ^ 80) 48, Net6 (0x20010020 * 2 ^ 96) 28,
     Net6 (0x20010030 * 2 ^ 96) 28]"

definition V6_RESERVED :: "ip_net list" where
  "V6_RESERVED = [Net6 0 8, Net6 (0x0100 * 2 ^ 112) 8, Net6 (0x0200 * 2 ^ 112) 7, Net6 (0x0400 * 2 ^ 112) 6,
     Net6 (0x0800 * 2 ^ 112) 5, Net6 (0x1000 * 2 ^ 112) 4, Net6 (0x4000 * 2 ^ 112) 3, Net6 (0x6000 * 2 ^ 112) 3,
     Net6 (0x8000 * 2 ^ 112) 3, Net6 (0xA000 * 2 ^ 112) 3, Net6 (0xC000 * 2 ^ 112) 3, Net6 (0xE000 * 2 ^ 112) 4,
     Net6 (0xF000 * 2 ^ 112) 5, Net6 (0xF800 * 2 ^ 112) 6, Net6 (0xFE00 * 2 ^ 112) 9]"

fun is_private :: "ip_addr \<Rightarrow> bool" where
  "is_private (V4 n) =
     (list_ex (ip_in (V4 n)) V4_PRIVATE \<and> \<not> list_ex (ip_in (V4 n)) V4_PRIVATE_EXCEPTIONS)"
| "is_private (V6 n) =
     (if n div 2 ^ 32 = 0xFFFF then
        (list_ex (ip_in (V4 (n mod 2 ^ 32))) V4_PRIVATE \<and>
         \<not> list_ex (ip_in (V4 (n mod 2 ^ 32))) V4_PRIVATE_EXCEPTIONS)
      else list_ex (ip_in (V6 n)) V6_PRIVATE \<and> \<not> list_ex (ip_in (V6 n)) V6_PRIVATE_EXCEPTIONS)"

fun is_special :: "ip_addr \<Rightarrow> bool" where
  \<comment> \<open>loopback, link-local, multicast, reserved or unspecified\<close>
  "is_special (V4 n) = list_ex (ip_in (V4 n))
     [Net4 0x7F000000 8, Net4 0xA9FE0000 16, Net4 0xE0000000 4, Net4 0xF0000000 4, Net4 0 32]"
| "is_special (V6 n) =
     (n = 1 \<or> n = 0 \<or> ip_in (V6 n) (Net6 (0xFE80 * 2 ^ 112) 10) \<or> ip_in (V6 n) (Net6 (0xFF00 * 2 ^ 112) 8) \<or>
      list_ex (ip_in (V6 n)) V6_RESERVED)"

definition is_internal :: "string \<Rightarrow> bool" where
  "is_internal host = (case ip_address host of None \<Rightarrow> False | Some a \<Rightarrow> is_private a \<or> is_special a)"

record install_in =
  ic_agent_id :: string
  ic_host :: string
  ic_os :: os_lit

record install_out =
  io_command :: string
  io_sha256 :: string
  io_warnings :: "string list"

definition install_in_ok :: "install_in \<Rightarrow> bool" where
  "install_in_ok b \<longleftrightarrow> 1 \<le> length (ic_agent_id b) \<and> length (ic_agent_id b) \<le> 64 \<and>
     1 \<le> length (ic_host b) \<and> length (ic_host b) \<le> 255"

definition agent_id_bad :: "string \<Rightarrow> bool" where
  "agent_id_bad a \<longleftrightarrow> list_ex (\<lambda>c. c \<in> set a)
     [CHR '' '', CHR 0x09, CHR 0x0A, CHR 0x0D, CHR 0x22, CHR 0x5C, CHR ''$'', CHR 0x60]"

definition download_url :: "os_lit \<Rightarrow> string" where
  "download_url os =
     ''https://releases.zaqorin.example.com/${ZAQORIN_VERSION:-latest}/'' @ ''zaqorin-agent-'' @ os_text os @ ''.tar.gz''"

definition toml_inline :: "string \<Rightarrow> string \<Rightarrow> string \<Rightarrow> string" where
  \<open>toml_inline server_url agent_id auth_token =
     ''server_url = "'' @ server_url @ ''"'' @ [CHR 0x0A] @
     ''agent_id    = "'' @ agent_id @ ''"'' @ [CHR 0x0A] @
     ''auth_token  = "'' @ auth_token @ ''"'' @ [CHR 0x0A]\<close>

definition sq :: "string \<Rightarrow> string" where
  \<comment> \<open>a single-quoted literal of the script\<close>
  "sq s = [CHR 0x27] @ s @ [CHR 0x27]"

definition posix_installer :: "string \<Rightarrow> string \<Rightarrow> string \<Rightarrow> string" where
  \<open>posix_installer url sha toml =
     ''set -euo pipefail; '' @
     ''tmp=$(mktemp -d); '' @
     ''tgz=$tmp/zaqorin-agent.tar.gz; '' @
     ''curl -fsSL '' @ shlex_quote url @ '' -o $tgz; '' @
     ''actual=$(sha256sum $tgz | awk '' @ sq ''{print $1}'' @ ''); '' @
     ''expected='' @ shlex_quote sha @ ''; '' @
     ''if [ "$actual" != "$expected" ]; then '' @
     ''echo "SHA-256 mismatch: expected $expected, got $actual" >&2; '' @
     ''rm -rf $tmp; exit 1; '' @
     ''fi; '' @
     ''tar -xz -C $tmp -f $tgz; '' @
     ''install -m 0755 $tmp/zaqorin-agent /usr/local/bin/zaqorin-agent; '' @
     ''install -d -m 0755 /etc/zaqorin; '' @
     ''cat > /etc/zaqorin/agent.toml <<'' @ sq ''ZAQORIN_EOF'' @ [CHR 0x0A] @
     toml @
     ''ZAQORIN_EOF'' @ [CHR 0x0A] @
     ''install -m 0644 $tmp/zaqorin-agent.service /etc/systemd/system/; '' @
     ''systemctl daemon-reload; '' @
     ''systemctl enable --now zaqorin-agent''\<close>

definition win_dir :: string where
  "win_dir = ''C:'' @ [CHR 0x5C] @ ''ProgramData'' @ [CHR 0x5C] @ ''zaqorin-agent''"

definition windows_installer :: "string \<Rightarrow> string \<Rightarrow> string \<Rightarrow> string" where
  \<open>windows_installer url sha toml =
     ''$ErrorActionPreference = '' @ sq ''Stop'' @ ''; '' @
     ''$url = '' @ sq url @ ''; '' @
     ''$dst = Join-Path $env:TEMP '' @ sq ''zaqorin-agent.tar.gz'' @ ''; '' @
     ''$expected = '' @ sq sha @ ''; '' @
     ''Invoke-WebRequest -Uri $url -OutFile $dst -UseBasicParsing; '' @
     ''$actual = (Get-FileHash -Algorithm SHA256 -Path $dst).Hash.ToLower(); '' @
     ''if ($actual -ne $expected) { '' @
     ''Remove-Item $dst -Force; '' @
     ''throw "SHA-256 mismatch: expected $expected, got $actual" '' @
     ''}; '' @
     ''New-Item -ItemType Directory -Force -Path '' @ sq win_dir @ '' | Out-Null; '' @
     ''tar -xzf $dst -C '' @ sq win_dir @ ''; '' @
     ''Set-Content -Path '' @ sq (win_dir @ [CHR 0x5C] @ ''agent.toml'') @ '' -Value @'' @ [CHR 0x27, CHR 0x0A] @
     toml @
     [CHR 0x27] @ ''@; '' @
     ''& '' @ sq (win_dir @ [CHR 0x5C] @ ''zaqorin-agent.exe'') @ '' --register''\<close>

definition post_provision_install_command ::
  "(string \<Rightarrow> nat list) \<Rightarrow> nat list \<Rightarrow> install_in \<Rightarrow> int + install_out" where
  \<comment> \<open>SHA-256 and the random bytes of the token\<close>
  "post_provision_install_command sha256 token body =
     (if \<not> install_in_ok body then Inl 422
      else bind_res (safe_host (ic_host body)) (\<lambda>host.
        let agent_id = py_strip (ic_agent_id body) in
        if agent_id = [] then Inl 422
        else if agent_id_bad agent_id then Inl 422
        else
          let auth_token = token_hex token;
              server_url = DEFAULT_SERVER_URL;
              pinned = ARTIFACT_SHA256_BY_OS (ic_os body);
              artifact_sha256 = (case pinned of None \<Rightarrow> ZERO_DIGEST | Some d \<Rightarrow> d);
              w1 = (if pinned = None
                    then [''no pinned SHA-256 for os='' @ sq (os_text (ic_os body)) @
                          ''; the installer will REFUSE to extract until the manifest ships one''] else []);
              toml = toml_inline server_url agent_id auth_token;
              install = (if ic_os body = Os_windows
                         then windows_installer (download_url (ic_os body)) artifact_sha256 toml
                         else posix_installer (download_url (ic_os body)) artifact_sha256 toml);
              w2 = (if \<not> is_internal host
                    then [''host '' @ take 12 (hexdigest (sha256 host)) @
                          '' is a public DNS name (name redacted '' @ [CHR 0xE2, CHR 0x80, CHR 0x94] @
                          '' see server logs); the installer will reach the public release bucket''] else [])
          in Inr \<lparr>io_command = install, io_sha256 = artifact_sha256, io_warnings = w1 @ w2\<rparr>))"

subsection \<open>What the installer writes\<close>

definition heredoc_body :: "string \<Rightarrow> string \<Rightarrow> string list" where
  \<comment> \<open>the lines between the line that opens the here-document and its delimiter\<close>
  "heredoc_body delim s = takeWhile (\<lambda>l. l \<noteq> delim) (tl (py_split (CHR 0x0A) s))"

definition inline_lines :: "string \<Rightarrow> string \<Rightarrow> string \<Rightarrow> string list" where
  \<open>inline_lines url aid tok =
     [''server_url = "'' @ url @ ''"'', ''agent_id    = "'' @ aid @ ''"'', ''auth_token  = "'' @ tok @ ''"'']\<close>

lemma split_three:
  "sep \<notin> set a \<Longrightarrow> sep \<notin> set b \<Longrightarrow> sep \<notin> set c \<Longrightarrow>
   py_split sep (a @ sep # b @ sep # c @ sep # s) = [a, b, c] @ py_split sep s"
  by (simp add: py_split_append)

lemma split_inline:
  assumes "CHR 0x0A \<notin> set url" and "CHR 0x0A \<notin> set aid" and "CHR 0x0A \<notin> set tok"
  shows "py_split (CHR 0x0A) (toml_inline url aid tok @ s) = inline_lines url aid tok @ py_split (CHR 0x0A) s"
proof -
  have e: "toml_inline url aid tok @ s =
      (''server_url = \"'' @ url @ ''\"'') @ CHR 0x0A # (''agent_id    = \"'' @ aid @ ''\"'') @
      CHR 0x0A # (''auth_token  = \"'' @ tok @ ''\"'') @ CHR 0x0A # s"
    by (simp add: toml_inline_def)
  have "CHR 0x0A \<notin> set (''server_url = \"'' @ url @ ''\"'')" "CHR 0x0A \<notin> set (''agent_id    = \"'' @ aid @ ''\"'')"
    "CHR 0x0A \<notin> set (''auth_token  = \"'' @ tok @ ''\"'')"
    using assms by auto
  from split_three [OF this] show ?thesis unfolding e inline_lines_def by (simp only:)
qed

definition installer_head :: "string \<Rightarrow> string \<Rightarrow> string" where
  "installer_head url sha = takeWhile (\<lambda>c. c \<noteq> CHR 0x0A) (posix_installer url sha [])"

definition installer_tail :: string where
  "installer_tail =
     ''install -m 0644 $tmp/zaqorin-agent.service /etc/systemd/system/; '' @
     ''systemctl daemon-reload; '' @ ''systemctl enable --now zaqorin-agent''"

lemma posix_installer_parts:
  assumes "CHR 0x0A \<notin> set (shlex_quote url)" and "CHR 0x0A \<notin> set (shlex_quote sha)"
  shows "posix_installer url sha toml =
    installer_head url sha @ CHR 0x0A # toml @ ''ZAQORIN_EOF'' @ CHR 0x0A # installer_tail"
    and "CHR 0x0A \<notin> set (installer_head url sha)"
proof -
  obtain pre where pre: "CHR 0x0A \<notin> set pre"
    "\<And>t. posix_installer url sha t = pre @ CHR 0x0A # t @ ''ZAQORIN_EOF'' @ CHR 0x0A # installer_tail"
  proof
    show "posix_installer url sha t =
      (''set -euo pipefail; tmp=$(mktemp -d); tgz=$tmp/zaqorin-agent.tar.gz; curl -fsSL '' @ shlex_quote url @
       '' -o $tgz; actual=$(sha256sum $tgz | awk '' @ sq ''{print $1}'' @ ''); expected='' @ shlex_quote sha @
       ''; if [ \"$actual\" != \"$expected\" ]; then '' @
       ''echo \"SHA-256 mismatch: expected $expected, got $actual\" >&2; rm -rf $tmp; exit 1; fi; '' @
       ''tar -xz -C $tmp -f $tgz; install -m 0755 $tmp/zaqorin-agent /usr/local/bin/zaqorin-agent; '' @
       ''install -d -m 0755 /etc/zaqorin; cat > /etc/zaqorin/agent.toml <<'' @ sq ''ZAQORIN_EOF'') @
      CHR 0x0A # t @ ''ZAQORIN_EOF'' @ CHR 0x0A # installer_tail" for t
      by (simp add: posix_installer_def installer_tail_def)
  qed (use assms in \<open>simp add: sq_def\<close>)
  have "takeWhile (\<lambda>c. c \<noteq> CHR 0x0A) (pre @ CHR 0x0A # x) = pre" for x
    using pre(1) by (induction pre) auto
  then have "installer_head url sha = pre" by (simp add: installer_head_def pre(2))
  with pre show "posix_installer url sha toml =
    installer_head url sha @ CHR 0x0A # toml @ ''ZAQORIN_EOF'' @ CHR 0x0A # installer_tail"
    and "CHR 0x0A \<notin> set (installer_head url sha)"
    by simp_all
qed

lemma shlex_quote_no_newline: "CHR 0x0A \<notin> set s \<Longrightarrow> CHR 0x0A \<notin> set (shlex_quote s)"
  by (auto simp: shlex_quote_def py_replace_char_def split: if_splits)

lemma hexdigest_chars: "c \<in> set (hexdigest bs) \<Longrightarrow> \<exists>d<16. c = hex_char d"
  by (auto simp: hexdigest_def) (metis mod_less_divisor zero_less_numeral)+

lemma hexdigest_nonempty: "bs \<noteq> [] \<Longrightarrow> hexdigest bs \<noteq> []"
  by (cases bs) (simp_all add: hexdigest_def)

lemma hexdigest_plain:
  assumes "c \<in> set (hexdigest bs)"
  shows "\<not> is_control c \<and> c \<noteq> CHR 0x22 \<and> c \<noteq> CHR 0x5C"
proof -
  obtain d where d: "d < 16" "c = hex_char d" using hexdigest_chars [OF assms] by blast
  then have "ord c = (if d < 10 then 48 + d else 87 + d)" by (simp add: ord_hex_char)
  then have "ord c \<noteq> ord (CHR 0x22)" "ord c \<noteq> ord (CHR 0x5C)" "\<not> is_control c"
    using d by (auto simp: is_control_def) (simp_all add: ord_def split: if_splits)
  then show ?thesis by metis
qed

lemma basic_chars_plain:
  assumes "CHR 0x22 \<notin> set v" and "CHR 0x5C \<notin> set v"
  shows "basic_chars acc (v @ CHR 0x22 # s) =
    (if list_all (\<lambda>c. \<not> is_control c \<or> ord c = 9) v then Some (acc @ v, s) else None)"
  using assms
  by (induction v arbitrary: acc) (auto simp: basic_chars.simps(2))

lemma toml_value_plain:
  assumes "CHR 0x22 \<notin> set v" and "CHR 0x5C \<notin> set v" and "v \<noteq> []"
  shows "toml_value (CHR 0x22 # v @ [CHR 0x22]) =
    (if list_all (\<lambda>c. \<not> is_control c \<or> ord c = 9) v then Some (TStr v, []) else None)"
proof -
  have "\<not> prefix [CHR 0x22, CHR 0x22, CHR 0x22] (CHR 0x22 # v @ [CHR 0x22])"
    using assms by (cases v) auto
  then show ?thesis using basic_chars_plain [OF assms(1,2), of "[]" "[]"] by (simp add: toml_value_def)
qed

text \<open>What the agent reads from the inline file: the three values, unless the id holds a
  control character.\<close>

lemma inline_loads:
  assumes "CHR 0x0A \<notin> set url" "CHR 0x0A \<notin> set aid"
    and "toml_value (CHR 0x22 # url @ [CHR 0x22]) = Some (TStr url, [])"
    and "toml_value (CHR 0x22 # aid @ [CHR 0x22]) = va"
    and "va = (if q then Some (TStr aid, []) else None)"
    and "toml_value (CHR 0x22 # hexdigest tok @ [CHR 0x22]) = Some (TStr (hexdigest tok), [])"
  shows "toml_loads (toml_inline url aid (hexdigest tok)) =
    (if q then Some [(''server_url'', TStr url), (''agent_id'', TStr aid), (''auth_token'', TStr (hexdigest tok))]
     else None)"
proof -
  have k: "bare_key ''server_url''" "bare_key ''agent_id''" "bare_key ''auth_token''"
    "list_all toml_blank '' ''" "list_all toml_blank ''    ''" "list_all toml_blank ''  ''"
    by code_simp+
  have t: "CHR 0x0A \<notin> set (hexdigest tok)" using hexdigest_plain newline_control by blast
  note l = toml_line_keyval [OF k(1,4), of "CHR 0x22 # url @ [CHR 0x22]"]
    toml_line_keyval [OF k(2,5), of "CHR 0x22 # aid @ [CHR 0x22]"]
    toml_line_keyval [OF k(3,6), of "CHR 0x22 # hexdigest tok @ [CHR 0x22]"]
  show ?thesis
    using split_inline [OF assms(1,2) t, of "[]"] l
    by (simp add: toml_loads_def inline_lines_def assms toml_put_def)
qed

lemma install_reply:
  assumes "post_provision_install_command sha256 token body = Inr out"
  defines "aid \<equiv> py_strip (ic_agent_id body)"
  shows "aid \<noteq> []" and "\<not> agent_id_bad aid"
    and "ic_os body \<noteq> Os_windows \<Longrightarrow> io_command out =
      posix_installer (download_url (ic_os body)) ZERO_DIGEST (toml_inline DEFAULT_SERVER_URL aid (hexdigest token))"
    and "io_sha256 out = ZERO_DIGEST"
proof -
  have z: "(case ARTIFACT_SHA256_BY_OS os of None \<Rightarrow> ZERO_DIGEST | Some d \<Rightarrow> d) = ZERO_DIGEST" for os
    by (cases os) (simp_all add: ARTIFACT_SHA256_BY_OS_def)
  from assms(1) show "aid \<noteq> []" "\<not> agent_id_bad aid" "io_sha256 out = ZERO_DIGEST"
    "ic_os body \<noteq> Os_windows \<Longrightarrow> io_command out =
      posix_installer (download_url (ic_os body)) ZERO_DIGEST (toml_inline DEFAULT_SERVER_URL aid (hexdigest token))"
    by (auto simp: post_provision_install_command_def bind_res_Inr_iff Let_def aid_def z token_hex_def
        split: if_splits)
qed

text \<open>
  The POSIX installer writes the configuration it was meant to write.  Whatever agent id
  was accepted, the here-document of the script ends at the delimiter the script itself
  placed and holds exactly the three lines of the inline file; what the agent then reads is
  the server URL, the id and the fresh token.  The exception is an id with a control
  character, which the endpoint accepts although no TOML reader takes the file.
\<close>

theorem installer_config_exact:
  assumes "post_provision_install_command sha256 token body = Inr out" and "ic_os body \<noteq> Os_windows"
    and "length token = 32"
  shows "let aid = py_strip (ic_agent_id body); tok = hexdigest token
    in heredoc_body ''ZAQORIN_EOF'' (io_command out) = inline_lines DEFAULT_SERVER_URL aid tok \<and>
       toml_loads (toml_inline DEFAULT_SERVER_URL aid tok) =
         (if list_all (\<lambda>c. \<not> is_control c) aid
          then Some [(''server_url'', TStr DEFAULT_SERVER_URL), (''agent_id'', TStr aid), (''auth_token'', TStr tok)]
          else None)"
proof -
  define aid where "aid = py_strip (ic_agent_id body)"
  note r = install_reply [OF assms(1), folded aid_def]
  have bad: "CHR 0x0A \<notin> set aid" "CHR 0x22 \<notin> set aid" "CHR 0x5C \<notin> set aid" "CHR 0x09 \<notin> set aid"
    using r(2) by (simp_all add: agent_id_bad_def)
  have url: "CHR 0x0A \<notin> set DEFAULT_SERVER_URL" "CHR 0x22 \<notin> set DEFAULT_SERVER_URL"
    "CHR 0x5C \<notin> set DEFAULT_SERVER_URL" "DEFAULT_SERVER_URL \<noteq> []" "list_all (\<lambda>c. \<not> is_control c \<or> ord c = 9) DEFAULT_SERVER_URL"
    by code_simp+
  have tok: "CHR 0x0A \<notin> set (hexdigest token)" "CHR 0x22 \<notin> set (hexdigest token)" "CHR 0x5C \<notin> set (hexdigest token)"
    "list_all (\<lambda>c. \<not> is_control c \<or> ord c = 9) (hexdigest token)"
    using hexdigest_plain [of _ token] newline_control by (blast, blast, blast, auto simp: list_all_iff)
  have tn: "hexdigest token \<noteq> []" using assms(3) by (intro hexdigest_nonempty) auto
  have c9: "ord c = 9 \<longleftrightarrow> c = CHR 0x09" for c
    using of_char_eq_iff [of c "CHR 0x09"] by (simp add: ord_def)
  have q: "list_all (\<lambda>c. \<not> is_control c \<or> ord c = 9) aid = list_all (\<lambda>c. \<not> is_control c) aid"
    using bad(4) by (auto simp: list_all_iff c9)
  have du: "CHR 0x0A \<notin> set (download_url os)" for os
    by (cases os) (simp_all add: download_url_def os_text_def)
  have dz: "CHR 0x0A \<notin> set ZERO_DIGEST" by (simp add: ZERO_DIGEST_def)
  note parts = posix_installer_parts [OF shlex_quote_no_newline [OF du] shlex_quote_no_newline [OF dz]]
  have "py_split (CHR 0x0A) (io_command out) =
      installer_head (download_url (ic_os body)) ZERO_DIGEST #
      inline_lines DEFAULT_SERVER_URL aid (hexdigest token) @ ''ZAQORIN_EOF'' # py_split (CHR 0x0A) installer_tail"
    unfolding r(3) [OF assms(2)] parts(1) py_split_append [OF parts(2)]
      split_inline [OF url(1) bad(1) tok(1)]
    by (simp add: py_split_append)
  then have "heredoc_body ''ZAQORIN_EOF'' (io_command out) = inline_lines DEFAULT_SERVER_URL aid (hexdigest token)"
    by (simp add: heredoc_body_def inline_lines_def)
  moreover have "toml_loads (toml_inline DEFAULT_SERVER_URL aid (hexdigest token)) =
      (if list_all (\<lambda>c. \<not> is_control c) aid
       then Some [(''server_url'', TStr DEFAULT_SERVER_URL), (''agent_id'', TStr aid), (''auth_token'', TStr (hexdigest token))]
       else None)"
  proof (rule inline_loads [OF url(1) bad(1) _ refl])
    show "toml_value (CHR 0x22 # DEFAULT_SERVER_URL @ [CHR 0x22]) = Some (TStr DEFAULT_SERVER_URL, [])"
      by (simp only: toml_value_plain [OF url(2,3,4)] url(5) if_True)
    show "toml_value (CHR 0x22 # aid @ [CHR 0x22]) =
        (if list_all (\<lambda>c. \<not> is_control c) aid then Some (TStr aid, []) else None)"
      by (simp only: toml_value_plain [OF bad(2,3) r(1)] q)
    show "toml_value (CHR 0x22 # hexdigest token @ [CHR 0x22]) = Some (TStr (hexdigest token), [])"
      by (simp only: toml_value_plain [OF tok(2,3) tn] tok(4) if_True)
  qed
  ultimately show ?thesis by (simp add: aid_def Let_def)
qed

definition demo_install :: install_in where
  "demo_install = \<lparr>ic_agent_id = ''agent-7'', ic_host = ''10.0.0.5'', ic_os = Os_linux\<rparr>"

lemma demo_install_ok: "\<exists>out. post_provision_install_command sha256 token demo_install = Inr out"
proof -
  have "install_in_ok demo_install" "safe_host (ic_host demo_install) = Inr (ic_host demo_install)"
    "py_strip (ic_agent_id demo_install) \<noteq> []" "\<not> agent_id_bad (py_strip (ic_agent_id demo_install))"
    by code_simp+
  then show ?thesis by (simp add: post_provision_install_command_def Let_def)
qed

lemma installer_config_exact_witness:
  "\<exists>out. post_provision_install_command (\<lambda>_. []) (replicate 32 0) demo_install = Inr out \<and>
     toml_loads (toml_inline DEFAULT_SERVER_URL ''agent-7'' (hexdigest (replicate 32 0))) =
       Some [(''server_url'', TStr DEFAULT_SERVER_URL), (''agent_id'', TStr ''agent-7''),
             (''auth_token'', TStr (hexdigest (replicate 32 0)))]"
proof -
  obtain out where out: "post_provision_install_command (\<lambda>_. []) (replicate 32 0) demo_install = Inr out"
    using demo_install_ok by blast
  have "ic_os demo_install \<noteq> Os_windows" "py_strip (ic_agent_id demo_install) = ''agent-7''"
    "list_all (\<lambda>c. \<not> is_control c) ''agent-7''"
    by code_simp+
  with out installer_config_exact [OF out] show ?thesis by (simp add: Let_def)
qed

text \<open>
  The download URL is quoted for the shell, so the \<open>${ZAQORIN_VERSION:-latest}\<close> in it
  is never expanded: \<open>curl\<close> asks for a path with these very characters, whatever the
  operator sets the variable to.
\<close>

lemma version_not_expanded:
  "sh_words (''curl -fsSL '' @ shlex_quote (download_url os)) =
     Some [sh_mark ''curl'', sh_mark ''-fsSL'', map (\<lambda>c. (c, False)) (download_url os)]"
proof -
  have "\<not> list_all shlex_safe (download_url os)"
    by (cases os) (simp_all add: download_url_def shlex_safe_def char_class_defs)
  then have "sh_mark (download_url os) = map (\<lambda>c. (c, False)) (download_url os)"
    unfolding sh_mark_def by (simp only:)
  moreover have "shlex_quote ''curl'' = ''curl''" "shlex_quote ''-fsSL'' = ''-fsSL''" by code_simp+
  ultimately show ?thesis using sh_words_join [of "[''curl'', ''-fsSL'', download_url os]"] by simp
qed

text \<open>
  The installer never names the host: two requests that differ in the host only get the
  same command and digest, and the same warnings unless exactly one of the hosts is an
  internal address or the fingerprints differ.
\<close>

lemma install_redacts_host:
  assumes "post_provision_install_command sha256 token b = Inr out"
    and "post_provision_install_command sha256 token (b\<lparr>ic_host := h\<rparr>) = Inr out'"
  shows "io_command out' = io_command out" and "io_sha256 out' = io_sha256 out"
    and "is_internal h = is_internal (ic_host b) \<Longrightarrow>
      take 12 (hexdigest (sha256 h)) = take 12 (hexdigest (sha256 (ic_host b))) \<Longrightarrow>
      io_warnings out' = io_warnings out"
proof -
  have h: "safe_host x = Inr y \<Longrightarrow> y = x" for x y
    by (simp add: safe_host_def Let_def split: if_splits)
  from assms show "io_command out' = io_command out" "io_sha256 out' = io_sha256 out"
    "is_internal h = is_internal (ic_host b) \<Longrightarrow>
      take 12 (hexdigest (sha256 h)) = take 12 (hexdigest (sha256 (ic_host b))) \<Longrightarrow>
      io_warnings out' = io_warnings out"
    by (auto simp: post_provision_install_command_def bind_res_Inr_iff Let_def split: if_splits dest!: h)
qed

subsection \<open>Secrets and the live configuration\<close>

record rotate_out =
  ro_agent_id :: uuid
  ro_rotated_at :: rat
  ro_preview :: string

definition post_rotate_secret ::
  "nat list \<Rightarrow> rat \<Rightarrow> uuid \<Rightarrow> 'a host_row_scheme list \<Rightarrow> (int + rotate_out) \<times> 'a host_row_scheme list" where
  "post_rotate_secret bytes now agent_id hosts =
     (case find (\<lambda>h. host_id h = agent_id) hosts of
        None \<Rightarrow> (Inl 404, hosts)
      | Some host \<Rightarrow>
          let new_secret = token_hex bytes in
          (Inr \<lparr>ro_agent_id = agent_id, ro_rotated_at = now, ro_preview = take 8 new_secret\<rparr>,
           map (\<lambda>h. if host_id h = agent_id then h\<lparr>host_secret := Some new_secret, last_seen_at := now\<rparr> else h) hosts))"

record prov_host = host_row +
  ph_hostname :: "string option"

record config_out =
  co_agent_id :: uuid
  co_server_url :: string
  co_agent_id_field :: string
  co_hostname :: "string option"
  co_last_seen :: rat
  co_toml :: string
  co_warnings :: "string list"

definition HIDDEN_TOKEN :: string where
  \<comment> \<open>with the em dash of the source in UTF-8\<close>
  "HIDDEN_TOKEN = ''<hidden '' @ [CHR 0xE2, CHR 0x80, CHR 0x94] @ '' set out-of-band>''"

definition get_agent_config :: "uuid \<Rightarrow> prov_host list \<Rightarrow> int + config_out" where
  \<comment> \<open>the column \<open>last_seen_at\<close> is not nullable, so the warning about a host that never
      checked in cannot appear\<close>
  "get_agent_config agent_id hosts =
     (case find (\<lambda>h. host_id h = agent_id) hosts of
        None \<Rightarrow> Inl 404
      | Some host \<Rightarrow>
          bind_res (render_agent_toml Os_linux Amd64 DEFAULT_SERVER_URL (host_id host) HIDDEN_TOKEN
                      (Some (LOG_SOURCE_PRESETS Os_linux)) False) (\<lambda>toml_text.
          bind_res (parse_agent_toml toml_text) (\<lambda>_.
            Inr \<lparr>co_agent_id = host_id host, co_server_url = DEFAULT_SERVER_URL, co_agent_id_field = host_id host,
                 co_hostname = ph_hostname host, co_last_seen = last_seen_at host, co_toml = toml_text,
                 co_warnings = []\<rparr>)))"

lemma find_map_secret:
  "find (\<lambda>h. host_id h = a) (map (\<lambda>h. h\<lparr>host_secret := s (host_id h)\<rparr>) hosts) =
     map_option (\<lambda>h. h\<lparr>host_secret := s (host_id h)\<rparr>) (find (\<lambda>h. host_id h = a) hosts)"
  by (induction hosts) auto

text \<open>
  The configuration endpoint answers for every known host and says nothing about secrets:
  its reply is the same whatever secrets the hosts have.
\<close>

lemma config_hides_secrets:
  "get_agent_config a (map (\<lambda>h. h\<lparr>host_secret := s (host_id h)\<rparr>) hosts) = get_agent_config a hosts"
  by (simp add: get_agent_config_def find_map_secret split: option.split)

lemma config_always_served:
  assumes "find (\<lambda>h. host_id h = a) hosts = Some h" and "length a \<le> 36"
  shows "\<exists>out. get_agent_config a hosts = Inr out \<and>
    toml_loads (co_toml out) =
      Some (agent_doc Os_linux DEFAULT_SERVER_URL a HIDDEN_TOKEN (LOG_SOURCE_PRESETS Os_linux) False)"
proof -
  have a: "host_id h = a" using assms(1) by (auto simp: find_Some_iff)
  have "length DEFAULT_SERVER_URL + length a + length HIDDEN_TOKEN \<le> 5000"
    using assms(2) by (simp add: DEFAULT_SERVER_URL_def HIDDEN_TOKEN_def)
  from render_fits [OF this, of Os_linux "Some (LOG_SOURCE_PRESETS Os_linux)"] presets_short [of Os_linux]
  show ?thesis
    by (simp add: get_agent_config_def assms(1) a parse_agent_toml_def sections_read_back [OF presets_row_ok])
qed

lemma find_rotated:
  "find (\<lambda>h. host_id h = a) (snd (post_rotate_secret bytes now b hosts)) =
     (if a = b
      then map_option (\<lambda>h. h\<lparr>host_secret := Some (hexdigest bytes), last_seen_at := now\<rparr>)
             (find (\<lambda>h. host_id h = a) hosts)
      else find (\<lambda>h. host_id h = a) hosts)"
proof -
  have "find (\<lambda>h. host_id h = a)
      (map (\<lambda>h. if host_id h = b then h\<lparr>host_secret := Some (hexdigest bytes), last_seen_at := now\<rparr> else h) hosts) =
    (if a = b then map_option (\<lambda>h. h\<lparr>host_secret := Some (hexdigest bytes), last_seen_at := now\<rparr>)
       (find (\<lambda>h. host_id h = a) hosts) else find (\<lambda>h. host_id h = a) hosts)"
    by (induction hosts) auto
  then show ?thesis
    by (cases "find (\<lambda>h. host_id h = b) hosts") (auto simp: post_rotate_secret_def token_hex_def Let_def)
qed

text \<open>
  C32: Rotating a secret locks the running agent out.  After a rotation the handshake of an
  agent that signs with any other secret is refused (close code 1008) as long as the two
  signatures differ; and no reply carries more of the new secret than its first eight
  characters, since two rotations with the same preview, and the configurations shown
  before and after, are indistinguishable to the caller.  Other hosts are untouched.
\<close>

theorem rotation_locks_agent_out:
  assumes "find (\<lambda>h. host_id h = a) hosts = Some h"
    and "post_rotate_secret bytes now a hosts = (reply, hosts')"
    and "check_hello e hosts nonce first = Accepted h"
    and "map_of first ''sig'' = Some (JStr (compute_sig (e_mac e) old nonce))"
    and "compute_sig (e_mac e) old nonce \<noteq> compute_sig (e_mac e) (hexdigest bytes) nonce"
    and "length bytes = 32"
  shows "check_hello e hosts' nonce first = Refused 1008 (Some a) \<and>
    (\<forall>bytes'. take 8 (hexdigest bytes') = take 8 (hexdigest bytes) \<longrightarrow>
       fst (post_rotate_secret bytes' now a hosts) = reply) \<and>
    (\<forall>b. b \<noteq> a \<longrightarrow> find_host hosts' (Some b) = find_host hosts (Some b))"
proof -
  have hid: "host_id h = a" using assms(1) by (auto simp: find_Some_iff)
  have fh: "find_host hs (Some x) = find (\<lambda>h. host_id h = x) hs" for hs x by (simp add: find_host_def)
  have hosts': "hosts' = snd (post_rotate_secret bytes now a hosts)" using assms(2) by simp
  from assms(3) obtain hello where v: "map_of first ''type'' = Some (JStr ''hello'')"
      "map_of first ''v'' = Some (JInt 2)" "validate_hello e first = Some hello"
      "hello_nonce hello = nonce" "nonce \<noteq> []" "hello_sig hello \<noteq> []"
      "upsert_on_hello (hello_agent_id hello) hosts = Some h"
    by (auto simp: check_hello_def Let_def split: if_split_asm option.split_asm)
  from v(7) have aid: "hello_agent_id hello = a" using hid by (auto simp: upsert_on_hello_def fh find_Some_iff)
  from v(3) have "str_field first ''sig'' 64 64 = Some (hello_sig hello)"
    by (auto simp: validate_hello_def split: if_split_asm option.split_asm)
  with assms(4) have sig: "hello_sig hello = compute_sig (e_mac e) old nonce"
    by (auto simp: str_field_def split: if_split_asm)
  have ne: "hexdigest bytes \<noteq> []" using assms(6) by (intro hexdigest_nonempty) auto
  have new: "upsert_on_hello a hosts' = Some (h\<lparr>host_secret := Some (hexdigest bytes), last_seen_at := now\<rparr>)"
    by (simp add: upsert_on_hello_def fh hosts' find_rotated assms(1))
  have "check_hello e hosts' nonce first = Refused 1008 (Some a)"
    using v aid sig assms(5) ne by (simp add: check_hello_def Let_def new truthy_def)
  moreover have "fst (post_rotate_secret bytes' now a hosts) = reply"
    if "take 8 (hexdigest bytes') = take 8 (hexdigest bytes)" for bytes'
    using assms(1,2) that by (auto simp: post_rotate_secret_def token_hex_def Let_def)
  moreover have "find_host hosts' (Some b) = find_host hosts (Some b)" if "b \<noteq> a" for b
    using that by (simp add: fh hosts' find_rotated)
  ultimately show ?thesis by blast
qed

definition demo_mac_env :: ws_env where
  "demo_mac_env = (demo_ws_env [])\<lparr>e_mac := (\<lambda>k m. if k = ''s3cr3t'' then replicate 32 0 else replicate 32 1)\<rparr>"

lemma rotation_locks_agent_out_witness:
  "check_hello demo_mac_env [demo_host ''h2'' True] demo_nonce (demo_kvs ''h2'' (replicate 64 (CHR ''0''))) =
     Accepted (demo_host ''h2'' True) \<and>
   check_hello demo_mac_env (snd (post_rotate_secret (replicate 32 7) 1 ''h2'' [demo_host ''h2'' True])) demo_nonce
     (demo_kvs ''h2'' (replicate 64 (CHR ''0''))) = Refused 1008 (Some ''h2'')"
proof -
  have a: "check_hello demo_mac_env [demo_host ''h2'' True] demo_nonce (demo_kvs ''h2'' (replicate 64 (CHR ''0''))) =
     Accepted (demo_host ''h2'' True)" by code_simp
  have f: "find (\<lambda>h. host_id h = ''h2'') [demo_host ''h2'' True] = Some (demo_host ''h2'' True)" by (simp add: demo_host_def)
  have s: "map_of (demo_kvs ''h2'' (replicate 64 (CHR ''0''))) ''sig'' =
      Some (JStr (compute_sig (e_mac demo_mac_env) ''s3cr3t'' demo_nonce))"
    "compute_sig (e_mac demo_mac_env) ''s3cr3t'' demo_nonce \<noteq>
      compute_sig (e_mac demo_mac_env) (hexdigest (replicate 32 7)) demo_nonce"
    by code_simp+
  have l: "length (replicate 32 (7::nat)) = 32" by (simp only: length_replicate)
  from a rotation_locks_agent_out [OF f prod.collapse [symmetric] a s l] show ?thesis by blast
qed

end
