(* ===== verification/Query_Api.thy ===== *)
theory Query_Api
  imports Ws_Agent Rules_Studio Audit_Log Provision "HOL-Library.Multiset"
begin

section \<open>The read side of the API\<close>

text \<open>
  \<open>api/v1/alerts.py\<close>, \<open>events.py\<close>, \<open>hosts.py\<close>, \<open>agents.py\<close>,
  \<open>audit.py\<close>, \<open>hunt.py\<close> and \<open>canary.py\<close> with the queries of
  \<open>service/host_service.py\<close> and \<open>service/event_service.py\<close>.  A table is the list
  of its rows; \<open>ORDER BY ... DESC\<close> is a stable sort, so rows with equal keys keep their
  order (SQL leaves it open).  A query parameter outside its bounds is status 422.
\<close>

subsection \<open>Alerts\<close>

record alert_entry =
  ae_id :: uuid
  ae_host :: "uuid option"
  ae_detector :: string
  ae_severity :: string
  ae_summary :: string
  ae_detail :: "json str_dict"
  ae_created :: rat
  ae_acked :: "rat option"

record alert_query =
  aq_host :: "uuid option"
  aq_detector :: "string option"
  aq_since :: "rat option"
  aq_until :: "rat option"
  aq_limit :: int

definition sort_desc :: "('a \<Rightarrow> rat) \<Rightarrow> 'a list \<Rightarrow> 'a list" where
  "sort_desc f = sort_key (\<lambda>x. - f x)"

definition opt_holds :: "('a \<Rightarrow> bool) \<Rightarrow> 'a option \<Rightarrow> bool" where
  "opt_holds p v = (case v of None \<Rightarrow> True | Some x \<Rightarrow> p x)"

definition alert_selected :: "alert_query \<Rightarrow> alert_entry \<Rightarrow> bool" where
  "alert_selected qy a \<longleftrightarrow> opt_holds (\<lambda>h. ae_host a = Some h) (aq_host qy) \<and>
     opt_holds (\<lambda>d. ae_detector a = d) (aq_detector qy) \<and>
     opt_holds (\<lambda>t. ae_created a \<ge> t) (aq_since qy) \<and> opt_holds (\<lambda>t. ae_created a < t) (aq_until qy)"

record alert_page =
  ap_items :: "alert_entry list"
  ap_next_before :: "rat option"

definition list_alerts :: "alert_query \<Rightarrow> alert_entry list \<Rightarrow> int + alert_page" where
  "list_alerts qy tbl =
     (if aq_limit qy < 1 \<or> aq_limit qy > 500 then Inl 422
      else
        let limit = nat (aq_limit qy);
            rows = take (limit + 1) (sort_desc ae_created (filter (alert_selected qy) tbl));
            has_more = length rows > limit;
            page = take limit rows
        in Inr \<lparr>ap_items = page, ap_next_before = (if has_more \<and> page \<noteq> [] then Some (ae_created (last page)) else None)\<rparr>)"

subsection \<open>Events and hosts\<close>

record api_event = event_row +
  ev_received_at :: rat

definition service_list_events ::
  "uuid option \<Rightarrow> rat option \<Rightarrow> nat \<Rightarrow> nat \<Rightarrow> api_event list \<Rightarrow> api_event list" where
  "service_list_events host since limit offset tbl =
     take limit (drop offset (sort_desc ev_received_at
       (filter (\<lambda>r. opt_holds (\<lambda>h. ev_host_id r = h) host \<and> opt_holds (\<lambda>t. ev_received_at r > t) since) tbl)))"

definition list_events :: "uuid option \<Rightarrow> rat option \<Rightarrow> int \<Rightarrow> int \<Rightarrow> api_event list \<Rightarrow> int + api_event list" where
  "list_events host since limit offset tbl =
     (if limit < 1 \<or> limit > 1000 \<or> offset < 0 then Inl 422
      else Inr (service_list_events host since (nat limit) (nat offset) tbl))"

definition service_list_hosts :: "nat \<Rightarrow> nat \<Rightarrow> 'a host_row_scheme list \<Rightarrow> 'a host_row_scheme list" where
  "service_list_hosts limit offset tbl = take limit (drop offset (sort_desc last_seen_at tbl))"

record host_view =
  hv_id :: uuid
  hv_last_seen_at :: rat
  hv_last_version :: "string option"
  hv_hostname :: "string option"
  hv_auto_block :: bool

definition host_view_of :: "prov_host \<Rightarrow> host_view" where
  "host_view_of h = \<lparr>hv_id = host_id h, hv_last_seen_at = last_seen_at h, hv_last_version = last_version h,
     hv_hostname = ph_hostname h, hv_auto_block = auto_block h\<rparr>"

definition list_hosts :: "int \<Rightarrow> int \<Rightarrow> prov_host list \<Rightarrow> int + host_view list" where
  "list_hosts limit offset tbl =
     (if limit < 1 \<or> limit > 500 \<or> offset < 0 then Inl 422
      else Inr (map host_view_of (service_list_hosts (nat limit) (nat offset) tbl)))"

definition service_get_host :: "uuid \<Rightarrow> 'a host_row_scheme list \<Rightarrow> 'a host_row_scheme option" where
  "service_get_host a tbl = find (\<lambda>h. host_id h = a) tbl"

definition mark_authenticated_hello :: "rat \<Rightarrow> string \<Rightarrow> 'a host_row_scheme \<Rightarrow> 'a host_row_scheme" where
  \<comment> \<open>nothing calls it\<close>
  "mark_authenticated_hello now version h = h\<lparr>last_seen_at := now, last_version := Some version\<rparr>"

definition list_max :: "rat list \<Rightarrow> rat option" where
  "list_max xs = (case xs of [] \<Rightarrow> None | x # r \<Rightarrow> Some (fold max r x))"

definition get_host :: "uuid \<Rightarrow> prov_host list \<Rightarrow> api_event list \<Rightarrow> int + (host_view \<times> nat \<times> rat option)" where
  \<comment> \<open>with the number of its events and the time of the last one\<close>
  "get_host a hosts events =
     (case service_get_host a hosts of
        None \<Rightarrow> Inl 404
      | Some h \<Rightarrow>
          let mine = filter (\<lambda>r. ev_host_id r = a) events
          in Inr (host_view_of h, length mine, list_max (map ev_occurred_at mine)))"

definition patch_host :: "uuid \<Rightarrow> bool option \<Rightarrow> 'a host_row_scheme list \<Rightarrow> (int + uuid \<times> bool) \<times> 'a host_row_scheme list" where
  "patch_host a block tbl =
     (case block of
        None \<Rightarrow> (Inl 400, tbl)
      | Some b \<Rightarrow>
          (case update_where (\<lambda>h. host_id h = a) (\<lambda>h. h\<lparr>auto_block := b\<rparr>) tbl of
             (False, _) \<Rightarrow> (Inl 404, tbl)
           | (True, tbl') \<Rightarrow> (Inr (a, b), tbl')))"

subsection \<open>Agents\<close>

record agent_view =
  av_host_id :: uuid
  av_connected :: bool
  av_last_seen_at :: "rat option"
  av_last_version :: "string option"
  av_hostname :: "string option"

definition list_agents :: "'w conns \<Rightarrow> prov_host list \<Rightarrow> agent_view list \<times> nat" where
  "list_agents conns hosts =
     (let agents = map (\<lambda>i. case service_get_host i hosts of
            None \<Rightarrow> \<lparr>av_host_id = i, av_connected = True, av_last_seen_at = None, av_last_version = None, av_hostname = None\<rparr>
          | Some h \<Rightarrow> \<lparr>av_host_id = host_id h, av_connected = True, av_last_seen_at = Some (last_seen_at h),
                       av_last_version = last_version h, av_hostname = ph_hostname h\<rparr>) (conn_host_ids conns)
      in (agents, length agents))"

definition STALE_AFTER_SECONDS :: int where
  "STALE_AFTER_SECONDS = 300"

datatype agent_status = Online | Stale | Offline

record agent_health =
  gh_host_id :: uuid
  gh_connected :: bool
  gh_status :: agent_status
  gh_last_seen_at :: rat
  gh_age_seconds :: int

definition get_agent_health :: "rat \<Rightarrow> uuid \<Rightarrow> 'w conns \<Rightarrow> 'a host_row_scheme list \<Rightarrow> int + agent_health" where
  \<comment> \<open>\<open>last_seen_at\<close> is not nullable and carries a time zone; the two texts of the row are left out\<close>
  "get_agent_health now a conns hosts =
     (case service_get_host a hosts of
        None \<Rightarrow> Inl 404
      | Some h \<Rightarrow>
          let connected = (get_conn conns a \<noteq> None);
              d = now - last_seen_at h;
              age = max 0 (if d < 0 then - \<lfloor>- d\<rfloor> else \<lfloor>d\<rfloor>)
          in Inr \<lparr>gh_host_id = host_id h, gh_connected = connected,
                  gh_status = (if \<not> connected then Offline else if age > STALE_AFTER_SECONDS then Stale else Online),
                  gh_last_seen_at = last_seen_at h, gh_age_seconds = age\<rparr>)"

subsection \<open>The audit log\<close>

definition py_in :: "string \<Rightarrow> json \<Rightarrow> bool option" where
  \<comment> \<open>\<open>s in v\<close>; \<open>None\<close> is a \<open>TypeError\<close>\<close>
  "py_in s v = (case v of
      JStr t \<Rightarrow> Some (py_contains t s)
    | JArr vs \<Rightarrow> Some (JStr s \<in> set vs)
    | JObj kvs \<Rightarrow> Some (s \<in> fst ` set kvs)
    | _ \<Rightarrow> None)"

definition item_field :: "json \<Rightarrow> string \<Rightarrow> json" where
  \<comment> \<open>\<open>it.get(k, "")\<close>; audit entries are dictionaries\<close>
  "item_field it k = (case it of JObj kvs \<Rightarrow> dict_get kvs k (JStr []) | _ \<Rightarrow> JStr [])"

fun filter_in :: "string \<Rightarrow> string \<Rightarrow> json list \<Rightarrow> int + json list" where
  "filter_in s k [] = Inr []"
| "filter_in s k (it # its) =
     (case py_in s (item_field it k) of
        None \<Rightarrow> Inl 500
      | Some b \<Rightarrow> bind_res (filter_in s k its) (\<lambda>r. Inr (if b then it # r else r)))"

record audit_query =
  uq_actor :: "string option"
  uq_action :: "string option"
  uq_since :: "rat option"
  uq_limit :: int

definition since_ok :: "(string \<Rightarrow> rat option) \<Rightarrow> rat \<Rightarrow> json \<Rightarrow> bool" where
  \<comment> \<open>\<open>fromisoformat\<close> is the first argument\<close>
  "since_ok parse_ts cutoff it =
     (case it of
        JObj kvs \<Rightarrow> (case map_of kvs ''ts'' of
            Some (JStr t) \<Rightarrow> (case parse_ts t of None \<Rightarrow> False | Some ts \<Rightarrow> ts \<ge> cutoff) | _ \<Rightarrow> False)
      | _ \<Rightarrow> False)"

definition list_audit :: "(string \<Rightarrow> rat option) \<Rightarrow> audit_query \<Rightarrow> audit_state \<Rightarrow> int + (nat \<times> json list)" where
  "list_audit parse_ts qy s =
     (if uq_limit qy < 1 \<or> uq_limit qy > 1000 then Inl 422
      else
        let raw = audit_snapshot (uq_limit qy) s in
        bind_res (if truthy_text (uq_actor qy) then filter_in (the (uq_actor qy)) ''actor'' raw else Inr raw) (\<lambda>i1.
        bind_res (if truthy_text (uq_action qy) then filter_in (the (uq_action qy)) ''action'' i1 else Inr i1) (\<lambda>i2.
          let i3 = (case uq_since qy of None \<Rightarrow> i2 | Some c \<Rightarrow> filter (since_ok parse_ts c) i2)
          in Inr (length i3, i3))))"

subsection \<open>Hunting\<close>

record hunt_fire =
  hf_event_id :: uuid
  hf_host_id :: uuid
  hf_occurred_at :: rat
  hf_source :: string
  hf_rule_id :: string
  hf_rule_title :: string
  hf_count :: int
  hf_dedup_key :: string

record hunt_out =
  hu_fires :: "hunt_fire list"
  hu_scanned :: nat
  hu_rules :: nat

definition hunt_event :: "api_event \<Rightarrow> parsed_event" where
  \<comment> \<open>the time is not read by the matcher\<close>
  "hunt_event row =
     \<lparr>pe_event_id = ev_id row, pe_host_id = ev_host_id row, pe_source = ev_source row, pe_raw = ev_raw row,
      pe_metadata = setdefault ''status'' [] (setdefault ''url'' [] (setdefault ''user'' []
        (setdefault ''source_ip'' [] (ev_metadata row)))),
      pe_occurred_at = \<lfloor>ev_occurred_at row\<rfloor>\<rparr>"

fun hunt_rows :: "sigma_env \<Rightarrow> sigma_rule \<Rightarrow> api_event list \<Rightarrow> int + hunt_fire list" where
  "hunt_rows E rule [] = Inr []"
| "hunt_rows E rule (row # rows) =
     (case rule_matches E rule (hunt_event row) of
        Inl _ \<Rightarrow> Inl 500
      | Inr b \<Rightarrow>
          bind_res (hunt_rows E rule rows) (\<lambda>fs. Inr (if b then
            \<lparr>hf_event_id = ev_id row, hf_host_id = ev_host_id row, hf_occurred_at = ev_occurred_at row,
             hf_source = ev_source row, hf_rule_id = sr_id rule, hf_rule_title = sr_title rule, hf_count = 1,
             hf_dedup_key = (let k = render_dedup_key rule (hunt_event row) in if k = [] then sr_id rule else k)\<rparr> # fs
           else fs)))"

definition run_hunt :: "rs_env \<Rightarrow> rat \<Rightarrow> json str_dict \<Rightarrow> int \<Rightarrow> api_event list \<Rightarrow> int + hunt_out" where
  "run_hunt e now rule lookback_hours tbl =
     (if lookback_hours < 1 \<or> lookback_hours > 24 * 30 then Inl 422
      else case parse_text e (rs_dump e (JObj rule)) of
        Inl _ \<Rightarrow> Inl 400
      | Inr [] \<Rightarrow> Inl 400
      | Inr (r # _) \<Rightarrow>
          let since = now - of_int (lookback_hours * 3600);
              rows = filter (\<lambda>row. ev_occurred_at row \<ge> since) tbl
          in bind_res (hunt_rows (rs_sigma e) r rows) (\<lambda>fires.
               Inr \<lparr>hu_fires = fires, hu_scanned = length rows, hu_rules = 1\<rparr>))"

record hunt_rule_summary =
  hs_id :: string
  hs_title :: string
  hs_level :: string
  hs_count :: int
  hs_timeframe :: int
  hs_cooldown :: int
  hs_has_action :: bool

definition hunt_list_rules :: "py_texts \<Rightarrow> dir_arg \<Rightarrow> int + hunt_rule_summary list" where
  "hunt_list_rules T d =
     (case load_rules_from_dir T d of
        Inl _ \<Rightarrow> Inl 500
      | Inr rules \<Rightarrow> Inr (map (\<lambda>r. \<lparr>hs_id = sr_id r, hs_title = sr_title r, hs_level = sr_level r, hs_count = sr_count r,
          hs_timeframe = sr_timeframe_sec r, hs_cooldown = sr_cooldown_sec r, hs_has_action = (sr_action r \<noteq> None)\<rparr>) rules))"

subsection \<open>Canary tokens\<close>

datatype canary_kind = Canary_file | Canary_tcp_socket | Canary_http_endpoint | Canary_credential

record canary_spec =
  cs_kind :: canary_kind
  cs_path :: string

record canary_descriptor =
  cd_id :: uuid
  cd_kind :: canary_kind
  cd_path :: string
  cd_created_at :: rat
  cd_secret :: string

record canary_entry = canary_descriptor +
  cd_host_id :: string

record canary_out =
  cy_id :: uuid
  cy_kind :: canary_kind
  cy_path :: string
  cy_host_id :: string
  cy_created_at :: rat

definition make_canary :: "uuid \<Rightarrow> rat \<Rightarrow> string \<Rightarrow> canary_spec \<Rightarrow> canary_descriptor" where
  \<comment> \<open>the fresh id, the clock and the fresh secret\<close>
  "make_canary i now secret spec =
     \<lparr>cd_id = i, cd_kind = cs_kind spec, cd_path = cs_path spec, cd_created_at = now, cd_secret = secret\<rparr>"

definition canary_kind_text :: "canary_kind \<Rightarrow> string" where
  "canary_kind_text k = (case k of Canary_file \<Rightarrow> ''file'' | Canary_tcp_socket \<Rightarrow> ''tcp_socket''
     | Canary_http_endpoint \<Rightarrow> ''http_endpoint'' | Canary_credential \<Rightarrow> ''credential'')"

definition canary_to_dict :: "(rat \<Rightarrow> string) \<Rightarrow> canary_descriptor \<Rightarrow> json str_dict" where
  \<comment> \<open>\<open>isoformat\<close> is the first argument\<close>
  "canary_to_dict isoformat d =
     [(''id'', JStr (cd_id d)), (''kind'', JStr (canary_kind_text (cd_kind d))), (''path'', JStr (cd_path d)),
      (''created_at'', JStr (isoformat (cd_created_at d))), (''secret'', JStr (cd_secret d))]"

definition persist_canary_descriptor ::
  "(json \<Rightarrow> string) \<Rightarrow> (rat \<Rightarrow> string) \<Rightarrow> string \<Rightarrow> canary_descriptor \<Rightarrow> string str_dict \<Rightarrow> string \<times> string str_dict" where
  \<comment> \<open>the files by path; \<open>json.show_json(..., indent=2)\<close> is the first argument\<close>
  "persist_canary_descriptor show_json isoformat base_dir d fs =
     (let out = base_dir @ ''/'' @ cd_id d @ ''.json'' in (out, dict_set out (show_json (JObj (canary_to_dict isoformat d))) fs))"

definition canary_out_of :: "canary_entry \<Rightarrow> canary_out" where
  "canary_out_of d = \<lparr>cy_id = cd_id d, cy_kind = cd_kind d, cy_path = cd_path d, cy_host_id = cd_host_id d,
     cy_created_at = cd_created_at d\<rparr>"

type_synonym canary_store = "(uuid \<times> canary_entry) list"

definition list_canaries :: "canary_store \<Rightarrow> canary_out list" where
  "list_canaries m = map (canary_out_of \<circ> snd) m"

definition create_canary ::
  "uuid \<Rightarrow> rat \<Rightarrow> string \<Rightarrow> canary_spec \<Rightarrow> string \<Rightarrow> canary_store \<Rightarrow> (int + canary_out) \<times> canary_store" where
  "create_canary i now secret spec host m =
     (if host = [] then (Inl 422, m)
      else
        let desc = make_canary i now secret spec;
            d = \<lparr>cd_id = cd_id desc, cd_kind = cs_kind spec, cd_path = cs_path spec, cd_created_at = cd_created_at desc,
                 cd_secret = cd_secret desc, cd_host_id = host\<rparr>
        in (Inr (canary_out_of d), dict_set i d m))"

definition delete_canary :: "uuid \<Rightarrow> canary_store \<Rightarrow> int \<times> canary_store" where
  "delete_canary i m = (if map_of m i = None then (404, m) else (204, dict_pop i m))"

record canary_touch =
  ct_canary_id :: string
  ct_host_id :: string
  ct_touched_by :: string
  ct_evidence_path :: "string option"

definition ingest_canary_touched :: "canary_touch \<Rightarrow> canary_store \<Rightarrow> (string \<times> string \<times> string) \<times> canary_store" where
  \<comment> \<open>the answer; nothing is stored, published or checked\<close>
  "ingest_canary_touched p m = ((''accepted'', ct_canary_id p, ct_touched_by p), m)"

subsection \<open>Walking the pages of the alert list\<close>

text \<open>
  A client that follows \<open>next_before\<close>: it asks again with \<open>until\<close> set to the
  cursor until there is none.  The fuel bounds the number of requests.
\<close>

fun walk_pages :: "nat \<Rightarrow> alert_query \<Rightarrow> alert_entry list \<Rightarrow> alert_entry list option" where
  "walk_pages 0 qy tbl = None"
| "walk_pages (Suc n) qy tbl =
     (case list_alerts qy tbl of
        Inl _ \<Rightarrow> None
      | Inr p \<Rightarrow>
          (case ap_next_before p of
             None \<Rightarrow> Some (ap_items p)
           | Some t \<Rightarrow> map_option (\<lambda>r. ap_items p @ r) (walk_pages n (qy\<lparr>aq_until := Some t\<rparr>) tbl)))"

definition newest_first :: "alert_entry list \<Rightarrow> bool" where
  "newest_first xs \<longleftrightarrow> sorted_wrt (\<lambda>a b. ae_created a > ae_created b) xs"

lemma selected_sorted:
  "sort_desc ae_created (filter p tbl) = filter p (sort_desc ae_created tbl)"
  by (simp add: sort_desc_def filter_sort)

lemma newest_first_sort:
  assumes "distinct (map ae_created tbl)"
  shows "newest_first (sort_desc ae_created tbl)"
proof -
  let ?xs = "sort_desc ae_created tbl"
  have "sorted (map (\<lambda>x. - ae_created x) ?xs)" by (simp add: sort_desc_def)
  moreover have "distinct (map (\<lambda>x. - ae_created x) ?xs)"
  proof -
    have "distinct (map (\<lambda>x. - ae_created x) tbl)" using assms by (simp add: distinct_map inj_on_def)
    then show ?thesis by (simp add: sort_desc_def distinct_map)
  qed
  ultimately have "sorted_wrt (<) (map (\<lambda>x. - ae_created x) ?xs)" by (simp add: strict_sorted_iff)
  then show ?thesis by (simp add: newest_first_def sorted_wrt_map)
qed

lemma older_than_last:
  assumes "newest_first xs" and "n < length xs" and "0 < n"
  shows "filter (\<lambda>a. ae_created a < ae_created (xs ! (n - 1))) xs = drop n xs"
proof -
  let ?c = "ae_created (xs ! (n - 1))"
  have s: "sorted_wrt (\<lambda>a b. ae_created a > ae_created b) (take n xs @ drop n xs)"
    using assms(1) by (simp add: newest_first_def)
  have l: "xs ! (n - 1) \<in> set (take n xs)" using assms(2,3) by (auto simp: in_set_conv_nth intro!: exI [of _ "n - 1"])
  have "\<forall>b \<in> set (drop n xs). ae_created b < ?c" using s l unfolding sorted_wrt_append by blast
  moreover have "\<not> ae_created a < ?c" if "a \<in> set (take n xs)" for a
  proof -
    from that obtain i where i: "i < n" "a = xs ! i" using assms(2) by (auto simp: in_set_conv_nth)
    show ?thesis
    proof (cases "i = n - 1")
      case False
      then have "ae_created (xs ! i) > ?c"
        using sorted_wrt_nth_less [OF assms(1) [unfolded newest_first_def], of i "n - 1"] assms(2) i by simp
      then show ?thesis using i by simp
    qed (use i in simp)
  qed
  ultimately have "filter (\<lambda>a. ae_created a < ?c) (take n xs @ drop n xs) = drop n xs"
    by (simp only: filter_append) (simp add: filter_empty_conv filter_id_conv)
  then show ?thesis by simp
qed

lemma selected_until:
  "alert_selected (qy\<lparr>aq_until := Some t\<rparr>) a \<longleftrightarrow> alert_selected (qy\<lparr>aq_until := None\<rparr>) a \<and> ae_created a < t"
  by (auto simp: alert_selected_def opt_holds_def)

lemma selected_tighter:
  assumes "opt_holds (\<lambda>u. t \<le> u) (aq_until qy)"
  shows "alert_selected (qy\<lparr>aq_until := Some t\<rparr>) a \<longleftrightarrow> alert_selected qy a \<and> ae_created a < t"
  using assms by (cases "aq_until qy") (auto simp: alert_selected_def opt_holds_def)

lemma walk_complete:
  assumes "distinct (map ae_created tbl)" and "1 \<le> aq_limit qy" "aq_limit qy \<le> 500"
    and "length (filter (alert_selected qy) tbl) \<le> n * nat (aq_limit qy)" "0 < n"
  shows "walk_pages n qy tbl = Some (sort_desc ae_created (filter (alert_selected qy) tbl))"
  using assms(2-5)
proof (induction n arbitrary: qy)
  case (Suc n)
  define xs where "xs = sort_desc ae_created (filter (alert_selected qy) tbl)"
  define k where "k = nat (aq_limit qy)"
  have k: "0 < k" using Suc.prems(1) by (simp add: k_def)
  have nf: "newest_first xs"
    using newest_first_sort [OF assms(1)] unfolding xs_def selected_sorted newest_first_def
    by (rule sorted_wrt_filter)
  have len: "length xs = length (filter (alert_selected qy) tbl)" by (simp add: xs_def sort_desc_def)
  show ?case
  proof (cases "length xs \<le> k")
    case True
    then show ?thesis
      using Suc.prems by (simp add: list_alerts_def Let_def xs_def [symmetric] k_def [symmetric])
  next
    case False
    have lst: "last (take k xs) = xs ! (k - 1)" using k False by (cases xs) (auto simp: last_conv_nth min_def)
    define t where "t = ae_created (xs ! (k - 1))"
    have "xs \<noteq> []" using False by auto
    then have p: "list_alerts qy tbl = Inr \<lparr>ap_items = take k xs, ap_next_before = Some t\<rparr>"
      using Suc.prems(1,2) False k by (simp add: list_alerts_def Let_def xs_def [symmetric] k_def [symmetric] t_def lst min_def)
    have "xs ! (k - 1) \<in> set xs" using False k by simp
    then have "alert_selected qy (xs ! (k - 1))" by (simp add: xs_def sort_desc_def)
    then have "opt_holds (\<lambda>u. t \<le> u) (aq_until qy)"
      by (cases "aq_until qy") (auto simp: alert_selected_def opt_holds_def t_def)
    note sel = selected_tighter [OF this]
    have cut: "filter (\<lambda>a. ae_created a < t) xs = drop k xs"
      using older_than_last [OF nf _ k] False by (simp add: t_def)
    have "sort_desc ae_created (filter (alert_selected (qy\<lparr>aq_until := Some t\<rparr>)) tbl) =
        filter (\<lambda>a. ae_created a < t) xs"
      unfolding xs_def selected_sorted filter_filter by (rule filter_cong) (simp_all add: sel)
    with cut have rest:
      "sort_desc ae_created (filter (alert_selected (qy\<lparr>aq_until := Some t\<rparr>)) tbl) = drop k xs" by simp
    have "length (filter (alert_selected (qy\<lparr>aq_until := Some t\<rparr>)) tbl) = length xs - k"
      using rest by (metis length_drop length_sort sort_desc_def)
    moreover have "length xs \<le> k + n * k" using Suc.prems(3) len by (simp add: k_def)
    ultimately have fits: "length (filter (alert_selected (qy\<lparr>aq_until := Some t\<rparr>)) tbl) \<le> n * k"
      and "0 < n" using False by (auto intro!: gr0I)
    then have "walk_pages n (qy\<lparr>aq_until := Some t\<rparr>) tbl = Some (drop k xs)"
      using Suc.IH [of "qy\<lparr>aq_until := Some t\<rparr>"] Suc.prems(1,2) rest by (simp add: k_def)
    then show ?thesis using p by (simp add: xs_def)
  qed
qed simp

text \<open>
  C36: Following the cursor shows every alert.  If no two alerts have the same time, a client
  that asks again with the cursor as upper bound ends after as many requests as there are
  pages and has seen exactly the selected alerts, newest first, each once.
\<close>

theorem alert_pages_complete:
  assumes "distinct (map ae_created tbl)" and "1 \<le> aq_limit qy" "aq_limit qy \<le> 500"
    and "length (filter (alert_selected qy) tbl) \<le> n * nat (aq_limit qy)" "0 < n"
  shows "\<exists>out. walk_pages n qy tbl = Some out \<and> mset out = mset (filter (alert_selected qy) tbl) \<and>
    sorted_wrt (\<lambda>a b. ae_created a > ae_created b) out"
proof -
  have "newest_first (sort_desc ae_created (filter (alert_selected qy) tbl))"
    using newest_first_sort [OF assms(1)] unfolding selected_sorted newest_first_def
    by (rule sorted_wrt_filter)
  moreover have "mset (sort_desc ae_created (filter (alert_selected qy) tbl)) = mset (filter (alert_selected qy) tbl)"
    by (simp add: sort_desc_def)
  ultimately show ?thesis using walk_complete [OF assms] by (auto simp: newest_first_def)
qed

definition demo_alert :: "string \<Rightarrow> rat \<Rightarrow> alert_entry" where
  "demo_alert i t = \<lparr>ae_id = i, ae_host = None, ae_detector = ''ssh'', ae_severity = ''high'', ae_summary = [],
     ae_detail = [], ae_created = t, ae_acked = None\<rparr>"

definition demo_alert_query :: alert_query where
  "demo_alert_query = \<lparr>aq_host = None, aq_detector = Some ''ssh'', aq_since = None, aq_until = None, aq_limit = 2\<rparr>"

theorem alert_pages_complete_witness:
  "\<exists>out. walk_pages 2 demo_alert_query [demo_alert ''a'' 1, demo_alert ''b'' 3, demo_alert ''c'' 2] = Some out \<and>
     mset out = {#demo_alert ''a'' 1, demo_alert ''b'' 3, demo_alert ''c'' 2#}"
proof -
  let ?t = "[demo_alert ''a'' 1, demo_alert ''b'' 3, demo_alert ''c'' 2]"
  have "distinct (map ae_created ?t)" "1 \<le> aq_limit demo_alert_query" "aq_limit demo_alert_query \<le> 500"
    by (simp_all add: demo_alert_def demo_alert_query_def)
  moreover have f: "filter (alert_selected demo_alert_query) ?t = ?t"
    by (simp add: alert_selected_def opt_holds_def demo_alert_query_def demo_alert_def)
  ultimately show ?thesis
    using alert_pages_complete [of ?t demo_alert_query 2] by (auto simp: demo_alert_query_def)
qed

text \<open>
  With equal times the cursor skips: two alerts of one moment on a page boundary, and the
  second is on no page.  Alerts written in one transaction share their \<open>created_at\<close>.
\<close>

lemma alert_pages_skip_ties:
  "walk_pages 9 (demo_alert_query\<lparr>aq_limit := 1\<rparr>) [demo_alert ''a'' 5, demo_alert ''b'' 5] = Some [demo_alert ''a'' 5]"
proof -
  have "list_alerts (demo_alert_query\<lparr>aq_limit := 1\<rparr>) [demo_alert ''a'' 5, demo_alert ''b'' 5] =
      Inr \<lparr>ap_items = [demo_alert ''a'' 5], ap_next_before = Some 5\<rparr>"
    "list_alerts (demo_alert_query\<lparr>aq_limit := 1, aq_until := Some 5\<rparr>) [demo_alert ''a'' 5, demo_alert ''b'' 5] =
      Inr \<lparr>ap_items = [], ap_next_before = None\<rparr>"
    by (simp_all add: list_alerts_def Let_def alert_selected_def opt_holds_def demo_alert_query_def demo_alert_def sort_desc_def)
  then show ?thesis by (simp add: eval_nat_numeral)
qed

subsection \<open>Offset pages\<close>

lemma offset_pages:
  assumes "0 < k"
  shows "concat (map (\<lambda>i. take k (drop (i * k) xs)) [0..<n]) = take (n * k) xs"
proof (induction n)
  case (Suc n)
  have "take (n * k) xs @ take k (drop (n * k) xs) = take (n * k + k) xs" by (simp add: take_add)
  with Suc show ?case by (simp add: add.commute)
qed simp

lemma event_pages:
  assumes "1 \<le> limit" "limit \<le> 1000"
  shows "concat (map (\<lambda>i. projr (list_events host since limit (int i * limit) tbl)) [0..<n]) =
    take (n * nat limit) (sort_desc ev_received_at (filter (\<lambda>r. opt_holds (\<lambda>h. ev_host_id r = h) host \<and>
      opt_holds (\<lambda>t. ev_received_at r > t) since) tbl))"
proof -
  have "nat (int i * limit) = i * nat limit" "0 \<le> int i * limit" for i
    using assms by (simp_all add: nat_mult_distrib)
  then have "projr (list_events host since limit (int i * limit) tbl) =
      service_list_events host since (nat limit) (i * nat limit) tbl" for i
    using assms by (simp add: list_events_def leD)
  then show ?thesis using assms offset_pages [of "nat limit"] by (simp add: service_list_events_def)
qed

subsection \<open>Sessions never refresh a host\<close>

lemma ws_agent_hosts: "w_hosts (snd (ws_agent e nonce start ws msgs w)) = w_hosts w"
proof (cases msgs)
  case (Cons m rest)
  obtain t raw where m: "m = (t, raw)" by (cases m)
  show ?thesis
  proof (cases "handshake e (w_hosts w) nonce raw")
    case (Refused c a)
    then show ?thesis by (cases a) (simp_all add: Cons m ws_agent_def)
  next
    case (Accepted h)
    let ?w0 = "w\<lparr>w_conns := register_conn (host_id h) ws (w_conns w)\<rparr>"
    obtain c w1 where l: "ws_loop e start 0 rest ?w0 = (c, w1)" by (cases "ws_loop e start 0 rest ?w0")
    have "ws_effect ?w0 w1" using ws_loop_effect [of ?w0 e start 0 rest] by (simp add: l)
    then show ?thesis using Accepted l by (simp add: Cons m ws_agent_def ws_effect_def)
  qed
qed (simp add: ws_agent_def)

text \<open>
  C33: A live agent is reported stale.  Whatever frames a session has exchanged, once more than
  300 seconds have passed since the \<open>last_seen_at\<close> the host row had before the session,
  the health view of a connected agent says \<open>stale\<close>, and the lists show the old time: no
  part of the session writes the row (\<open>mark_authenticated_hello\<close> is never called).
\<close>

theorem live_agent_reported_stale:
  fixes w :: "'w ws_world"
  assumes "service_get_host a (w_hosts w) = Some h" and "now - last_seen_at h \<ge> 301"
    and "get_conn conns a \<noteq> None"
  shows "let w' = snd (ws_agent e nonce start ws msgs w)
    in map_option gh_status (case get_agent_health now a conns (w_hosts w') of Inr v \<Rightarrow> Some v | Inl _ \<Rightarrow> None) = Some Stale \<and>
       map_option last_seen_at (service_get_host a (w_hosts w')) = Some (last_seen_at h)"
proof -
  have same: "w_hosts (snd (ws_agent e nonce start ws msgs w)) = w_hosts w" by (rule ws_agent_hosts)
  have "\<lfloor>now - last_seen_at h\<rfloor> \<ge> 301" using assms(2) by (simp add: le_floor_iff)
  then have "max 0 (if now - last_seen_at h < 0 then - \<lfloor>- (now - last_seen_at h)\<rfloor> else \<lfloor>now - last_seen_at h\<rfloor>) > 300"
    using assms(2) by simp
  then show ?thesis
    using assms(1,3) unfolding Let_def same by (simp add: get_agent_health_def STALE_AFTER_SECONDS_def Let_def)
qed

theorem live_agent_reported_stale_witness:
  "map_option gh_status (case get_agent_health 1000 ''h2'' [(''h2'', 7::nat)]
     (w_hosts (snd (ws_agent (demo_ws_env (replicate 64 (CHR ''0''))) demo_nonce 0 7 [(0, ''H'')] demo_ws_world))) of
       Inr v \<Rightarrow> Some v | Inl _ \<Rightarrow> None) = Some Stale"
proof -
  have "service_get_host ''h2'' (w_hosts demo_ws_world) = Some (demo_host ''h2'' True)"
    "(1000::rat) - last_seen_at (demo_host ''h2'' True) \<ge> 301" "get_conn [(''h2'', 7::nat)] ''h2'' \<noteq> None"
    by (simp_all add: service_get_host_def demo_ws_world_def demo_host_def get_conn_def)
  from live_agent_reported_stale [OF this] show ?thesis unfolding Let_def by blast
qed

text \<open>Had the session called it after the handshake, the agent would count as online.\<close>

lemma marked_agent_online:
  assumes "service_get_host a hosts = Some (mark_authenticated_hello t version h)" "get_conn conns a \<noteq> None"
    and "t \<le> now" "now - t < 301"
  shows "map_option gh_status (case get_agent_health now a conns hosts of Inr v \<Rightarrow> Some v | Inl _ \<Rightarrow> None) = Some Online"
proof -
  have "\<lfloor>now - t\<rfloor> < 301" using assms(4) by (simp add: floor_less_iff)
  then show ?thesis
    using assms by (simp add: get_agent_health_def mark_authenticated_hello_def STALE_AFTER_SECONDS_def Let_def)
qed

lemma canary_files_apart:
  assumes "cd_id d \<noteq> cd_id d'"
  shows "map_of (snd (persist_canary_descriptor show_json fmt base d (snd (persist_canary_descriptor show_json fmt base d' fs))))
    (fst (persist_canary_descriptor show_json fmt base d' fs)) = Some (show_json (JObj (canary_to_dict fmt d')))"
  using assms by (simp add: persist_canary_descriptor_def Let_def)

subsection \<open>Hunting is the engine's matcher\<close>

text \<open>
  A hunt reports exactly the stored events of the period the rule matches, in table
  order, with the four empty defaults for \<open>source_ip\<close>, \<open>user\<close>, \<open>url\<close> and
  \<open>status\<close> filled in; thresholds and cooldowns play no role and nothing is written.
\<close>

lemma hunt_rows_exact:
  "hunt_rows E rule rows = Inr fs \<Longrightarrow>
     map hf_event_id fs = map ev_id (filter (\<lambda>r. rule_matches E rule (hunt_event r) = Inr True) rows) \<and>
     list_all (\<lambda>f. hf_rule_id f = sr_id rule \<and> hf_count f = 1) fs"
proof (induction rows arbitrary: fs)
  case (Cons row rows)
  obtain b where b: "rule_matches E rule (hunt_event row) = Inr b"
    using Cons.prems by (cases "rule_matches E rule (hunt_event row)") simp_all
  with Cons.prems obtain gs where "hunt_rows E rule rows = Inr gs" by (auto simp: bind_res_Inr_iff)
  with Cons b show ?case by (cases b) auto
qed simp

lemma hunt_rows_total:
  "list_all (\<lambda>r. is_ok (rule_matches E rule (hunt_event r))) rows \<Longrightarrow> is_ok (hunt_rows E rule rows)"
  by (induction rows) (auto simp: is_ok_iff)

lemma hunt_matches_engine:
  assumes "run_hunt e now doc hours tbl = Inr out"
  shows "\<exists>r rs. parse_text e (rs_dump e (JObj doc)) = Inr (r # rs) \<and>
    map hf_event_id (hu_fires out) =
      map ev_id (filter (\<lambda>row. ev_occurred_at row \<ge> now - of_int (hours * 3600) \<and>
        rule_matches (rs_sigma e) r (hunt_event row) = Inr True) tbl)"
proof -
  from assms obtain r rs fs where p: "parse_text e (rs_dump e (JObj doc)) = Inr (r # rs)"
    and f: "hunt_rows (rs_sigma e) r (filter (\<lambda>row. ev_occurred_at row \<ge> now - of_int (hours * 3600)) tbl) = Inr fs"
    and o: "hu_fires out = fs"
    by (auto simp: run_hunt_def Let_def bind_res_Inr_iff split: if_splits sum.splits list.splits)
  from hunt_rows_exact [OF f] p o show ?thesis by (auto simp: conj_commute)
qed

subsection \<open>Canary tokens\<close>

lemma canary_create_list:
  assumes "host \<noteq> []" "map_of m i = None"
  shows "list_canaries (snd (create_canary i now s spec host m)) =
    list_canaries m @ [\<lparr>cy_id = i, cy_kind = cs_kind spec, cy_path = cs_path spec, cy_host_id = host, cy_created_at = now\<rparr>]"
proof -
  have "dict_set i d m = m @ [(i, d)]" for d using assms(2) by (induction m) (auto split: if_splits)
  then show ?thesis using assms(1) by (simp add: create_canary_def list_canaries_def canary_out_of_def make_canary_def Let_def)
qed

lemma canary_secret_unseen:
  "fst (create_canary i now s spec host m) = fst (create_canary i now s' spec host m)"
  "list_canaries (snd (create_canary i now s spec host m)) = list_canaries (snd (create_canary i now s' spec host m))"
proof -
  show "fst (create_canary i now s spec host m) = fst (create_canary i now s' spec host m)"
    by (simp add: create_canary_def canary_out_of_def make_canary_def Let_def)
  have "map (canary_out_of \<circ> snd) (dict_set i d m) = map (canary_out_of \<circ> snd) (dict_set i d' m)"
    if "canary_out_of d = canary_out_of d'" for d d'
    using that by (induction i d m rule: dict_set.induct) auto
  then show "list_canaries (snd (create_canary i now s spec host m)) = list_canaries (snd (create_canary i now s' spec host m))"
    by (simp add: create_canary_def list_canaries_def make_canary_def canary_out_of_def Let_def)
qed

text \<open>
  A touched canary changes nothing: the endpoint answers \<open>accepted\<close> for every id, known or
  not, and neither stores nor publishes an event, although it is documented to turn the
  report into one for the rule engine.
\<close>

lemma canary_touch_ignored: "snd (ingest_canary_touched p m) = m"
  by (simp add: ingest_canary_touched_def)

lemma patch_host_exact:
  "patch_host a (Some b) tbl =
     (if list_ex (\<lambda>h. host_id h = a) tbl
      then (Inr (a, b), map (\<lambda>h. if host_id h = a then h\<lparr>auto_block := b\<rparr> else h) tbl) else (Inl 404, tbl))"
  by (simp add: patch_host_def update_where_def)

end
