(* ===== verification/Diagnostics.thy ===== *)
theory Diagnostics
  imports Http_Stack Rules_Studio Dispatch "HOL-Library.Char_ord"
begin

section \<open>Diagnostic endpoints\<close>

text \<open>
  \<open>api/health.py\<close>, \<open>api/v1/healthcheck.py\<close>, \<open>version.py\<close>, \<open>stats.py\<close>,
  \<open>auth.py\<close> (who am I), \<open>security.py\<close> (the header audit) and \<open>audit_bots.py\<close>
  (secret scan, dependency audit, rule quality, posture digest).  The files of the installation
  are a list in the order the directory walk yields them; a path is the list of its parts
  without the root.  Clocks, process ids and \<open>json.load\<close> are arguments.
\<close>

subsection \<open>Health\<close>

definition probe_failures :: "string option \<Rightarrow> string option \<Rightarrow> string list" where
  \<comment> \<open>an error of a probe is its text\<close>
  "probe_failures pg rd =
     (case pg of None \<Rightarrow> [] | Some x \<Rightarrow> [''postgres: '' @ x]) @ (case rd of None \<Rightarrow> [] | Some x \<Rightarrow> [''redis: '' @ x])"

definition readyz :: "string option \<Rightarrow> string option \<Rightarrow> int \<times> string str_dict" where
  "readyz pg rd =
     (let failures = probe_failures pg rd
      in if failures \<noteq> [] then (503, [(''status'', ''unready''), (''detail'', py_join ''; '' failures)])
         else (200, [(''status'', ''ready'')]))"

record probe =
  pr_ok :: bool
  pr_latency_ms :: rat
  pr_error :: "string option"

definition run_probe :: "rat \<Rightarrow> string option \<Rightarrow> probe" where
  \<comment> \<open>the latency is rounded to two places before it gets here\<close>
  "run_probe latency err = \<lparr>pr_ok = (err = None), pr_latency_ms = latency, pr_error = err\<rparr>"

record deps_health =
  dh_status :: string
  dh_ok :: bool
  dh_deps :: "probe str_dict"

definition healthz_deps :: "rat \<times> string option \<Rightarrow> rat \<times> string option \<Rightarrow> int \<times> deps_health" where
  "healthz_deps pg rd =
     (let deps = [(''postgres'', run_probe (fst pg) (snd pg)), (''redis'', run_probe (fst rd) (snd rd))];
          all_ok = list_all (\<lambda>d. pr_ok (snd d)) deps
      in (if all_ok then 200 else 503,
          \<lparr>dh_status = (if all_ok then ''ok'' else ''degraded''), dh_ok = all_ok, dh_deps = deps\<rparr>))"

subsection \<open>Version, statistics, health check\<close>

datatype file_text =
  Unreadable             \<comment> \<open>an \<open>OSError\<close>\<close>
| Not_utf8 string        \<comment> \<open>the text without the bytes that do not decode\<close>
| Utf8 string

definition sha_field :: "string \<Rightarrow> json \<Rightarrow> string" where
  "sha_field k data =
     (case data of
        JObj kvs \<Rightarrow> (case map_of kvs k of Some (JStr s) \<Rightarrow> if s = [] then ''unknown'' else s | _ \<Rightarrow> ''unknown'')
      | _ \<Rightarrow> ''unknown'')"

definition read_git_sha :: "(string \<Rightarrow> json option) \<Rightarrow> file_text option \<Rightarrow> string" where
  \<comment> \<open>\<open>None\<close> for the file: it does not exist; for the parser: a \<open>JSONDecodeError\<close>\<close>
  "read_git_sha loads f =
     (case f of
        Some (Utf8 s) \<Rightarrow> (case loads s of None \<Rightarrow> ''unknown'' | Some data \<Rightarrow> sha_field ''git_sha'' data)
      | _ \<Rightarrow> ''unknown'')"

definition read_build_info :: "(string \<Rightarrow> json option) \<Rightarrow> file_text option \<Rightarrow> int + string \<times> string" where
  \<comment> \<open>a text that is not UTF-8 is a \<open>UnicodeDecodeError\<close>, which only \<open>ValueError\<close> catches\<close>
  "read_build_info loads f =
     (case f of
        Some (Utf8 s) \<Rightarrow>
          (case loads s of
             None \<Rightarrow> Inr (''unknown'', ''unknown'')
           | Some data \<Rightarrow> Inr (sha_field ''git_sha'' data, sha_field ''git_sha_full'' data))
      | Some (Not_utf8 _) \<Rightarrow> Inl 500
      | _ \<Rightarrow> Inr (''unknown'', ''unknown''))"

definition version_info :: "(string \<Rightarrow> json option) \<Rightarrow> string \<Rightarrow> file_text option \<Rightarrow> int + string str_dict" where
  "version_info loads v f =
     bind_res (read_build_info loads f) (\<lambda>(short, full).
       Inr [(''version'', v), (''git_sha'', short), (''git_sha_full'', full)])"

record text_file =
  tf_path :: "string list"
  tf_size :: nat
  tf_text :: file_text

definition files_under :: "string list \<Rightarrow> text_file list \<Rightarrow> text_file list" where
  "files_under rdir fs = filter (\<lambda>f. strict_prefix rdir (tf_path f)) fs"

definition count_yml_files :: "string list \<Rightarrow> text_file list option \<Rightarrow> int" where
  \<comment> \<open>\<open>None\<close>: the directory is missing or the walk fails\<close>
  "count_yml_files rdir t =
     (case t of
        None \<Rightarrow> - 1
      | Some fs \<Rightarrow> int (length (filter (\<lambda>f. py_endswith (last (tf_path f)) ''.yml'') (files_under rdir fs))))"

record health_out =
  ho_ok :: bool
  ho_version :: string
  ho_rules_loaded :: int
  ho_agents_connected :: nat

definition healthcheck :: "string \<Rightarrow> string list \<Rightarrow> text_file list option \<Rightarrow> 'w conns \<Rightarrow> health_out" where
  "healthcheck v rdir t conns =
     (let n = count_yml_files rdir t
      in \<lparr>ho_ok = (n \<ge> 0), ho_version = v, ho_rules_loaded = n, ho_agents_connected = conn_count conns\<rparr>)"

record stats_out =
  so_version :: string
  so_git_sha :: string
  so_rules_loaded :: int
  so_agents_connected :: nat
  so_uptime_seconds :: int
  so_pid :: int

definition py_trunc :: "rat \<Rightarrow> int" where
  "py_trunc d = (if d < 0 then - \<lfloor>- d\<rfloor> else \<lfloor>d\<rfloor>)"

definition stats ::
  "(string \<Rightarrow> json option) \<Rightarrow> string \<Rightarrow> file_text option \<Rightarrow> string list \<Rightarrow> text_file list option \<Rightarrow> 'w conns \<Rightarrow>
   rat \<Rightarrow> rat \<Rightarrow> int \<Rightarrow> stats_out" where
  "stats loads v info rdir t conns now started pid =
     \<lparr>so_version = v, so_git_sha = read_git_sha loads info, so_rules_loaded = count_yml_files rdir t,
      so_agents_connected = conn_count conns, so_uptime_seconds = max 0 (py_trunc (now - started)), so_pid = pid\<rparr>"

subsection \<open>Who am I\<close>

definition whoami ::
  "settings \<Rightarrow> (string \<rightharpoonup> string) \<Rightarrow> http_request \<Rightarrow> string option \<Rightarrow> http_error + (role \<times> bool option)" where
  \<comment> \<open>the environment of the process is the second argument\<close>
  "whoami st env req key =
     bind_res (require_role st req key) (\<lambda>r.
       Inr (r, if (case env ''ZAQORIN_ENV'' of None \<Rightarrow> ''production'' | Some v \<Rightarrow> v) = ''development''
               then Some True else None))"

subsection \<open>The header audit\<close>

text \<open>
  The endpoint reads \<open>sec._CSP\<close>.  The names the module \<open>security.py\<close> defines are a
  dictionary; a name that is not there is an \<open>AttributeError\<close>, which the handlers catch.
\<close>

definition security_names :: "string str_dict" where
  "security_names = [(''_CSP_BASE'', CSP_BASE)]"

definition header_snapshot :: "string str_dict \<Rightarrow> string str_dict" where
  "header_snapshot sec =
     (case map_of sec ''_CSP'' of
        None \<Rightarrow> []
      | Some csp \<Rightarrow>
          [(''Content-Security-Policy'', csp), (''X-Content-Type-Options'', ''nosniff''), (''X-Frame-Options'', ''DENY''),
           (''Referrer-Policy'', ''no-referrer''),
           (''Permissions-Policy'', ''camera=(), microphone=(), geolocation=(), payment=()'')])"

definition security_headers :: "string str_dict \<Rightarrow> string str_dict \<times> nat" where
  "security_headers sec = (header_snapshot sec, length (header_snapshot sec))"

definition REQUIRED_HEADERS :: "string list" where
  "REQUIRED_HEADERS = [''Content-Security-Policy'', ''X-Content-Type-Options'', ''X-Frame-Options'',
     ''Referrer-Policy'', ''Permissions-Policy'']"

definition REQUIRED_VALUES :: "string str_dict" where
  "REQUIRED_VALUES = [(''X-Content-Type-Options'', ''nosniff''), (''X-Frame-Options'', ''DENY''),
     (''Referrer-Policy'', ''no-referrer''),
     (''Permissions-Policy'', ''camera=(), microphone=(), geolocation=(), payment=()'')]"

record header_violation =
  hv_header :: string
  hv_expected :: string
  hv_actual :: string

record header_audit =
  ha_headers :: "string str_dict"
  ha_contract :: "string str_dict"
  ha_violations :: "header_violation list"
  ha_healthy :: bool
  ha_checked :: nat
  ha_count :: nat

definition check_header :: "string str_dict \<Rightarrow> string \<Rightarrow> header_violation list" where
  "check_header emitted name =
     (case map_of emitted name of
        None \<Rightarrow> [\<lparr>hv_header = name, hv_expected = dict_get REQUIRED_VALUES name [], hv_actual = []\<rparr>]
      | Some actual \<Rightarrow>
          (case map_of REQUIRED_VALUES name of
             None \<Rightarrow> []
           | Some expected \<Rightarrow>
               if actual \<noteq> expected then [\<lparr>hv_header = name, hv_expected = expected, hv_actual = actual\<rparr>] else []))"

definition audit_security_headers :: "string str_dict \<Rightarrow> header_audit" where
  "audit_security_headers sec =
     (let emitted = header_snapshot sec;
          violations = concat (map (check_header emitted) REQUIRED_HEADERS)
      in \<lparr>ha_headers = emitted, ha_contract = REQUIRED_VALUES, ha_violations = violations,
          ha_healthy = (violations = [] \<and> length emitted = length REQUIRED_HEADERS),
          ha_checked = length REQUIRED_HEADERS, ha_count = length emitted\<rparr>)"

definition csp_test :: "string str_dict \<Rightarrow> string option \<times> bool" where
  "csp_test sec = (let csp = map_of (header_snapshot sec) ''Content-Security-Policy'' in (csp, csp \<noteq> None))"

subsection \<open>Secret scan\<close>

definition rep :: "nat \<Rightarrow> (char \<Rightarrow> bool) \<Rightarrow> re" where
  \<comment> \<open>\<open>[...]{n}\<close>\<close>
  "rep n p = seqs (replicate n (Class p))"

fun search_behind :: "(char \<Rightarrow> bool) \<Rightarrow> re \<Rightarrow> bool \<Rightarrow> string \<Rightarrow> bool" where
  \<comment> \<open>a search whose pattern starts with \<open>(?<![...])\<close>; the flag says that it may start here\<close>
  "search_behind p r here [] = (here \<and> ends r [] \<noteq> [])"
| "search_behind p r here (c # s) = (here \<and> ends r (c # s) \<noteq> [] \<or> search_behind p r (\<not> p c) s)"

definition key_char :: "char \<Rightarrow> bool" where
  "key_char c \<longleftrightarrow> py_isdigit c \<or> (65 \<le> ord c \<and> ord c \<le> 90)"

definition token_char :: "char \<Rightarrow> bool" where
  "token_char c \<longleftrightarrow> py_isalnum c \<or> c = CHR ''_'' \<or> c = CHR ''-''"

definition quote_char :: "char \<Rightarrow> bool" where
  "quote_char c \<longleftrightarrow> c = CHR 0x27 \<or> c = CHR 0x22"

definition aws_re :: re where
  "aws_re = Seq (Regex.Lit ''AKIA'') (rep 16 key_char)"

definition SECRET_PATTERNS :: "(string \<times> (string \<Rightarrow> bool)) list" where
  "SECRET_PATTERNS =
     [(''aws_access_key'', re_search aws_re),
      (''github_pat'', re_search (seqs [Regex.Lit ''gh'', Class (\<lambda>c. c \<in> set ''pousr''), Regex.Lit ''_'', rep 30 py_isalnum, Many py_isalnum])),
      (''bearer_token'', re_search (seqs [LitI ''bearer'', Plus py_isspace, rep 20 token_char, Many token_char])),
      (''sk_live'', re_search (seqs [Regex.Lit ''sk_'', Alt (Regex.Lit ''live'') (Regex.Lit ''test''), Regex.Lit ''_'', rep 20 py_isalnum, Many py_isalnum])),
      (''private_key'', re_search (seqs [Regex.Lit ''-----BEGIN '', Opt (alts [Regex.Lit ''RSA '', Regex.Lit ''EC '', Regex.Lit ''DSA '', Regex.Lit ''OPENSSH '']),
         Regex.Lit ''PRIVATE KEY-----''])),
      (''password_assignment'', search_behind (\<lambda>c. py_isword c \<or> c = CHR ''/'' \<or> c = CHR '':'')
         (seqs [Many py_isspace, LitI ''password'', Many py_isspace, Class (\<lambda>c. c = CHR '':'' \<or> c = CHR ''=''), Many py_isspace,
            Class quote_char, rep 8 (\<lambda>c. \<not> quote_char c \<and> \<not> py_isspace c),
            Many (\<lambda>c. \<not> quote_char c \<and> \<not> py_isspace c)]) True)]"

definition SKIP_FILE_SUFFIXES :: "string list" where
  "SKIP_FILE_SUFFIXES = [''.pyc'', ''.png'', ''.jpg'', ''.gif'', ''.pdf'']"

definition SKIP_DIR_NAMES :: "string list" where
  "SKIP_DIR_NAMES = [''__pycache__'', ''.git'', ''node_modules'', ''dist'', ''build'']"

definition MAX_SCAN_BYTES :: nat where
  "MAX_SCAN_BYTES = 256 * 1024"

definition path_suffix :: "string \<Rightarrow> string" where
  \<comment> \<open>\<open>PurePath.suffix\<close>: from the last dot, which is neither the first nor the last character\<close>
  "path_suffix name =
     (let e = takeWhile (\<lambda>c. c \<noteq> CHR ''.'') (rev name)
      in if CHR ''.'' \<in> set name \<and> e \<noteq> [] \<and> length e + 1 < length name then CHR ''.'' # rev e else [])"

definition scannable :: "text_file \<Rightarrow> bool" where
  \<comment> \<open>the parts are those of the absolute path\<close>
  "scannable f \<longleftrightarrow> \<not> list_ex (\<lambda>p. p \<in> set SKIP_DIR_NAMES) (tf_path f) \<and>
     py_lower (path_suffix (last (tf_path f))) \<notin> set SKIP_FILE_SUFFIXES \<and> tf_size f \<le> MAX_SCAN_BYTES"

definition iter_text_files :: "string list \<Rightarrow> text_file list \<Rightarrow> text_file list" where
  "iter_text_files rdir fs = filter scannable (files_under rdir fs)"

definition line_break :: "char \<Rightarrow> bool" where
  "line_break c \<longleftrightarrow> (10 \<le> ord c \<and> ord c \<le> 13) \<or> (28 \<le> ord c \<and> ord c \<le> 30)"

fun text_lines :: "string \<Rightarrow> string \<Rightarrow> string list" where
  \<comment> \<open>\<open>str.splitlines()\<close> on a text read with universal newlines, which has no carriage return\<close>
  "text_lines acc [] = (if acc = [] then [] else [rev acc])"
| "text_lines acc (c # s) = (if line_break c then rev acc # text_lines [] s else text_lines (c # acc) s)"

record secret_finding =
  sf_file :: string
  sf_kind :: string
  sf_line :: nat
  sf_snippet :: string

definition is_sigma_rule :: "text_file \<Rightarrow> bool" where
  "is_sigma_rule f \<longleftrightarrow> path_suffix (last (tf_path f)) = ''.yml'' \<and> ''mitre_attack'' \<in> set (tf_path f)"

definition line_hits :: "bool \<Rightarrow> string \<Rightarrow> string list" where
  "line_hits sigma line =
     map fst (filter (\<lambda>(kind, found). \<not> (sigma \<and> kind = ''password_assignment'') \<and> found line) SECRET_PATTERNS)"

definition file_lines :: "text_file \<Rightarrow> string list" where
  "file_lines f = (case tf_text f of Unreadable \<Rightarrow> [] | Not_utf8 s \<Rightarrow> text_lines [] s | Utf8 s \<Rightarrow> text_lines [] s)"

definition scan_file_for_secrets :: "text_file \<Rightarrow> (string \<times> nat \<times> string) list" where
  "scan_file_for_secrets f =
     concat (map (\<lambda>(n, line). map (\<lambda>kind. (kind, n, take 80 (py_strip line))) (line_hits (is_sigma_rule f) line))
       (zip [1..<Suc (length (file_lines f))] (file_lines f)))"

record secret_scan_out =
  ss_scanned :: nat
  ss_findings :: "secret_finding list"
  ss_healthy :: bool

definition server_dir :: "string list \<Rightarrow> string list" where
  \<comment> \<open>\<open>server/\<close> below the directory the repository is installed in\<close>
  "server_dir base = base @ [''server'']"

definition shown_path :: "string list \<Rightarrow> string list \<Rightarrow> string option" where
  \<comment> \<open>\<open>None\<close>: the \<open>ValueError\<close> of \<open>relative_to\<close>; the root is a part too\<close>
  "shown_path base p =
     (if length p + 1 > 4
      then (if prefix (server_dir base) p then Some (py_join ''/'' (drop (length (server_dir base)) p)) else None)
      else Some (CHR ''/'' # py_join ''/'' p))"

fun report_findings :: "string list \<Rightarrow> text_file list \<Rightarrow> int + secret_finding list" where
  "report_findings base [] = Inr []"
| "report_findings base (f # fs) =
     (case scan_file_for_secrets f of
        [] \<Rightarrow> report_findings base fs
      | hits \<Rightarrow>
          (case shown_path base (tf_path f) of
             None \<Rightarrow> Inl 500
           | Some p \<Rightarrow> bind_res (report_findings base fs) (\<lambda>r.
               Inr (map (\<lambda>(k, n, s). \<lparr>sf_file = p, sf_kind = k, sf_line = n, sf_snippet = s\<rparr>) hits @ r))))"

definition scanned_files :: "string list \<Rightarrow> text_file list \<Rightarrow> text_file list" where
  \<comment> \<open>the walk meets no file twice and follows no links, so resolving the paths drops nothing\<close>
  "scanned_files base fs =
     sort_key tf_path (iter_text_files (server_dir base @ [''rules'']) fs @ iter_text_files (base @ [''docs'']) fs)"

definition secret_scan :: "string list \<Rightarrow> text_file list \<Rightarrow> int + secret_scan_out" where
  "secret_scan base fs =
     bind_res (report_findings base (scanned_files base fs)) (\<lambda>r.
       Inr \<lparr>ss_scanned = length (scanned_files base fs), ss_findings = r, ss_healthy = (r = [])\<rparr>)"

subsection \<open>Dependency audit\<close>

fun after_first :: "string \<Rightarrow> string \<Rightarrow> string option" where
  \<comment> \<open>\<open>s.split(sep, 1)[1]\<close>, when the separator occurs\<close>
  "after_first sep [] = (if sep = [] then Some [] else None)"
| "after_first sep (c # s) = (if prefix sep (c # s) then Some (drop (length sep) (c # s)) else after_first sep s)"

fun before_first :: "string \<Rightarrow> string \<Rightarrow> string" where
  \<comment> \<open>\<open>s.split(sep, 1)[0]\<close>\<close>
  "before_first sep [] = []"
| "before_first sep (c # s) = (if prefix sep (c # s) then [] else c # before_first sep s)"

definition strip_char :: "char \<Rightarrow> string \<Rightarrow> string" where
  "strip_char d s = py_rstrip (\<lambda>c. c = d) (py_lstrip (\<lambda>c. c = d) s)"

definition clean_dep_line :: "string \<Rightarrow> string" where
  "clean_dep_line line =
     strip_char (CHR 0x27) (strip_char (CHR 0x22) (py_strip (py_rstrip (\<lambda>c. c = CHR '','') (py_strip line))))"

definition skip_extras :: "string \<Rightarrow> string" where
  \<comment> \<open>\<open>(?:\[[^\]]+\])?\<close>\<close>
  "skip_extras s =
     (case s of
        c # t \<Rightarrow>
          if c = CHR ''['' then
            (let inner = takeWhile (\<lambda>d. d \<noteq> CHR '']'') t; r = dropWhile (\<lambda>d. d \<noteq> CHR '']'') t
             in if inner \<noteq> [] \<and> r \<noteq> [] then tl r else s)
          else s
      | [] \<Rightarrow> [])"

definition parse_dep :: "string \<Rightarrow> (string \<times> string) option" where
  "parse_dep line0 =
     (let line = clean_dep_line line0
      in if line = [] \<or> py_startswith line ''#'' then None
         else
           let name = takeWhile token_char line; r = skip_extras (dropWhile token_char line)
           in if name = [] then None
              else Some (py_replace_char (CHR ''_'') ''-'' (py_lower name), py_strip r))"

definition put_dep :: "string \<Rightarrow> string str_dict \<Rightarrow> string str_dict" where
  "put_dep line deps = (case parse_dep line of None \<Rightarrow> deps | Some (n, spec) \<Rightarrow> dict_set n spec deps)"

definition parse_pyproject_deps :: "file_text option \<Rightarrow> int + string str_dict" where
  "parse_pyproject_deps f =
     (case f of
        Some (Utf8 s) \<Rightarrow>
          (case after_first ''dependencies = ['' s of
             None \<Rightarrow> Inr []
           | Some block \<Rightarrow> Inr (fold put_dep (text_lines [] (before_first [CHR 0x0A, CHR '']''] block)) []))
      | Some (Not_utf8 _) \<Rightarrow> Inl 500
      | _ \<Rightarrow> Inr [])"

definition KNOWN_SAFE_DEPS :: "string str_dict" where
  "KNOWN_SAFE_DEPS =
     [(''fastapi'', ''0.115''), (''uvicorn'', ''0.32''), (''websockets'', ''15''), (''pydantic'', ''2.9''),
      (''pydantic-settings'', ''2.6''), (''sqlalchemy'', ''2.0''), (''asyncpg'', ''0.30''), (''alembic'', ''1.14''),
      (''redis'', ''5.2''), (''structlog'', ''24.4''), (''python-dotenv'', ''1.0''), (''httpx'', ''0.27'')]"

definition piece_bound :: "string \<Rightarrow> string" where
  "piece_bound piece =
     (if py_startswith piece ''>='' \<or> py_startswith piece ''=='' then drop 2 piece
      else if py_startswith piece ''>'' then drop 1 piece
      else if py_startswith piece ''~='' then drop 2 piece else [])"

fun lower_bound :: "string list \<Rightarrow> string" where
  "lower_bound [] = []"
| "lower_bound (p # ps) = (if piece_bound (py_strip p) \<noteq> [] then piece_bound (py_strip p) else lower_bound ps)"

record flagged_dep =
  fd_name :: string
  fd_pinned :: string
  fd_expected :: string

definition check_dep :: "string \<times> string \<Rightarrow> flagged_dep list" where
  "check_dep d =
     (let lower = lower_bound (py_split (CHR '','') (snd d));
          pinned = (if lower = [] then ''unpinned'' else lower)
      in case map_of KNOWN_SAFE_DEPS (fst d) of
           None \<Rightarrow> [\<lparr>fd_name = fst d, fd_pinned = pinned, fd_expected = ''unlisted''\<rparr>]
         | Some expected \<Rightarrow>
             let mm = (if lower = [] then [] else py_join ''.'' (take 2 (py_split (CHR ''.'') lower)))
             in if py_startswith mm expected then [] else [\<lparr>fd_name = fst d, fd_pinned = pinned, fd_expected = expected\<rparr>])"

record deps_audit_out =
  da_total :: nat
  da_vulnerable :: "flagged_dep list"
  da_healthy :: bool

definition deps_audit :: "file_text option \<Rightarrow> int + deps_audit_out" where
  "deps_audit f =
     bind_res (parse_pyproject_deps f) (\<lambda>deps.
       let vulnerable = concat (map check_dep (sort_key fst deps))
       in Inr \<lparr>da_total = length deps, da_vulnerable = vulnerable, da_healthy = (vulnerable = [])\<rparr>)"

subsection \<open>Rule quality\<close>

definition stem_char :: "char \<Rightarrow> bool" where
  "stem_char c \<longleftrightarrow> py_isdigit c \<or> c = CHR ''_'' \<or> (97 \<le> ord c \<and> ord c \<le> 122)"

definition rule_stem :: "string \<Rightarrow> string option" where
  \<comment> \<open>\<open>^(T[0-9][0-9_a-z]*)\.yml$\<close> on a file name that ends with \<open>.yml\<close>\<close>
  "rule_stem name =
     (let stem = take (length name - 4) name
      in case stem of
           t # d # r \<Rightarrow> if py_endswith name ''.yml'' \<and> t = CHR ''T'' \<and> py_isdigit d \<and> list_all stem_char r then Some stem else None
         | _ \<Rightarrow> None)"

definition test_stem :: "string \<Rightarrow> string option" where
  \<comment> \<open>the glob \<open>test_t*_rule.py\<close> and \<open>^test_(.+)_rule\.py$\<close>\<close>
  "test_stem name =
     (if py_startswith name ''test_t'' \<and> py_endswith name ''_rule.py'' \<and> length name \<ge> 14 \<and> CHR 0x0A \<notin> set name
      then Some (drop 5 (take (length name - 8) name)) else None)"

fun line_starts :: "string \<Rightarrow> string list" where
  \<comment> \<open>the rests of the text at which \<open>^\<close> matches under \<open>re.M\<close>, after the first\<close>
  "line_starts [] = []"
| "line_starts (c # s) = (if c = CHR 0x0A then s # line_starts s else line_starts s)"

definition after_key :: "string \<Rightarrow> string \<Rightarrow> string list" where
  \<comment> \<open>what follows \<open>^key:\s*\<close>, at every line it matches\<close>
  "after_key k s = map (\<lambda>r. dropWhile py_isspace (drop (length k) r)) (filter (prefix k) (s # line_starts s))"

definition id_value :: "string \<Rightarrow> string option" where
  \<comment> \<open>\<open>([A-Za-z0-9_\-]+)\s*$\<close> under \<open>re.M\<close>\<close>
  "id_value s =
     (let v = takeWhile token_char s; r = dropWhile token_char s; w = takeWhile py_isspace r
      in if v \<noteq> [] \<and> (w = r \<or> CHR 0x0A \<in> set w) then Some v else None)"

definition find_rule_id :: "string \<Rightarrow> string option" where
  "find_rule_id s = (case List.map_filter id_value (after_key ''id:'' s) of [] \<Rightarrow> None | v # _ \<Rightarrow> Some v)"

definition has_value :: "string \<Rightarrow> string \<Rightarrow> bool" where
  \<comment> \<open>\<open>^key:\s*\S+\<close>\<close>
  "has_value k s \<longleftrightarrow> list_ex (\<lambda>r. r \<noteq> []) (after_key k s)"

record quality =
  qu_orphan :: "(string \<times> string) list"
  qu_duplicates :: "(string \<times> string) list"
  qu_missing_level :: "string list"
  qu_missing_tags :: "string list"
  qu_seen :: "string str_dict"

definition check_rule_file :: "string list \<Rightarrow> string \<Rightarrow> string \<Rightarrow> string \<Rightarrow> quality \<Rightarrow> quality" where
  \<comment> \<open>the body of the loop: the stems of the tests, the stem, the file name and the text\<close>
  "check_rule_file tests stem name s a =
     (let a1 = (case find_rule_id s of
            None \<Rightarrow> a
          | Some rid \<Rightarrow>
              (case map_of (qu_seen a) rid of
                 Some other \<Rightarrow> a\<lparr>qu_duplicates := qu_duplicates a @ [(rid, other @ '', '' @ name)]\<rparr>
               | None \<Rightarrow> a\<lparr>qu_seen := dict_set rid name (qu_seen a)\<rparr>));
          a2 = (if has_value ''level:'' s then a1 else a1\<lparr>qu_missing_level := qu_missing_level a1 @ [name]\<rparr>);
          a3 = (if has_value ''tags:'' s then a2 else a2\<lparr>qu_missing_tags := qu_missing_tags a2 @ [name]\<rparr>)
      in if stem \<in> set tests then a3 else a3\<lparr>qu_orphan := qu_orphan a3 @ [(name, ''test_'' @ stem @ ''_rule.py'')]\<rparr>)"

fun check_rule_files :: "string list \<Rightarrow> (string \<times> string \<times> file_text) list \<Rightarrow> quality \<Rightarrow> int + quality" where
  "check_rule_files tests [] a = Inr a"
| "check_rule_files tests ((stem, name, body) # rs) a =
     (case body of
        Unreadable \<Rightarrow> check_rule_files tests rs a
      | Not_utf8 _ \<Rightarrow> Inl 500
      | Utf8 s \<Rightarrow> check_rule_files tests rs (check_rule_file tests stem name s a))"

record quality_out =
  qo_rules_total :: nat
  qo_tests_total :: nat
  qo_quality :: quality
  qo_healthy :: bool

definition quality_start :: quality where
  "quality_start = \<lparr>qu_orphan = [], qu_duplicates = [], qu_missing_level = [], qu_missing_tags = [], qu_seen = []\<rparr>"

definition rule_table :: "(string \<times> file_text) list \<Rightarrow> (string \<times> string \<times> file_text) list" where
  \<comment> \<open>the files of \<open>rules/builtin/mitre_attack\<close>, keyed by the stem of the expected test\<close>
  "rule_table rules =
     fold (\<lambda>(name, body) d. case rule_stem name of None \<Rightarrow> d | Some stem \<Rightarrow> dict_set (py_lower stem) (name, body) d)
       (sort_key fst rules) []"

definition test_table :: "string list \<Rightarrow> string list" where
  "test_table names = remdups (map py_lower (List.map_filter test_stem names))"

definition check_sigma_quality :: "(string \<times> file_text) list \<Rightarrow> string list \<Rightarrow> int + quality_out" where
  "check_sigma_quality rules test_names =
     bind_res (check_rule_files (test_table test_names) (rule_table rules) quality_start) (\<lambda>a.
       Inr \<lparr>qo_rules_total = length (rule_table rules), qo_tests_total = length (test_table test_names), qo_quality = a,
            qo_healthy = (qu_orphan a = [] \<and> qu_duplicates a = [] \<and> qu_missing_level a = [] \<and> qu_missing_tags a = [])\<rparr>)"

subsection \<open>Posture digest\<close>

record posture_cache =
  pc_last_tag :: "string option"
  pc_pending :: "int option"
  pc_started_at :: "rat option"

definition record_posture :: "rat \<Rightarrow> string \<Rightarrow> int \<Rightarrow> posture_cache \<Rightarrow> posture_cache" where
  "record_posture now last_tag pending c =
     \<lparr>pc_last_tag = Some (if last_tag = [] then ''unknown'' else last_tag), pc_pending = Some (max (- 1) pending),
      pc_started_at = Some now\<rparr>"

record posture =
  po_version :: string
  po_git_sha :: string
  po_rules_loaded :: int
  po_lint_clean :: int
  po_pytest_total :: int
  po_sigma_quality_healthy :: bool
  po_secret_scan_healthy :: bool
  po_deps_audit_healthy :: bool
  po_last_tag :: string
  po_pending :: int
  po_uptime_seconds :: int

definition posture_digest ::
  "rat \<Rightarrow> string \<Rightarrow> string \<Rightarrow> int \<Rightarrow> int + quality_out \<Rightarrow> posture_cache \<Rightarrow> int + posture" where
  \<comment> \<open>the clock, the version, the git hash, the count of rules and the quality audit\<close>
  "posture_digest now v sha rules quality c =
     bind_res quality (\<lambda>qo.
       Inr \<lparr>po_version = v, po_git_sha = sha, po_rules_loaded = rules, po_lint_clean = (if qo_healthy qo then 1 else 0),
            po_pytest_total = - 1, po_sigma_quality_healthy = qo_healthy qo, po_secret_scan_healthy = True,
            po_deps_audit_healthy = True, po_last_tag = (case pc_last_tag c of None \<Rightarrow> ''unknown'' | Some t \<Rightarrow> t),
            po_pending = (case pc_pending c of None \<Rightarrow> - 1 | Some n \<Rightarrow> n),
            po_uptime_seconds = py_trunc (now - (case pc_started_at c of None \<Rightarrow> now | Some t \<Rightarrow> t))\<rparr>)"

subsection \<open>Health, version and the header audit\<close>

lemma readiness_agrees: "fst (readyz pg rd) = fst (healthz_deps (l1, pg) (l2, rd))"
  by (simp add: readyz_def healthz_deps_def run_probe_def probe_failures_def Let_def split: option.splits)

lemma git_sha_agrees: "read_build_info loads f = Inr (short, full) \<Longrightarrow> read_git_sha loads f = short"
  by (auto simp: read_build_info_def read_git_sha_def split: option.splits file_text.splits)

lemma version_fails_iff: "is_ok (version_info loads v f) \<longleftrightarrow> (\<forall>s. f \<noteq> Some (Not_utf8 s))"
  by (auto simp: version_info_def read_build_info_def is_ok_def bind_res_def split: option.splits file_text.splits)

lemma whoami_role: "whoami st env req key = Inr (r, d) \<Longrightarrow> require_role st req key = Inr r"
  by (auto simp: whoami_def bind_res_Inr_iff)


text \<open>
  Were the name there, the audit would pass whatever the policy says: it compares four
  literals with the same literals and the policy with nothing.
\<close>

lemma header_audit_vacuous: "ha_healthy (audit_security_headers ((''_CSP'', csp) # sec))"
  by (simp add: audit_security_headers_def header_snapshot_def REQUIRED_HEADERS_def REQUIRED_VALUES_def check_header_def Let_def)

subsection \<open>What the secret scan sees\<close>

lemma matches_rep: "matches_re (rep n p) u t \<longleftrightarrow> length u = n \<and> list_all p u"
proof (induction n arbitrary: u)
  case (Suc n)
  have "matches_re (rep (Suc n) p) u t \<longleftrightarrow> (\<exists>c w. u = c # w \<and> p c \<and> matches_re (rep n p) w t)"
    unfolding rep_def replicate.simps seqs.simps matches_re.simps by (metis append_Cons append_self_conv2)
  with Suc show ?case by (cases u) auto
qed (auto simp: rep_def)

lemma matches_Lit: "matches_re (Regex.Lit l) u t \<longleftrightarrow> u = l"
  by (induction l arbitrary: u) (auto simp: Cons_eq_append_conv)

text \<open>The first pattern finds exactly the lines with \<open>AKIA\<close> and sixteen key characters after it.\<close>

lemma aws_hit:
  "re_search aws_re line \<longleftrightarrow> (\<exists>a k t. line = a @ ''AKIA'' @ k @ t \<and> length k = 16 \<and> list_all key_char k)"
  unfolding re_search_iff by (simp only: aws_re_def matches_re.simps matches_Lit matches_rep) (metis append_assoc)

lemma aws_reported:
  assumes "line = a @ ''AKIA'' @ k @ t" "length k = 16" "list_all key_char k"
  shows "''aws_access_key'' \<in> set (line_hits sigma line)"
proof -
  have "re_search aws_re line" using assms unfolding aws_hit by blast
  then show ?thesis by (simp add: line_hits_def SECRET_PATTERNS_def)
qed

lemma scan_empty_iff:
  "scan_file_for_secrets f = [] \<longleftrightarrow> (\<forall>line \<in> set (file_lines f). line_hits (is_sigma_rule f) line = [])"
proof -
  let ?ls = "file_lines f"
  have all: "snd ` set (zip [1..<Suc (length ?ls)] ?ls) = set ?ls"
    by (metis diff_Suc_1 length_upt map_snd_zip set_map)
  have hits: "concat (map (\<lambda>(n, line). map (g n line) (h line)) zs) = [] \<longleftrightarrow> (\<forall>x \<in> set zs. h (snd x) = [])"
    for zs :: "(nat \<times> string) list" and g :: "nat \<Rightarrow> string \<Rightarrow> string \<Rightarrow> string \<times> nat \<times> string" and h
    by (induction zs) auto
  have "scan_file_for_secrets f = [] \<longleftrightarrow>
      (\<forall>x \<in> set (zip [1..<Suc (length ?ls)] ?ls). line_hits (is_sigma_rule f) (snd x) = [])"
    unfolding scan_file_for_secrets_def by (rule hits)
  then show ?thesis unfolding all [symmetric] by (simp only: ball_simps)
qed

lemma report_exact:
  "report_findings base fs =
     (if list_ex (\<lambda>f. scan_file_for_secrets f \<noteq> [] \<and> shown_path base (tf_path f) = None) fs then Inl 500
      else Inr (concat (map (\<lambda>f. map (\<lambda>(k, n, s). \<lparr>sf_file = the (shown_path base (tf_path f)), sf_kind = k, sf_line = n,
        sf_snippet = s\<rparr>) (scan_file_for_secrets f)) fs)))"
  by (induction fs) (auto split: list.splits option.splits)

definition in_scope :: "string list \<Rightarrow> text_file \<Rightarrow> bool" where
  "in_scope base f \<longleftrightarrow> scannable f \<and>
     (strict_prefix (server_dir base @ [''rules'']) (tf_path f) \<or> strict_prefix (base @ [''docs'']) (tf_path f))"

lemma set_scanned: "set (scanned_files base fs) = {f \<in> set fs. in_scope base f}"
  by (auto simp: scanned_files_def iter_text_files_def files_under_def in_scope_def)

lemma shown_none:
  assumes "in_scope base f"
  shows "shown_path base (tf_path f) = None \<longleftrightarrow> strict_prefix (base @ [''docs'']) (tf_path f) \<and> 4 \<le> length (tf_path f)"
proof -
  have "prefix (server_dir base) (tf_path f)" if "strict_prefix (server_dir base @ [''rules'']) (tf_path f)"
    using that by (meson append_prefixD prefix_order.less_imp_le)
  moreover have "\<not> prefix (server_dir base) (tf_path f)" if "strict_prefix (base @ [''docs'']) (tf_path f)"
    using that by (auto simp: server_dir_def prefix_def strict_prefix_def)
  ultimately show ?thesis using assms by (auto simp: in_scope_def shown_path_def)
qed


definition demo_leak :: text_file where
  "demo_leak = \<lparr>tf_path = [''opt'', ''zaqorin'', ''docs'', ''KEYS.md''], tf_size = 20, tf_text = Utf8 ''AKIA0123456789ABCDEF''\<rparr>"


text \<open>
  An installation below a directory called \<open>build\<close> or \<open>dist\<close> is never scanned: the
  directories to skip are looked for in the absolute path.
\<close>

lemma scan_blind_below_build:
  assumes "''build'' \<in> set base"
  shows "secret_scan base fs = Inr \<lparr>ss_scanned = 0, ss_findings = [], ss_healthy = True\<rparr>"
proof -
  have "\<not> in_scope base f" for f
  proof -
    have "list_ex (\<lambda>p. p \<in> set SKIP_DIR_NAMES) (tf_path f)" if "''build'' \<in> set (tf_path f)"
      using that by (auto simp: SKIP_DIR_NAMES_def list_ex_iff)
    moreover have "''build'' \<in> set (tf_path f)" if "prefix (base @ x) (tf_path f)" for x
      using that assms by (auto simp: prefix_def)
    ultimately show ?thesis
      unfolding in_scope_def scannable_def server_dir_def append_assoc by (meson prefix_order.less_imp_le)
  qed
  then have "set (scanned_files base fs) = {}" by (auto simp: set_scanned)
  then show ?thesis by (simp add: secret_scan_def)
qed

subsection \<open>Reading the dependency list back\<close>

definition dep_line :: "string \<times> string \<Rightarrow> string" where
  \<comment> \<open>one line of a \<open>pyproject.toml\<close>: four blanks, the requirement in double quotes, a comma\<close>
  "dep_line d = ''    '' @ [CHR 0x22] @ fst d @ snd d @ [CHR 0x22, CHR '','']"

definition dep_ok :: "string \<times> string \<Rightarrow> bool" where
  \<comment> \<open>a normalised name, and a version part that starts with an operator and has no quotes or line breaks\<close>
  "dep_ok d \<longleftrightarrow> fst d \<noteq> [] \<and> list_all (\<lambda>c. token_char c \<and> c \<noteq> CHR ''_'' \<and> \<not> (65 \<le> ord c \<and> ord c \<le> 90)) (fst d) \<and>
     list_all (\<lambda>c. \<not> line_break c \<and> \<not> quote_char c) (snd d) \<and>
     (snd d \<noteq> [] \<longrightarrow> \<not> token_char (hd (snd d)) \<and> hd (snd d) \<noteq> CHR ''['' \<and> \<not> py_isspace (hd (snd d)) \<and>
        \<not> py_isspace (last (snd d)))"

definition pyproject :: "string \<Rightarrow> string str_dict \<Rightarrow> string \<Rightarrow> string" where
  "pyproject pre deps post =
     pre @ ''dependencies = ['' @ concat (map (\<lambda>d. CHR 0x0A # dep_line d) deps) @ [CHR 0x0A, CHR '']''] @ post"

lemma rstrip_keep: "s \<noteq> [] \<Longrightarrow> \<not> p (last s) \<Longrightarrow> py_rstrip p s = s"
  by (cases s rule: rev_cases) (simp_all add: py_rstrip_def)

lemma lstrip_keep: "s \<noteq> [] \<Longrightarrow> \<not> p (hd s) \<Longrightarrow> py_lstrip p s = s"
  by (cases s) (simp_all add: py_lstrip_def)

lemma strip_keep: "s = [] \<or> \<not> py_isspace (hd s) \<and> \<not> py_isspace (last s) \<Longrightarrow> py_strip s = s"
  by (cases "s = []") (simp_all add: py_strip_def rstrip_keep lstrip_keep, simp add: py_rstrip_def py_lstrip_def)

lemma char_classes:
  "\<not> py_isspace (CHR 0x22)" "\<not> py_isspace (CHR '','')" "\<not> quote_char (CHR ''-'')" "py_isspace (CHR '' '')"
  "\<not> line_break (CHR 0x22)" "\<not> line_break (CHR '','')" "\<not> line_break (CHR '' '')" "line_break (CHR 0x0A)"
  by (simp_all add: py_isspace_def quote_char_def line_break_def ord_def)

lemma token_char_plain:
  assumes "token_char c"
  shows "\<not> py_isspace c" "\<not> quote_char c" "\<not> line_break c" "c \<noteq> CHR ''#''"
  using assms by (auto simp: token_char_def py_isalnum_def py_isalpha_def py_isdigit_def py_isspace_def quote_char_def
      line_break_def ord_def)

lemma clean_dep_line:
  assumes "s \<noteq> []" "\<not> quote_char (hd s)" "\<not> quote_char (last s)"
  shows "clean_dep_line (''    '' @ [CHR 0x22] @ s @ [CHR 0x22, CHR '','']) = s"
proof -
  let ?q = "CHR 0x22 # s @ [CHR 0x22]"
  have "py_strip (''    '' @ [CHR 0x22] @ s @ [CHR 0x22, CHR '','']) = ?q @ [CHR '','']"
    by (simp add: py_strip_def py_lstrip_def py_rstrip_def char_classes)
  moreover have "py_rstrip (\<lambda>c. c = CHR '','') (?q @ [CHR '','']) = ?q" by (simp add: py_rstrip_def)
  moreover have "py_strip ?q = ?q" by (rule strip_keep) (simp add: char_classes)
  moreover have "strip_char (CHR 0x22) ?q = s"
  proof -
    have h: "hd (s @ [CHR 0x22]) \<noteq> CHR 0x22" and l: "last s \<noteq> CHR 0x22" using assms by (auto simp: quote_char_def)
    have "py_lstrip (\<lambda>c. c = CHR 0x22) ?q = py_lstrip (\<lambda>c. c = CHR 0x22) (s @ [CHR 0x22])"
      by (simp add: py_lstrip_def)
    also have "\<dots> = s @ [CHR 0x22]" using h by (simp add: lstrip_keep)
    finally have "strip_char (CHR 0x22) ?q = py_rstrip (\<lambda>c. c = CHR 0x22) (s @ [CHR 0x22])" by (simp add: strip_char_def)
    also have "\<dots> = py_rstrip (\<lambda>c. c = CHR 0x22) s" by (simp add: py_rstrip_def)
    also have "\<dots> = s" using l assms(1) by (simp add: rstrip_keep)
    finally show ?thesis .
  qed
  moreover have "strip_char (CHR 0x27) s = s"
    using assms by (simp add: strip_char_def rstrip_keep lstrip_keep quote_char_def)
  ultimately show ?thesis by (simp add: clean_dep_line_def)
qed

lemma parse_dep_line:
  assumes "dep_ok d"
  shows "parse_dep (dep_line d) = Some d"
proof -
  obtain n v where d: "d = (n, v)" by (cases d)
  have n: "n \<noteq> []" "list_all token_char n" "list_all (\<lambda>c. c \<noteq> CHR ''_'' \<and> \<not> (65 \<le> ord c \<and> ord c \<le> 90)) n"
    and v: "list_all (\<lambda>c. \<not> quote_char c) v" "v \<noteq> [] \<Longrightarrow> \<not> token_char (hd v) \<and> hd v \<noteq> CHR ''['' \<and> \<not> py_isspace (hd v) \<and> \<not> py_isspace (last v)"
    using assms by (auto simp: dep_ok_def d list_all_iff)
  have "token_char (hd n)" "token_char (last n)" using n(1,2) by (auto simp: list_all_iff)
  moreover have "\<not> quote_char (last v)" if "v \<noteq> []" using v(1) that by (simp add: list_all_iff)
  ultimately have "\<not> quote_char (hd (n @ v))" "\<not> quote_char (last (n @ v))" and hash: "hd (n @ v) \<noteq> CHR ''#''"
    using n(1) token_char_plain by (auto simp: hd_append last_append)
  then have c: "clean_dep_line (dep_line d) = n @ v"
    using clean_dep_line [of "n @ v"] n(1) by (simp add: dep_line_def d)
  have "takeWhile token_char (n @ v) = n" "dropWhile token_char (n @ v) = v"
    using n(2) v(2) by (cases v; simp add: list_all_iff takeWhile_append2 dropWhile_append2)+
  moreover have "skip_extras v = v" using v(2) by (cases v) (simp_all add: skip_extras_def)
  moreover have "py_strip v = v" using v(2) by (intro strip_keep) blast
  moreover have "py_replace_char (CHR ''_'') ''-'' (py_lower n) = n"
    using n(3) by (induction n) (auto simp: py_lower_def py_lower_char_def py_replace_char_def)
  moreover have "\<not> py_startswith (n @ v) ''#''" using hash n(1) by (cases n) (simp_all add: py_startswith_def)
  ultimately show ?thesis using n(1) unfolding parse_dep_def c Let_def by (simp add: d)
qed

lemma text_lines_plain: "list_all (\<lambda>c. \<not> line_break c) l \<Longrightarrow> text_lines acc (l @ s) = text_lines (rev l @ acc) s"
  by (induction l arbitrary: acc) simp_all

lemma dep_line_plain: "dep_ok d \<Longrightarrow> list_all (\<lambda>c. \<not> line_break c) (dep_line d)"
  by (auto simp: dep_ok_def dep_line_def list_all_iff char_classes dest: token_char_plain)

lemma text_lines_deps:
  assumes "list_all dep_ok deps"
  shows "text_lines acc (concat (map (\<lambda>d. CHR 0x0A # dep_line d) deps)) =
    (if deps = [] then (if acc = [] then [] else [rev acc]) else rev acc # map dep_line deps)"
  using assms
proof (induction deps arbitrary: acc)
  case (Cons d deps)
  then have "dep_line d \<noteq> []" by (simp add: dep_line_def)
  moreover have "text_lines acc (concat (map (\<lambda>d. CHR 0x0A # dep_line d) (d # deps))) =
      rev acc # text_lines (rev (dep_line d)) (concat (map (\<lambda>d. CHR 0x0A # dep_line d) deps))"
    using Cons.prems by (simp add: text_lines_plain dep_line_plain char_classes)
  ultimately show ?case using Cons by simp
qed simp

lemma fold_put_dep:
  "list_all dep_ok deps \<Longrightarrow> distinct (map fst (acc @ deps)) \<Longrightarrow> fold put_dep (map dep_line deps) acc = acc @ deps"
proof (induction deps arbitrary: acc)
  case (Cons d deps)
  have "dict_set (fst d) (snd d) acc = acc @ [d]"
    using Cons.prems(2) by (induction acc) (auto split: if_splits)
  then have "put_dep (dep_line d) acc = acc @ [d]" using Cons.prems(1) by (cases d) (simp add: put_dep_def parse_dep_line)
  with Cons show ?case by simp
qed simp

lemma before_bracket:
  assumes "list_all dep_ok deps"
  shows "before_first [CHR 0x0A, CHR '']''] (concat (map (\<lambda>d. CHR 0x0A # dep_line d) deps) @ [CHR 0x0A, CHR '']''] @ post) =
    concat (map (\<lambda>d. CHR 0x0A # dep_line d) deps)"
  using assms
proof (induction deps)
  case (Cons d deps)
  have p: "before_first [CHR 0x0A, CHR '']''] (l @ s) = l @ before_first [CHR 0x0A, CHR '']''] s"
    if "list_all (\<lambda>c. \<not> line_break c) l" for l s
    using that by (induction l) (auto simp: char_classes)
  have "\<not> prefix [CHR 0x0A, CHR '']''] (CHR 0x0A # dep_line d @ s)" for s by (simp add: dep_line_def)
  then show ?case using Cons p [OF dep_line_plain] by simp
qed simp

lemma dependencies_no_border:
  assumes "0 < k" "k < 16"
  shows "\<not> prefix (drop k ''dependencies = ['') (''dependencies = ['' @ x)"
proof -
  have "k \<in> {1, 2, 3, 4, 5, 6, 7, 8, 9, 10, 11, 12, 13, 14, 15}"
    using assms by (simp only: insert_iff empty_iff) presburger
  then show ?thesis by (auto simp: eval_nat_numeral)
qed

lemma append_rest: "u @ w = d @ r \<Longrightarrow> length u \<le> length d \<Longrightarrow> w = drop (length u) d @ r"
  by (metis append_eq_conv_conj drop_append diff_is_0_eq drop0)

lemma after_dependencies:
  assumes "after_first ''dependencies = ['' pre = None"
  shows "after_first ''dependencies = ['' (pre @ ''dependencies = ['' @ x) = Some x"
  using assms
proof (induction pre)
  case (Cons c pre)
  let ?d = "''dependencies = [''"
  have no: "\<not> prefix ?d (c # pre)" and rest: "after_first ?d pre = None" using Cons.prems by (auto split: if_splits)
  have "\<not> prefix ?d ((c # pre) @ ?d @ x)"
  proof
    assume p: "prefix ?d ((c # pre) @ ?d @ x)"
    show False
    proof (cases "length ?d \<le> length (c # pre)")
      case True
      have "prefix (c # pre) ((c # pre) @ ?d @ x)" by (rule prefixI) (rule refl)
      then show False using prefix_length_prefix [OF p _ True] no by blast
    next
      case False
      then have k: "0 < length (c # pre)" "length (c # pre) < 16" by simp_all
      from p obtain r where "(c # pre) @ ?d @ x = ?d @ r" by (auto simp: prefix_def)
      then have "?d @ x = drop (length (c # pre)) ?d @ r" by (rule append_rest) (use False in linarith)
      then have "prefix (drop (length (c # pre)) ?d) (?d @ x)" by (metis prefixI)
      with dependencies_no_border [OF k] show False by blast
    qed
  qed
  then show ?case using Cons.IH [OF rest] by (simp only: append_Cons after_first.simps if_False)
qed simp

definition dep_current :: "string \<times> string \<Rightarrow> bool" where
  \<comment> \<open>the name is listed and the first two parts of the lower bound start with the listed version\<close>
  "dep_current d \<longleftrightarrow>
     (case map_of KNOWN_SAFE_DEPS (fst d) of
        None \<Rightarrow> False
      | Some e \<Rightarrow> lower_bound (py_split (CHR '','') (snd d)) \<noteq> [] \<and>
          prefix e (py_join ''.'' (take 2 (py_split (CHR ''.'') (lower_bound (py_split (CHR '','') (snd d)))))))"

lemma known_nonempty: "map_of KNOWN_SAFE_DEPS n = Some e \<Longrightarrow> e \<noteq> []"
  by (auto simp: KNOWN_SAFE_DEPS_def split: if_splits)

lemma check_dep_iff: "check_dep d = [] \<longleftrightarrow> dep_current d"
  using known_nonempty [of "fst d"]
  by (auto simp: check_dep_def dep_current_def Let_def py_startswith_def split: option.splits)



text \<open>The comparison is one of texts: 2.90 counts as 2.9, and a blank after the operator hides the version.\<close>

lemma dep_compare_is_textual:
  "dep_current (''pydantic'', ''>=2.90'')" "\<not> dep_current (''pydantic'', ''>= 2.9'')" "\<not> dep_current (''pydantic'', ''>=2.10'')"
  by code_simp+

subsection \<open>Rule quality\<close>

lemma check_rule_file_parts:
  "qu_orphan (check_rule_file T stem name s a) = qu_orphan a @ (if stem \<in> set T then [] else [(name, ''test_'' @ stem @ ''_rule.py'')])"
  "qu_missing_level (check_rule_file T stem name s a) = qu_missing_level a @ (if has_value ''level:'' s then [] else [name])"
  "qu_missing_tags (check_rule_file T stem name s a) = qu_missing_tags a @ (if has_value ''tags:'' s then [] else [name])"
  by (simp_all add: check_rule_file_def Let_def split: option.split)

lemma check_rule_file_ids:
  "qu_duplicates (check_rule_file T stem name s a) = [] \<longleftrightarrow>
     qu_duplicates a = [] \<and> (\<forall>r. find_rule_id s = Some r \<longrightarrow> r \<notin> fst ` set (qu_seen a))"
  "fst ` set (qu_seen (check_rule_file T stem name s a)) = fst ` set (qu_seen a) \<union> set_option (find_rule_id s)"
  by (auto simp: check_rule_file_def Let_def map_of_eq_None_iff keys_dict_set
      split: option.split dest: map_of_SomeD intro: rev_image_eqI)

definition rule_good :: "string list \<Rightarrow> string \<times> string \<Rightarrow> bool" where
  "rule_good T r \<longleftrightarrow> fst r \<in> set T \<and> has_value ''level:'' (snd r) \<and> has_value ''tags:'' (snd r)"

definition quality_clean :: "quality \<Rightarrow> bool" where
  "quality_clean a \<longleftrightarrow> qu_orphan a = [] \<and> qu_duplicates a = [] \<and> qu_missing_level a = [] \<and> qu_missing_tags a = []"

definition ids_of :: "(string \<times> string \<times> string) list \<Rightarrow> string list" where
  "ids_of rs = List.map_filter (\<lambda>r. find_rule_id (snd (snd r))) rs"

lemma ids_of_simps [simp]:
  "ids_of [] = []"
  "ids_of (r # rs) = (case find_rule_id (snd (snd r)) of None \<Rightarrow> ids_of rs | Some i \<Rightarrow> i # ids_of rs)"
  by (simp_all add: ids_of_def List.map_filter_simps split: option.split)

lemma check_rule_files_fold:
  "check_rule_files T (map (\<lambda>(stem, name, s). (stem, name, Utf8 s)) rs) a =
     Inr (fold (\<lambda>(stem, name, s). check_rule_file T stem name s) rs a)"
  by (induction rs arbitrary: a) auto

lemma quality_fold:
  "quality_clean (fold (\<lambda>(stem, name, s). check_rule_file T stem name s) rs a) \<longleftrightarrow>
     quality_clean a \<and> list_all (\<lambda>(stem, name, s). rule_good T (stem, s)) rs \<and> distinct (ids_of rs) \<and>
     set (ids_of rs) \<inter> fst ` set (qu_seen a) = {}"
proof (induction rs arbitrary: a)
  case (Cons r rs)
  obtain stem name s where r: "r = (stem, name, s)" by (cases r)
  let ?a = "check_rule_file T stem name s a"
  have "quality_clean ?a \<longleftrightarrow> quality_clean a \<and> rule_good T (stem, s) \<and> set_option (find_rule_id s) \<inter> fst ` set (qu_seen a) = {}"
    by (auto simp: quality_clean_def check_rule_file_parts check_rule_file_ids(1) rule_good_def)
  then show ?case
    using Cons.IH [of ?a] check_rule_file_ids(2) [of T stem name s a] by (cases "find_rule_id s") (auto simp: r)
qed simp

text \<open>
  The audit calls the rules healthy exactly when every rule has a test, a value after
  \<open>level:\<close> and one after \<open>tags:\<close>, and no two rules have the same id.
\<close>

lemma sigma_quality_exact:
  assumes "rule_table rules = map (\<lambda>(stem, name, s). (stem, name, Utf8 s)) rs"
  shows "\<exists>out. check_sigma_quality rules names = Inr out \<and> qo_rules_total out = length rs \<and>
    (qo_healthy out \<longleftrightarrow> list_all (\<lambda>(stem, name, s). rule_good (test_table names) (stem, s)) rs \<and> distinct (ids_of rs))"
  using quality_fold [of "test_table names" rs quality_start] assms
  by (auto simp: check_sigma_quality_def check_rule_files_fold bind_res_def quality_clean_def quality_start_def)

text \<open>The white space after the colon may be a line break: an empty level is found if any line follows it.\<close>

lemma empty_level_unseen: "has_value ''level:'' (''level:'' @ [CHR 0x0A] @ ''tags:'')" "\<not> has_value ''level:'' ''level:''"
  by code_simp+

subsection \<open>Posture\<close>

lemma posture_after_record:
  assumes "posture_digest now v sha n quality (record_posture t tag pending c) = Inr p"
  shows "po_last_tag p = (if tag = [] then ''unknown'' else tag) \<and> po_pending p = max (- 1) pending \<and>
    po_uptime_seconds p = py_trunc (now - t)"
  using assms by (auto simp: posture_digest_def record_posture_def bind_res_Inr_iff)

text \<open>The digest says the scans are healthy without running them.\<close>

lemma posture_assumes_health:
  "posture_digest now v sha n quality c = Inr p \<Longrightarrow> po_secret_scan_healthy p \<and> po_deps_audit_healthy p"
  by (auto simp: posture_digest_def bind_res_Inr_iff)

end
