(* ===== verification/Lifespan.thy ===== *)
theory Lifespan
  imports Prelude
begin

section \<open>Start and stop of the server\<close>

text \<open>
  The lifespan of \<open>main.py\<close>, the shared Redis client and the consumer group of
  \<open>streams/publisher.py\<close>, and the loop of \<open>streams/consumer.py\<close>.  Whether a step raises
  is given by a function; the background tasks themselves are the components of the other
  theories.
\<close>

record boot_settings =
  bs_streams_enabled :: bool
  bs_detectors_enabled :: bool
  bs_dispatcher_enabled :: bool
  bs_soar_enabled :: bool

datatype part = Engine | Redis_client | Runner_task | Dispatcher_loop | Soar_loop

datatype boot_step = Open part | Ensure_group

subsection \<open>Starting\<close>

definition boot_steps :: "boot_settings \<Rightarrow> boot_step list" where
  "boot_steps b =
     [Open Engine] @
     (if bs_streams_enabled b
      then [Open Redis_client, Ensure_group] @ (if bs_detectors_enabled b then [Open Runner_task] else []) else []) @
     (if bs_dispatcher_enabled b then [Open Dispatcher_loop] else []) @
     (if bs_soar_enabled b then [Open Soar_loop] else [])"

fun run_steps :: "(boot_step \<Rightarrow> bool) \<Rightarrow> boot_step list \<Rightarrow> part list \<Rightarrow> bool \<times> part list" where
  \<comment> \<open>the first argument says which steps raise; the parts open so far, latest first\<close>
  "run_steps raises [] up = (True, up)"
| "run_steps raises (s # ss) up =
     (if raises s then (False, up) else run_steps raises ss (case s of Open p \<Rightarrow> p # up | Ensure_group \<Rightarrow> up))"

definition startup :: "(boot_step \<Rightarrow> bool) \<Rightarrow> boot_settings \<Rightarrow> bool \<times> part list" where
  "startup raises b = run_steps raises (boot_steps b) []"

subsection \<open>Stopping\<close>

definition stop_steps :: "boot_settings \<Rightarrow> part list" where
  "stop_steps b =
     (if bs_soar_enabled b then [Soar_loop] else []) @ (if bs_dispatcher_enabled b then [Dispatcher_loop] else []) @
     (if bs_streams_enabled b \<and> bs_detectors_enabled b then [Runner_task] else []) @
     (if bs_streams_enabled b then [Redis_client] else []) @ [Engine]"

fun stop_parts :: "(part \<Rightarrow> bool) \<Rightarrow> part list \<Rightarrow> part list \<Rightarrow> bool \<times> part list" where
  \<comment> \<open>an exception while waiting for the runner is logged; every other one ends the clean-up\<close>
  "stop_parts raises [] up = (True, up)"
| "stop_parts raises (p # ps) up =
     (if raises p \<and> p \<noteq> Runner_task then (False, up) else stop_parts raises ps (filter (\<lambda>x. x \<noteq> p) up))"

definition lifespan :: "(boot_step \<Rightarrow> bool) \<Rightarrow> (part \<Rightarrow> bool) \<Rightarrow> boot_settings \<Rightarrow> bool \<times> part list" where
  \<comment> \<open>an exception before the \<open>yield\<close> is outside the \<open>try\<close>: nothing is stopped\<close>
  "lifespan raises stop_raises b =
     (case startup raises b of
        (False, up) \<Rightarrow> (False, up)
      | (True, up) \<Rightarrow> stop_parts stop_raises (stop_steps b) up)"

subsection \<open>The Redis client and the consumer group\<close>

definition get_redis :: "string \<Rightarrow> string option \<Rightarrow> string \<times> string option" where
  \<comment> \<open>the URL of the settings and the client of the process, named by its URL\<close>
  "get_redis url c = (case c of None \<Rightarrow> (url, Some url) | Some u \<Rightarrow> (u, c))"

definition close_redis :: "string option \<Rightarrow> string option" where
  "close_redis c = None"

datatype group_reply = Created | Response_error string | Other_error

definition ensure_consumer_group :: "group_reply \<Rightarrow> bool" where
  \<comment> \<open>whether it returns\<close>
  "ensure_consumer_group r = (case r of Created \<Rightarrow> True | Response_error s \<Rightarrow> py_contains s ''BUSYGROUP'' | Other_error \<Rightarrow> False)"

datatype read_reply = Entries "string list" | Read_error string group_reply

datatype consumer_end = Stopped | Raised | Waiting

fun run_consumer :: "(bool \<times> read_reply) list \<Rightarrow> string list \<Rightarrow> consumer_end \<times> string list" where
  \<comment> \<open>one element per round: whether a signal has come before it and what the read gives;
      the acknowledged ids so far\<close>
  "run_consumer [] acked = (Waiting, acked)"
| "run_consumer ((stop, reply) # rs) acked =
     (if stop then (Stopped, acked)
      else case reply of
        Entries ids \<Rightarrow> run_consumer rs (acked @ ids)
      | Read_error msg g \<Rightarrow>
          if py_contains msg ''NOGROUP'' \<and> ensure_consumer_group g then run_consumer rs acked else (Raised, acked))"

subsection \<open>What is left open\<close>

lemma run_steps_ok:
  "run_steps raises ss up =
     (if list_ex raises ss then (False, rev (concat (map (\<lambda>s. case s of Open p \<Rightarrow> [p] | Ensure_group \<Rightarrow> []) (takeWhile (Not \<circ> raises) ss))) @ up)
      else (True, rev (concat (map (\<lambda>s. case s of Open p \<Rightarrow> [p] | Ensure_group \<Rightarrow> []) ss)) @ up))"
  by (induction ss arbitrary: up) (auto split: boot_step.splits)

lemma stop_parts_ok:
  "\<not> list_ex (\<lambda>p. raises p \<and> p \<noteq> Runner_task) ps \<Longrightarrow> stop_parts raises ps up = (True, filter (\<lambda>x. x \<notin> set ps) up)"
  by (induction ps arbitrary: up) (auto intro: filter_cong)

lemma startup_opens:
  "startup raises b = (True, up) \<Longrightarrow> up = stop_steps b"
  by (auto simp: startup_def run_steps_ok boot_steps_def stop_steps_def split: if_splits)

text \<open>
  A clean start followed by a clean stop leaves nothing open: the parts are stopped in the
  reverse of the order in which they were opened, so every task ends before the Redis client
  and the engine it uses.
\<close>

lemma lifespan_releases_all:
  assumes "\<not> list_ex raises (boot_steps b)" "\<not> list_ex (\<lambda>p. stop_raises p \<and> p \<noteq> Runner_task) (stop_steps b)"
  shows "lifespan raises stop_raises b = (True, []) \<and> snd (startup raises b) = stop_steps b"
proof -
  obtain up where up: "startup raises b = (True, up)" using assms(1) by (auto simp: startup_def run_steps_ok)
  then have "up = stop_steps b" by (rule startup_opens)
  then show ?thesis using up stop_parts_ok [OF assms(2), of up] by (simp add: lifespan_def)
qed

text \<open>
  A part that fails to start leaves the earlier ones open, and one that fails to stop leaves
  the later ones open: a SOAR configuration that does not load leaves the dispatcher and the
  runner going, and an exception of \<open>soar_worker.stop()\<close> keeps all others.
\<close>

lemma failed_start_leaves_open:
  "lifespan (\<lambda>s. s = Open Soar_loop) stop_raises
     \<lparr>bs_streams_enabled = True, bs_detectors_enabled = True, bs_dispatcher_enabled = True, bs_soar_enabled = True\<rparr> =
   (False, [Dispatcher_loop, Runner_task, Redis_client, Engine])"
  by (simp add: lifespan_def startup_def boot_steps_def)

lemma failed_stop_leaves_open:
  assumes "startup raises b = (True, up)" "bs_soar_enabled b" "stop_raises Soar_loop"
  shows "lifespan raises stop_raises b = (False, up)"
  using assms by (simp add: lifespan_def stop_steps_def)

lemma consumer_acks_all:
  assumes "list_all (\<lambda>(stop, r). \<not> stop \<and> (\<exists>ids. r = Entries ids)) rs"
  shows "run_consumer rs acked = (Waiting, acked @ concat (map (\<lambda>(_, r). case r of Entries ids \<Rightarrow> ids | _ \<Rightarrow> []) rs))"
  using assms by (induction rs arbitrary: acked) auto

end
