(* ===== verification/Spec2Isabelle.thy ===== *)
theory Spec2Isabelle
  imports Ws_Agent Http_Stack Evidence Self_Defense Detector_Runner Soar_Api Ingest_Webhook Typosquat Sources Query_Api Diagnostics Lifespan
begin

text \<open>
  Header.
\<close>

end
